(* ===== verification/XsanPrelude.thy ===== *)
theory XsanPrelude
  imports Main "HOL-Library.Word"
begin

text \<open>
  What the component theories share: the integer types of the C sources, the collections of
  simplification rules that the components add their definitions to, and general lemmas on
  lists and words.
\<close>

unbundle bit_operations_syntax

type_synonym u8 = "8 word"
type_synonym u16 = "16 word"
type_synonym u32 = "32 word"
type_synonym u64 = "64 word"

text \<open>A pointer argument that may be \<^verbatim>\<open>NULL\<close>.\<close>

type_synonym 'a ptr = "'a option"

abbreviation (input) NULL :: "'a ptr" where "NULL \<equiv> None"

named_theorems xsan_defs \<open>definitions a proof of the same component may unfold\<close>

section \<open>Lists\<close>

lemma map_of_rev_distinct: "distinct (map fst xs) \<Longrightarrow> map_of (rev xs) = map_of xs"
  by (rule map_of_inject_set [THEN iffD2]) (simp_all add: rev_map [symmetric])

lemma map_of_filter_key: "map_of (filter (\<lambda>e. fst e \<noteq> k) db) = (map_of db)(k := None)"
  by (induction db) (auto simp: fun_eq_iff)

lemma map_filter_concat:
  "List.map_filter f xs = concat (map (\<lambda>x. case f x of None \<Rightarrow> [] | Some y \<Rightarrow> [y]) xs)"
  by (induction xs) (auto simp: List.map_filter_simps split: option.splits)

text \<open>Lists sorted into buckets by a function of their elements have no element twice.\<close>

lemma distinct_concat_buckets:
  assumes "\<And>i. i < length xss \<Longrightarrow> distinct (xss ! i)"
    and "\<And>i x. i < length xss \<Longrightarrow> x \<in> set (xss ! i) \<Longrightarrow> f x = off + i"
  shows "distinct (concat xss)"
  using assms
proof (induction xss arbitrary: off)
  case (Cons xs xss)
  have "distinct (concat xss)"
    using Cons.prems(1) [of "Suc _"] Cons.prems(2) [of "Suc _"] by (intro Cons.IH [of "Suc off"]) auto
  moreover have "set xs \<inter> set (concat xss) = {}"
  proof -
    have "f x \<noteq> off" if "ys \<in> set xss" "x \<in> set ys" for x ys
    proof -
      obtain i where "i < length xss" "ys = xss ! i" using \<open>ys \<in> set xss\<close> by (metis in_set_conv_nth)
      then show ?thesis using Cons.prems(2) [of "Suc i" x] that by simp
    qed
    then show ?thesis using Cons.prems(2) [of 0] by fastforce
  qed
  ultimately show ?case using Cons.prems(1) [of 0] by simp
qed simp

lemma length_concat_update:
  "i < length xss \<Longrightarrow>
     length (concat (xss[i := ys])) + length (xss ! i) = length (concat xss) + length ys"
  by (induction xss arbitrary: i) (auto simp: nth_Cons split: nat.splits)

lemma set_concat_nth: "x \<in> set (concat xss) \<longleftrightarrow> (\<exists>i<length xss. x \<in> set (xss ! i))"
  by (auto simp: in_set_conv_nth) (metis nth_mem)+

lemma concat_map_concat: "concat (map (\<lambda>b. concat (map f b)) xss) = concat (map f (concat xss))"
  by (induction xss) simp_all

section \<open>Words\<close>

lemma unat_ucast_32_64 [simp]: "unat (ucast (w :: u32) :: u64) = unat w"
proof -
  have "unat w < 2 ^ 32" using unsigned_less [of w, where 'a = nat] by simp
  then show ?thesis by (simp add: unsigned_ucast_eq take_bit_nat_eq_self)
qed

lemma unat_mult_small: "unat (a :: u64) * unat b < 2 ^ 64 \<Longrightarrow> unat (a * b) = unat a * unat b"
  by (simp add: unat_word_ariths)

lemma unat_add_small: "unat (a :: u64) + unat b < 2 ^ 64 \<Longrightarrow> unat (a + b) = unat a + unat b"
  by (simp add: unat_word_ariths)

end
