(* ===== verification/Errors.thy ===== *)
theory Errors
  imports XsanPrelude
begin

text \<open>
  The error codes of include/xsan\_error.h and the functions of src/common/error.c on them.

  A code is \<open>XSAN_CODE n\<close> for the 32-bit integer \<open>n\<close> that the header gives the macro; the
  abbreviations below carry the macro names. The source also uses twelve names that no
  header of the repository defines (for example \<^verbatim>\<open>XSAN_ERROR_OUT_OF_MEMORY\<close>); these are
  constructors of their own, so that all the theories assume of them is that they differ from
  every defined code and from each other.
\<close>

section \<open>The codes\<close>

datatype xsan_error =
    XSAN_CODE int
  | XSAN_ERROR_INTERNAL
  | XSAN_ERROR_INVALID_MSG_TYPE
  | XSAN_ERROR_INVALID_PARAM_ALIGNMENT
  | XSAN_ERROR_INVALID_PARAM_SIZE
  | XSAN_ERROR_NOT_IMPLEMENTED
  | XSAN_ERROR_OUT_OF_BOUNDS
  | XSAN_ERROR_OUT_OF_MEMORY
  | XSAN_ERROR_PROTOCOL_GENERIC
  | XSAN_ERROR_REPLICATION_UNAVAILABLE
  | XSAN_ERROR_RESOURCE_UNAVAILABLE
  | XSAN_ERROR_TOO_MANY_EXTENTS
  | XSAN_ERROR_UNMAPPED_LBA

abbreviation XSAN_OK :: xsan_error where "XSAN_OK \<equiv> XSAN_CODE 0"
abbreviation XSAN_ERROR_GENERIC :: xsan_error where "XSAN_ERROR_GENERIC \<equiv> XSAN_CODE (-1)"
abbreviation XSAN_ERROR_INVALID_PARAM :: xsan_error where "XSAN_ERROR_INVALID_PARAM \<equiv> XSAN_CODE (-2)"
abbreviation XSAN_ERROR_BUSY :: xsan_error where "XSAN_ERROR_BUSY \<equiv> XSAN_CODE (-3)"
abbreviation XSAN_ERROR_NOT_FOUND :: xsan_error where "XSAN_ERROR_NOT_FOUND \<equiv> XSAN_CODE (-4)"
abbreviation XSAN_ERROR_ALREADY_EXISTS :: xsan_error where "XSAN_ERROR_ALREADY_EXISTS \<equiv> XSAN_CODE (-5)"
abbreviation XSAN_ERROR_TIMEOUT :: xsan_error where "XSAN_ERROR_TIMEOUT \<equiv> XSAN_CODE (-6)"
abbreviation XSAN_ERROR_NO_MEMORY :: xsan_error where "XSAN_ERROR_NO_MEMORY \<equiv> XSAN_CODE (-7)"
abbreviation XSAN_ERROR_IO :: xsan_error where "XSAN_ERROR_IO \<equiv> XSAN_CODE (-8)"
abbreviation XSAN_ERROR_PERMISSION_DENIED :: xsan_error where "XSAN_ERROR_PERMISSION_DENIED \<equiv> XSAN_CODE (-9)"
abbreviation XSAN_ERROR_INTERRUPTED :: xsan_error where "XSAN_ERROR_INTERRUPTED \<equiv> XSAN_CODE (-10)"
abbreviation XSAN_ERROR_SYSTEM :: xsan_error where "XSAN_ERROR_SYSTEM \<equiv> XSAN_CODE (-11)"
abbreviation XSAN_ERROR_UNSUPPORTED :: xsan_error where "XSAN_ERROR_UNSUPPORTED \<equiv> XSAN_CODE (-12)"
abbreviation XSAN_ERROR_NOT_INITIALIZED :: xsan_error where "XSAN_ERROR_NOT_INITIALIZED \<equiv> XSAN_CODE (-13)"
abbreviation XSAN_ERROR_THREAD_CONTEXT :: xsan_error where "XSAN_ERROR_THREAD_CONTEXT \<equiv> XSAN_CODE (-14)"
abbreviation XSAN_ERROR_NETWORK :: xsan_error where "XSAN_ERROR_NETWORK \<equiv> XSAN_CODE (-20)"
abbreviation XSAN_ERROR_NODE_UNREACHABLE :: xsan_error where "XSAN_ERROR_NODE_UNREACHABLE \<equiv> XSAN_CODE (-21)"
abbreviation XSAN_ERROR_CONNECTION_LOST :: xsan_error where "XSAN_ERROR_CONNECTION_LOST \<equiv> XSAN_CODE (-22)"
abbreviation XSAN_ERROR_CONNECTION_REFUSED :: xsan_error where "XSAN_ERROR_CONNECTION_REFUSED \<equiv> XSAN_CODE (-23)"
abbreviation XSAN_ERROR_ADDRESS_IN_USE :: xsan_error where "XSAN_ERROR_ADDRESS_IN_USE \<equiv> XSAN_CODE (-24)"
abbreviation XSAN_ERROR_NETWORK_DOWN :: xsan_error where "XSAN_ERROR_NETWORK_DOWN \<equiv> XSAN_CODE (-25)"
abbreviation XSAN_ERROR_HOST_UNREACHABLE :: xsan_error where "XSAN_ERROR_HOST_UNREACHABLE \<equiv> XSAN_CODE (-26)"
abbreviation XSAN_ERROR_STORAGE_GENERIC :: xsan_error where "XSAN_ERROR_STORAGE_GENERIC \<equiv> XSAN_CODE (-40)"
abbreviation XSAN_ERROR_DEVICE_FAILED :: xsan_error where "XSAN_ERROR_DEVICE_FAILED \<equiv> XSAN_CODE (-41)"
abbreviation XSAN_ERROR_DEVICE_NOT_FOUND :: xsan_error where "XSAN_ERROR_DEVICE_NOT_FOUND \<equiv> XSAN_CODE (-42)"
abbreviation XSAN_ERROR_VOLUME_NOT_FOUND :: xsan_error where "XSAN_ERROR_VOLUME_NOT_FOUND \<equiv> XSAN_CODE (-43)"
abbreviation XSAN_ERROR_VOLUME_EXISTS :: xsan_error where "XSAN_ERROR_VOLUME_EXISTS \<equiv> XSAN_CODE (-44)"
abbreviation XSAN_ERROR_VOLUME_BUSY :: xsan_error where "XSAN_ERROR_VOLUME_BUSY \<equiv> XSAN_CODE (-45)"
abbreviation XSAN_ERROR_BLOCK_NOT_FOUND :: xsan_error where "XSAN_ERROR_BLOCK_NOT_FOUND \<equiv> XSAN_CODE (-46)"
abbreviation XSAN_ERROR_BLOCK_CORRUPTED :: xsan_error where "XSAN_ERROR_BLOCK_CORRUPTED \<equiv> XSAN_CODE (-47)"
abbreviation XSAN_ERROR_DISK_FULL :: xsan_error where "XSAN_ERROR_DISK_FULL \<equiv> XSAN_CODE (-48)"
abbreviation XSAN_ERROR_INSUFFICIENT_SPACE :: xsan_error where "XSAN_ERROR_INSUFFICIENT_SPACE \<equiv> XSAN_CODE (-49)"
abbreviation XSAN_ERROR_STORAGE_IO :: xsan_error where "XSAN_ERROR_STORAGE_IO \<equiv> XSAN_CODE (-50)"
abbreviation XSAN_ERROR_CLUSTER_GENERIC :: xsan_error where "XSAN_ERROR_CLUSTER_GENERIC \<equiv> XSAN_CODE (-60)"
abbreviation XSAN_ERROR_NODE_NOT_FOUND :: xsan_error where "XSAN_ERROR_NODE_NOT_FOUND \<equiv> XSAN_CODE (-61)"
abbreviation XSAN_ERROR_NODE_EXISTS :: xsan_error where "XSAN_ERROR_NODE_EXISTS \<equiv> XSAN_CODE (-62)"
abbreviation XSAN_ERROR_SPLIT_BRAIN :: xsan_error where "XSAN_ERROR_SPLIT_BRAIN \<equiv> XSAN_CODE (-63)"
abbreviation XSAN_ERROR_QUORUM_LOST :: xsan_error where "XSAN_ERROR_QUORUM_LOST \<equiv> XSAN_CODE (-64)"
abbreviation XSAN_ERROR_CLUSTER_NOT_READY :: xsan_error where "XSAN_ERROR_CLUSTER_NOT_READY \<equiv> XSAN_CODE (-65)"
abbreviation XSAN_ERROR_INVALID_NODE_STATE :: xsan_error where "XSAN_ERROR_INVALID_NODE_STATE \<equiv> XSAN_CODE (-66)"
abbreviation XSAN_ERROR_REPLICATION_GENERIC :: xsan_error where "XSAN_ERROR_REPLICATION_GENERIC \<equiv> XSAN_CODE (-80)"
abbreviation XSAN_ERROR_REPLICA_NOT_FOUND :: xsan_error where "XSAN_ERROR_REPLICA_NOT_FOUND \<equiv> XSAN_CODE (-81)"
abbreviation XSAN_ERROR_REPLICA_OUTDATED :: xsan_error where "XSAN_ERROR_REPLICA_OUTDATED \<equiv> XSAN_CODE (-82)"
abbreviation XSAN_ERROR_SYNC_FAILED :: xsan_error where "XSAN_ERROR_SYNC_FAILED \<equiv> XSAN_CODE (-83)"
abbreviation XSAN_ERROR_CONSISTENCY_CHECK_FAILED :: xsan_error where "XSAN_ERROR_CONSISTENCY_CHECK_FAILED \<equiv> XSAN_CODE (-84)"
abbreviation XSAN_ERROR_RECOVERY_FAILED :: xsan_error where "XSAN_ERROR_RECOVERY_FAILED \<equiv> XSAN_CODE (-85)"
abbreviation XSAN_ERROR_NOT_ENOUGH_REPLICAS :: xsan_error where "XSAN_ERROR_NOT_ENOUGH_REPLICAS \<equiv> XSAN_CODE (-86)"
abbreviation XSAN_ERROR_POLICY_GENERIC :: xsan_error where "XSAN_ERROR_POLICY_GENERIC \<equiv> XSAN_CODE (-100)"
abbreviation XSAN_ERROR_POLICY_NOT_FOUND :: xsan_error where "XSAN_ERROR_POLICY_NOT_FOUND \<equiv> XSAN_CODE (-101)"
abbreviation XSAN_ERROR_POLICY_VIOLATION :: xsan_error where "XSAN_ERROR_POLICY_VIOLATION \<equiv> XSAN_CODE (-102)"
abbreviation XSAN_ERROR_QOS_LIMIT_EXCEEDED :: xsan_error where "XSAN_ERROR_QOS_LIMIT_EXCEEDED \<equiv> XSAN_CODE (-103)"
abbreviation XSAN_ERROR_VIRTUALIZATION_GENERIC :: xsan_error where "XSAN_ERROR_VIRTUALIZATION_GENERIC \<equiv> XSAN_CODE (-120)"
abbreviation XSAN_ERROR_LIBVIRT_FAILED :: xsan_error where "XSAN_ERROR_LIBVIRT_FAILED \<equiv> XSAN_CODE (-121)"
abbreviation XSAN_ERROR_VM_NOT_FOUND :: xsan_error where "XSAN_ERROR_VM_NOT_FOUND \<equiv> XSAN_CODE (-122)"
abbreviation XSAN_ERROR_STORAGE_POOL_FAILED :: xsan_error where "XSAN_ERROR_STORAGE_POOL_FAILED \<equiv> XSAN_CODE (-123)"
abbreviation XSAN_ERROR_CONFIG_GENERIC :: xsan_error where "XSAN_ERROR_CONFIG_GENERIC \<equiv> XSAN_CODE (-140)"
abbreviation XSAN_ERROR_CONFIG_INVALID :: xsan_error where "XSAN_ERROR_CONFIG_INVALID \<equiv> XSAN_CODE (-141)"
abbreviation XSAN_ERROR_CONFIG_MISSING :: xsan_error where "XSAN_ERROR_CONFIG_MISSING \<equiv> XSAN_CODE (-142)"
abbreviation XSAN_ERROR_CONFIG_PARSE :: xsan_error where "XSAN_ERROR_CONFIG_PARSE \<equiv> XSAN_CODE (-143)"
abbreviation XSAN_ERROR_METADATA_GENERIC :: xsan_error where "XSAN_ERROR_METADATA_GENERIC \<equiv> XSAN_CODE (-160)"
abbreviation XSAN_ERROR_METADATA_READ_FAILED :: xsan_error where "XSAN_ERROR_METADATA_READ_FAILED \<equiv> XSAN_CODE (-161)"
abbreviation XSAN_ERROR_METADATA_WRITE_FAILED :: xsan_error where "XSAN_ERROR_METADATA_WRITE_FAILED \<equiv> XSAN_CODE (-162)"
abbreviation XSAN_ERROR_METADATA_CORRUPTED :: xsan_error where "XSAN_ERROR_METADATA_CORRUPTED \<equiv> XSAN_CODE (-163)"
abbreviation XSAN_ERROR_TASK_GENERIC :: xsan_error where "XSAN_ERROR_TASK_GENERIC \<equiv> XSAN_CODE (-180)"
abbreviation XSAN_ERROR_TASK_NOT_FOUND :: xsan_error where "XSAN_ERROR_TASK_NOT_FOUND \<equiv> XSAN_CODE (-181)"
abbreviation XSAN_ERROR_TASK_FAILED :: xsan_error where "XSAN_ERROR_TASK_FAILED \<equiv> XSAN_CODE (-182)"
abbreviation XSAN_ERROR_TASK_CANCELLED :: xsan_error where "XSAN_ERROR_TASK_CANCELLED \<equiv> XSAN_CODE (-183)"
abbreviation XSAN_ERROR_SECURITY_GENERIC :: xsan_error where "XSAN_ERROR_SECURITY_GENERIC \<equiv> XSAN_CODE (-200)"
abbreviation XSAN_ERROR_AUTHENTICATION_FAILED :: xsan_error where "XSAN_ERROR_AUTHENTICATION_FAILED \<equiv> XSAN_CODE (-201)"
abbreviation XSAN_ERROR_AUTHORIZATION_FAILED :: xsan_error where "XSAN_ERROR_AUTHORIZATION_FAILED \<equiv> XSAN_CODE (-202)"
abbreviation XSAN_ERROR_ENCRYPTION_FAILED :: xsan_error where "XSAN_ERROR_ENCRYPTION_FAILED \<equiv> XSAN_CODE (-203)"
abbreviation XSAN_ERROR_DECRYPTION_FAILED :: xsan_error where "XSAN_ERROR_DECRYPTION_FAILED \<equiv> XSAN_CODE (-204)"

section \<open>Messages: \<^verbatim>\<open>initialize_error_messages\<close> and \<^verbatim>\<open>xsan_error_string\<close>\<close>

definition ERROR_MESSAGES_ARRAY_SIZE :: nat where
  "ERROR_MESSAGES_ARRAY_SIZE = 1 + 224"

text \<open>The value of a code; the names without a definition have none.\<close>

fun error_value :: "xsan_error \<Rightarrow> int option" where
  "error_value (XSAN_CODE n) = Some n"
| "error_value _ = None"

text \<open>The assignments \<^verbatim>\<open>error_messages[abs(code)] = text\<close>, in the order of the source.\<close>

definition error_message_assignments :: "(xsan_error \<times> string) list" where
  "error_message_assignments =
    [(XSAN_OK, ''Success''),
     (XSAN_ERROR_GENERIC, ''Generic error''),
     (XSAN_ERROR_INVALID_PARAM, ''Invalid parameter''),
     (XSAN_ERROR_NO_MEMORY, ''Out of memory''),
     (XSAN_ERROR_IO, ''I/O error''),
     (XSAN_ERROR_NETWORK, ''Network error''),
     (XSAN_ERROR_NOT_FOUND, ''Not found''),
     (XSAN_ERROR_TIMEOUT, ''Operation timed out''),
     (XSAN_ERROR_UNSUPPORTED, ''Feature or function not implemented''),
     (XSAN_ERROR_SYSTEM, ''System error''),
     (XSAN_ERROR_PERMISSION_DENIED, ''Permission denied''),
     (XSAN_ERROR_BUSY, ''Resource busy''),
     (XSAN_ERROR_INTERRUPTED, ''Operation interrupted''),
     (XSAN_ERROR_ALREADY_EXISTS, ''Item or resource already exists''),
     (XSAN_ERROR_NOT_INITIALIZED, ''Resource or module not initialized''),
     (XSAN_ERROR_STORAGE_GENERIC, ''Storage error''),
     (XSAN_ERROR_DEVICE_FAILED, ''Device failed''),
     (XSAN_ERROR_DEVICE_NOT_FOUND, ''Device not found''),
     (XSAN_ERROR_VOLUME_NOT_FOUND, ''Volume not found''),
     (XSAN_ERROR_VOLUME_EXISTS, ''Volume exists''),
     (XSAN_ERROR_VOLUME_BUSY, ''Volume busy''),
     (XSAN_ERROR_BLOCK_NOT_FOUND, ''Block not found''),
     (XSAN_ERROR_BLOCK_CORRUPTED, ''Block corrupted''),
     (XSAN_ERROR_REPLICATION_GENERIC, ''Replication error''),
     (XSAN_ERROR_REPLICA_NOT_FOUND, ''Replica not found''),
     (XSAN_ERROR_REPLICA_OUTDATED, ''Replica outdated''),
     (XSAN_ERROR_SYNC_FAILED, ''Synchronization failed''),
     (XSAN_ERROR_CONSISTENCY_CHECK_FAILED, ''Consistency check failed''),
     (XSAN_ERROR_RECOVERY_FAILED, ''Recovery failed''),
     (XSAN_ERROR_NOT_ENOUGH_REPLICAS, ''Not enough replicas''),
     (XSAN_ERROR_POLICY_GENERIC, ''Policy error''),
     (XSAN_ERROR_POLICY_NOT_FOUND, ''Policy not found''),
     (XSAN_ERROR_POLICY_VIOLATION, ''Policy violation''),
     (XSAN_ERROR_QOS_LIMIT_EXCEEDED, ''QoS limit exceeded''),
     (XSAN_ERROR_VIRTUALIZATION_GENERIC, ''Virtualization error''),
     (XSAN_ERROR_LIBVIRT_FAILED, ''libvirt operation failed''),
     (XSAN_ERROR_VM_NOT_FOUND, ''Virtual machine not found''),
     (XSAN_ERROR_STORAGE_POOL_FAILED, ''Storage pool operation failed''),
     (XSAN_ERROR_CONFIG_GENERIC, ''Configuration error''),
     (XSAN_ERROR_CONFIG_INVALID, ''Invalid configuration''),
     (XSAN_ERROR_CONFIG_MISSING, ''Missing configuration''),
     (XSAN_ERROR_CONFIG_PARSE, ''Configuration parse error''),
     (XSAN_ERROR_METADATA_GENERIC, ''Metadata error''),
     (XSAN_ERROR_METADATA_READ_FAILED, ''Metadata read failed''),
     (XSAN_ERROR_METADATA_WRITE_FAILED, ''Metadata write failed''),
     (XSAN_ERROR_METADATA_CORRUPTED, ''Metadata corrupted''),
     (XSAN_ERROR_TASK_GENERIC, ''Task/Job error''),
     (XSAN_ERROR_TASK_NOT_FOUND, ''Task/Job not found''),
     (XSAN_ERROR_TASK_FAILED, ''Task/Job failed''),
     (XSAN_ERROR_TASK_CANCELLED, ''Task/Job cancelled''),
     (XSAN_ERROR_SECURITY_GENERIC, ''Security error''),
     (XSAN_ERROR_AUTHENTICATION_FAILED, ''Authentication failed''),
     (XSAN_ERROR_AUTHORIZATION_FAILED, ''Authorization failed''),
     (XSAN_ERROR_ENCRYPTION_FAILED, ''Encryption failed''),
     (XSAN_ERROR_DECRYPTION_FAILED, ''Decryption failed''),
     (XSAN_ERROR_THREAD_CONTEXT, ''Operation called from an incorrect thread context'')]"

fun assign_messages :: "(xsan_error \<times> string) list \<Rightarrow> string option list \<Rightarrow> string option list" where
  "assign_messages [] tab = tab"
| "assign_messages ((e, msg) # rest) tab =
     assign_messages rest
       (case error_value e of None \<Rightarrow> tab | Some n \<Rightarrow> tab[nat \<bar>n\<bar> := Some msg])"

definition initialize_error_messages :: "string option list" where
  "initialize_error_messages =
     assign_messages error_message_assignments (replicate ERROR_MESSAGES_ARRAY_SIZE None)"

definition xsan_error_string :: "xsan_error \<Rightarrow> string" where
  "xsan_error_string e =
     (if e = XSAN_OK then
        (case initialize_error_messages ! 0 of Some m \<Rightarrow> m | None \<Rightarrow> [])
      else case error_value e of
        None \<Rightarrow> ''Unknown error''
      | Some n \<Rightarrow>
          (let index = - n in
           if 0 < index \<and> index < int ERROR_MESSAGES_ARRAY_SIZE then
             (case initialize_error_messages ! nat index of
                Some m \<Rightarrow> m | None \<Rightarrow> ''Unknown error'')
           else ''Unknown error''))"

section \<open>System errors: \<^verbatim>\<open>xsan_error_from_errno\<close>\<close>

text \<open>The \<^verbatim>\<open>errno\<close> constants of Linux that the switch names.\<close>

abbreviation (input) EPERM :: int where "EPERM \<equiv> 1"
abbreviation (input) ENOENT :: int where "ENOENT \<equiv> 2"
abbreviation (input) EINTR :: int where "EINTR \<equiv> 4"
abbreviation (input) EIO :: int where "EIO \<equiv> 5"
abbreviation (input) ENOMEM :: int where "ENOMEM \<equiv> 12"
abbreviation (input) EACCES :: int where "EACCES \<equiv> 13"
abbreviation (input) EBUSY :: int where "EBUSY \<equiv> 16"
abbreviation (input) EEXIST :: int where "EEXIST \<equiv> 17"
abbreviation (input) EINVAL :: int where "EINVAL \<equiv> 22"
abbreviation (input) ENOSPC :: int where "ENOSPC \<equiv> 28"
abbreviation (input) EADDRINUSE :: int where "EADDRINUSE \<equiv> 98"
abbreviation (input) ENETDOWN :: int where "ENETDOWN \<equiv> 100"
abbreviation (input) ENETUNREACH :: int where "ENETUNREACH \<equiv> 101"
abbreviation (input) ECONNABORTED :: int where "ECONNABORTED \<equiv> 103"
abbreviation (input) ECONNRESET :: int where "ECONNRESET \<equiv> 104"
abbreviation (input) ETIMEDOUT :: int where "ETIMEDOUT \<equiv> 110"
abbreviation (input) ECONNREFUSED :: int where "ECONNREFUSED \<equiv> 111"
abbreviation (input) EHOSTUNREACH :: int where "EHOSTUNREACH \<equiv> 113"

definition xsan_error_from_errno :: "int \<Rightarrow> xsan_error" where
  "xsan_error_from_errno sys_errno =
     (if sys_errno = 0 then XSAN_OK
      else if sys_errno = EINVAL then XSAN_ERROR_INVALID_PARAM
      else if sys_errno = ENOMEM then XSAN_ERROR_NO_MEMORY
      else if sys_errno = ENOENT then XSAN_ERROR_NOT_FOUND
      else if sys_errno = EEXIST then XSAN_ERROR_ALREADY_EXISTS
      else if sys_errno = EACCES \<or> sys_errno = EPERM then XSAN_ERROR_PERMISSION_DENIED
      else if sys_errno = EBUSY then XSAN_ERROR_BUSY
      else if sys_errno = ETIMEDOUT then XSAN_ERROR_TIMEOUT
      else if sys_errno = EINTR then XSAN_ERROR_INTERRUPTED
      else if sys_errno = EIO then XSAN_ERROR_IO
      else if sys_errno = ENOSPC then XSAN_ERROR_DISK_FULL
      else if sys_errno = ECONNRESET then XSAN_ERROR_CONNECTION_LOST
      else if sys_errno = ECONNREFUSED then XSAN_ERROR_CONNECTION_REFUSED
      else if sys_errno = ECONNABORTED then XSAN_ERROR_CONNECTION_LOST
      else if sys_errno = EADDRINUSE then XSAN_ERROR_ADDRESS_IN_USE
      else if sys_errno = ENETDOWN then XSAN_ERROR_NETWORK_DOWN
      else if sys_errno = ENETUNREACH \<or> sys_errno = EHOSTUNREACH then XSAN_ERROR_HOST_UNREACHABLE
      else XSAN_ERROR_SYSTEM)"

section \<open>Classification\<close>

definition xsan_error_to_http_status :: "xsan_error \<Rightarrow> int" where
  "xsan_error_to_http_status e =
     (if e \<in> {XSAN_OK} then 200
      else if e \<in> {XSAN_ERROR_INVALID_PARAM, XSAN_ERROR_CONFIG_INVALID, XSAN_ERROR_CONFIG_PARSE} then 400
      else if e \<in> {XSAN_ERROR_PERMISSION_DENIED, XSAN_ERROR_AUTHORIZATION_FAILED} then 403
      else if e \<in> {XSAN_ERROR_AUTHENTICATION_FAILED} then 401
      else if e \<in> {XSAN_ERROR_NOT_FOUND, XSAN_ERROR_VOLUME_NOT_FOUND, XSAN_ERROR_NODE_NOT_FOUND, XSAN_ERROR_REPLICA_NOT_FOUND, XSAN_ERROR_POLICY_NOT_FOUND, XSAN_ERROR_VM_NOT_FOUND, XSAN_ERROR_TASK_NOT_FOUND, XSAN_ERROR_DEVICE_NOT_FOUND} then 404
      else if e \<in> {XSAN_ERROR_ALREADY_EXISTS, XSAN_ERROR_VOLUME_EXISTS, XSAN_ERROR_NODE_EXISTS} then 409
      else if e \<in> {XSAN_ERROR_TIMEOUT} then 408
      else if e \<in> {XSAN_ERROR_BUSY, XSAN_ERROR_VOLUME_BUSY} then 423
      else if e \<in> {XSAN_ERROR_INSUFFICIENT_SPACE, XSAN_ERROR_DISK_FULL} then 507
      else if e \<in> {XSAN_ERROR_NO_MEMORY, XSAN_ERROR_GENERIC, XSAN_ERROR_IO, XSAN_ERROR_SYSTEM, XSAN_ERROR_BLOCK_CORRUPTED, XSAN_ERROR_METADATA_CORRUPTED} then 500
      else if e \<in> {XSAN_ERROR_UNSUPPORTED} then 501
      else if e \<in> {XSAN_ERROR_CLUSTER_NOT_READY, XSAN_ERROR_NODE_UNREACHABLE, XSAN_ERROR_QUORUM_LOST, XSAN_ERROR_NETWORK} then 503
      else 500)"

text \<open>The test \<^verbatim>\<open>error >= lo && error <= hi\<close> on the numbers.\<close>

definition code_between :: "xsan_error \<Rightarrow> xsan_error \<Rightarrow> xsan_error \<Rightarrow> bool" where
  "code_between lo hi e =
     (case (error_value lo, error_value hi, error_value e) of
        (Some l, Some h, Some n) \<Rightarrow> l \<le> n \<and> n \<le> h
      | _ \<Rightarrow> False)"

definition xsan_error_category_string :: "xsan_error \<Rightarrow> string" where
  "xsan_error_category_string e =
     (if e = XSAN_OK then ''Success''
      else if code_between XSAN_ERROR_ALREADY_EXISTS XSAN_ERROR_GENERIC e then ''Generic''
      else if code_between XSAN_ERROR_INVALID_PARAM XSAN_ERROR_HOST_UNREACHABLE e then ''File System & Disk''
      else if code_between XSAN_ERROR_NETWORK_DOWN XSAN_ERROR_CONNECTION_LOST e then ''Network''
      else if code_between XSAN_ERROR_INVALID_NODE_STATE XSAN_ERROR_CLUSTER_GENERIC e then ''Cluster''
      else if code_between XSAN_ERROR_BLOCK_CORRUPTED XSAN_ERROR_STORAGE_GENERIC e then ''Storage & Device''
      else if code_between XSAN_ERROR_NOT_ENOUGH_REPLICAS XSAN_ERROR_REPLICATION_GENERIC e then ''Replication''
      else if code_between XSAN_ERROR_QOS_LIMIT_EXCEEDED XSAN_ERROR_POLICY_GENERIC e then ''Policy''
      else if code_between XSAN_ERROR_STORAGE_POOL_FAILED XSAN_ERROR_VIRTUALIZATION_GENERIC e then ''Virtualization''
      else if code_between XSAN_ERROR_CONFIG_PARSE XSAN_ERROR_CONFIG_GENERIC e then ''Configuration''
      else if code_between XSAN_ERROR_METADATA_CORRUPTED XSAN_ERROR_METADATA_GENERIC e then ''Metadata''
      else if code_between XSAN_ERROR_TASK_CANCELLED XSAN_ERROR_TASK_GENERIC e then ''Task/Job''
      else if code_between XSAN_ERROR_DECRYPTION_FAILED XSAN_ERROR_SECURITY_GENERIC e then ''Security''
      else ''Unknown Category'')"

definition xsan_error_is_recoverable :: "xsan_error \<Rightarrow> bool" where
  "xsan_error_is_recoverable e \<longleftrightarrow> e \<in> {XSAN_ERROR_TIMEOUT,
     XSAN_ERROR_INTERRUPTED,
     XSAN_ERROR_BUSY,
     XSAN_ERROR_VOLUME_BUSY,
     XSAN_ERROR_CONNECTION_LOST,
     XSAN_ERROR_CONNECTION_REFUSED,
     XSAN_ERROR_HOST_UNREACHABLE,
     XSAN_ERROR_NETWORK_DOWN,
     XSAN_ERROR_NODE_UNREACHABLE,
     XSAN_ERROR_SYNC_FAILED,
     XSAN_ERROR_CLUSTER_NOT_READY}"

definition xsan_error_is_fatal :: "xsan_error \<Rightarrow> bool" where
  "xsan_error_is_fatal e \<longleftrightarrow> e \<in> {XSAN_ERROR_NO_MEMORY,
     XSAN_ERROR_BLOCK_CORRUPTED,
     XSAN_ERROR_METADATA_CORRUPTED,
     XSAN_ERROR_DEVICE_FAILED,
     XSAN_ERROR_SPLIT_BRAIN,
     XSAN_ERROR_QUORUM_LOST,
     XSAN_ERROR_RECOVERY_FAILED,
     XSAN_ERROR_DISK_FULL,
     XSAN_ERROR_SYSTEM}"

section \<open>Facts about the codes\<close>

subsection \<open>The message table\<close>

lemma length_assign_messages [simp]: "length (assign_messages l tab) = length tab"
  by (induction l tab rule: assign_messages.induct) (auto split: option.splits)

text \<open>The slots an assignment list writes; a later entry wins over an earlier one.\<close>

definition message_slots :: "(xsan_error \<times> string) list \<Rightarrow> (nat \<times> string) list" where
  "message_slots l =
     List.map_filter (\<lambda>(e, m). map_option (\<lambda>n. (nat \<bar>n\<bar>, m)) (error_value e)) l"

lemma message_slots_simps [simp]:
  "message_slots [] = []"
  "message_slots ((XSAN_CODE n, m) # l) = (nat \<bar>n\<bar>, m) # message_slots l"
  "error_value e = None \<Longrightarrow> message_slots ((e, m) # l) = message_slots l"
  by (simp_all add: message_slots_def)

lemma assign_messages_nth:
  assumes "i < length tab"
  shows "assign_messages l tab ! i =
    (case map_of (rev (message_slots l)) i of Some m \<Rightarrow> Some m | None \<Rightarrow> tab ! i)"
  using assms
proof (induction l tab rule: assign_messages.induct)
  case (2 e msg rest tab)
  show ?case
  proof (cases "error_value e")
    case None
    with 2 show ?thesis by (simp cong: option.case_cong)
  next
    case (Some n)
    then have e: "e = XSAN_CODE n" by (cases e) auto
    show ?thesis
      using 2 by (cases "i = nat \<bar>n\<bar>") (auto simp: e map_add_def split: option.splits)
  qed
qed simp

lemma message_slots_distinct: "distinct (map fst (message_slots error_message_assignments))"
  by (simp add: error_message_assignments_def)

lemma message_table_nth:
  assumes "i < ERROR_MESSAGES_ARRAY_SIZE"
  shows "initialize_error_messages ! i = map_of (message_slots error_message_assignments) i"
  using assms message_slots_distinct
  by (simp add: initialize_error_messages_def assign_messages_nth map_of_rev_distinct split: option.splits)

lemma map_of_message_slots:
  assumes "n \<le> 0"
    and "list_all (\<lambda>(e, m). \<exists>k. e = XSAN_CODE k \<and> k \<le> 0) l"
  shows "map_of (message_slots l) (nat (- n)) = map_of l (XSAN_CODE n)"
  using assms(2)
proof (induction l)
  case (Cons a l)
  then obtain k m where "a = (XSAN_CODE k, m)" "k \<le> 0" by (auto split: prod.splits)
  with Cons assms(1) show ?case by auto
qed simp

lemma assigned_codes_nonpositive:
  "list_all (\<lambda>(e, m). \<exists>k. e = XSAN_CODE k \<and> k \<le> 0) error_message_assignments"
  "list_all (\<lambda>(e, m). \<exists>k. e = XSAN_CODE k \<and> - 225 < k) error_message_assignments"
  by (simp_all add: error_message_assignments_def)

lemma map_of_assigned_range:
  "map_of error_message_assignments (XSAN_CODE n) = Some m \<Longrightarrow> n \<le> 0 \<and> - 225 < n"
  using assigned_codes_nonpositive by (fastforce dest: map_of_SomeD simp: list_all_iff)

lemma success_message: "map_of error_message_assignments XSAN_OK = Some ''Success''"
  by (simp add: error_message_assignments_def)

text \<open>\<^verbatim>\<open>xsan_error_string\<close> answers every integer: a code that the
  initialisation gives a text prints that text and no other, and every other integer
  (positive, out of the array, or a slot never assigned) prints ``Unknown error''.\<close>

theorem xsan_error_string_spec:
  "xsan_error_string (XSAN_CODE n) =
     (case map_of error_message_assignments (XSAN_CODE n) of
        Some msg \<Rightarrow> msg | None \<Rightarrow> ''Unknown error'')"
proof (cases "n \<le> 0 \<and> - 225 < n")
  case True
  have "initialize_error_messages ! nat (- n) = map_of error_message_assignments (XSAN_CODE n)"
    using True message_table_nth [of "nat (- n)"]
      map_of_message_slots [OF _ assigned_codes_nonpositive(1), of n]
    by (auto simp: ERROR_MESSAGES_ARRAY_SIZE_def nat_less_iff)
  with True success_message show ?thesis
    by (auto simp: xsan_error_string_def ERROR_MESSAGES_ARRAY_SIZE_def Let_def)
next
  case False
  then have "map_of error_message_assignments (XSAN_CODE n) = None"
    using map_of_assigned_range by (cases "map_of error_message_assignments (XSAN_CODE n)") auto
  with False show ?thesis
    by (auto simp: xsan_error_string_def ERROR_MESSAGES_ARRAY_SIZE_def Let_def)
qed

subsection \<open>Classification\<close>

lemma xsan_error_from_errno_OK_iff [simp]: "xsan_error_from_errno n = XSAN_OK \<longleftrightarrow> n = 0"
  by (simp add: xsan_error_from_errno_def)

lemma recoverable_not_fatal: "xsan_error_is_recoverable e \<Longrightarrow> \<not> xsan_error_is_fatal e"
  by (auto simp: xsan_error_is_recoverable_def xsan_error_is_fatal_def)

lemma http_status_OK_iff: "xsan_error_to_http_status e = 200 \<longleftrightarrow> e = XSAN_OK"
  by (simp add: xsan_error_to_http_status_def)

lemma http_status_range:
  "xsan_error_to_http_status e \<in> {200} \<union> {400..<600}"
  by (simp add: xsan_error_to_http_status_def)

text \<open>an \<^verbatim>\<open>errno\<close> other than 0 never becomes success, in the code or
  in the HTTP status; no code is both recoverable and fatal; and what a system call can report
  as a transient failure is recoverable while every unknown \<^verbatim>\<open>errno\<close> is fatal.\<close>

theorem errno_classification:
  "(xsan_error_to_http_status (xsan_error_from_errno n) = 200 \<longleftrightarrow> n = 0) \<and>
   \<not> (xsan_error_is_recoverable e \<and> xsan_error_is_fatal e) \<and>
   (xsan_error_is_recoverable (xsan_error_from_errno n) \<longleftrightarrow>
      n \<in> {EBUSY, ETIMEDOUT, EINTR, ECONNRESET, ECONNREFUSED, ECONNABORTED,
            ENETDOWN, ENETUNREACH, EHOSTUNREACH}) \<and>
   (xsan_error_is_fatal (xsan_error_from_errno n) \<longleftrightarrow>
      n \<notin> {0, EINVAL, ENOENT, EEXIST, EACCES, EPERM, EBUSY, ETIMEDOUT, EINTR, EIO,
            ECONNRESET, ECONNREFUSED, ECONNABORTED, EADDRINUSE, ENETDOWN,
            ENETUNREACH, EHOSTUNREACH})"
  using recoverable_not_fatal
  by (auto simp: http_status_OK_iff)
    (auto simp: xsan_error_from_errno_def xsan_error_is_recoverable_def xsan_error_is_fatal_def
       split: if_splits)

text \<open>The category ranges of the source do not agree with the numbers of the header: the range
  tested for ``File System \& Disk'' is empty, since its lower bound is the larger number.\<close>

lemma file_system_range_empty:
  "\<not> code_between XSAN_ERROR_INVALID_PARAM XSAN_ERROR_HOST_UNREACHABLE e"
  by (auto simp: code_between_def split: option.splits)

lemma no_memory_has_no_category:
  "xsan_error_category_string XSAN_ERROR_NO_MEMORY = ''Unknown Category''"
  by (simp add: xsan_error_category_string_def code_between_def)

end
