(* ===== verification/Interfaces.thy ===== *)
theory Interfaces
  imports Errors "HOL-Library.Multiset"
begin

text \<open>
  The contracts between the components, as locales. Each fixes the operations that a client
  calls and assumes the laws that the provider promises; the lemmas a client needs are proved
  here once. The component theories interpret the locales on the definitions that model the
  source.
\<close>

section \<open>Sequences of operations\<close>

text \<open>Running a list of operations against a state, collecting what each of them returns.\<close>

fun run_ops :: "('s \<Rightarrow> 'op \<Rightarrow> 'out \<times> 's) \<Rightarrow> 's \<Rightarrow> 'op list \<Rightarrow> 'out list \<times> 's" where
  "run_ops step s [] = ([], s)"
| "run_ops step s (x # xs) =
     (let (r, s') = step s x; (rs, s'') = run_ops step s' xs in (r # rs, s''))"

lemma run_ops_append:
  "run_ops step s (xs @ ys) =
     (let (rs, s') = run_ops step s xs; (rs', s'') = run_ops step s' ys in (rs @ rs', s''))"
  by (induction xs arbitrary: s) (auto simp: Let_def split: prod.splits)

text \<open>A detailed machine that refines an abstract one through a function and an invariant.\<close>

locale simulation =
  fixes abs :: "'c \<Rightarrow> 'a"
    and inv :: "'c \<Rightarrow> bool"
    and cstep :: "'c \<Rightarrow> 'op \<Rightarrow> 'out \<times> 'c"
    and astep :: "'a \<Rightarrow> 'op \<Rightarrow> 'out \<times> 'a"
  assumes step_inv: "inv c \<Longrightarrow> inv (snd (cstep c x))"
    and step_out: "inv c \<Longrightarrow> fst (cstep c x) = fst (astep (abs c) x)"
    and step_abs: "inv c \<Longrightarrow> abs (snd (cstep c x)) = snd (astep (abs c) x)"
begin

lemma run_inv: "inv c \<Longrightarrow> inv (snd (run_ops cstep c xs))"
proof (induction xs arbitrary: c)
  case (Cons x xs)
  then show ?case
    using step_inv [of c x] by (auto simp: Let_def split: prod.splits) (metis snd_conv)
qed simp

lemma run_simulates:
  "inv c \<Longrightarrow> fst (run_ops cstep c xs) = fst (run_ops astep (abs c) xs) \<and>
     abs (snd (run_ops cstep c xs)) = snd (run_ops astep (abs c) xs)"
proof (induction xs arbitrary: c)
  case (Cons x xs)
  obtain r c' where c: "cstep c x = (r, c')" by (cases "cstep c x")
  have "inv c'" "astep (abs c) x = (r, abs c')"
    using step_inv step_out step_abs Cons.prems c by (metis fst_conv snd_conv prod.collapse)+
  with Cons.IH [of c'] c show ?case by (auto simp: Let_def split: prod.splits)
qed simp

end

section \<open>Bounded queues\<close>

datatype 'v queue_op = Push 'v | Pop | Peek | Clear

text \<open>The queue that a bounded first-in first-out buffer stands for: a list of at most
  \<open>cap\<close> values. A full push and an empty pop or peek fail with the code given and change
  nothing.\<close>

fun queue_step ::
  "nat \<Rightarrow> 'v list \<Rightarrow> 'v queue_op \<Rightarrow> (xsan_error \<times> 'v option) \<times> 'v list" where
  "queue_step cap q (Push v) =
     (if length q = cap then ((XSAN_ERROR_INSUFFICIENT_SPACE, None), q)
      else ((XSAN_OK, None), q @ [v]))"
| "queue_step cap q Pop =
     (case q of [] \<Rightarrow> ((XSAN_ERROR_NOT_FOUND, None), [])
      | v # q' \<Rightarrow> ((XSAN_OK, Some v), q'))"
| "queue_step cap q Peek =
     (case q of [] \<Rightarrow> ((XSAN_ERROR_NOT_FOUND, None), [])
      | v # q' \<Rightarrow> ((XSAN_OK, Some v), q))"
| "queue_step cap q Clear = ((XSAN_OK, None), [])"

lemma queue_step_bounded:
  "length q \<le> cap \<Longrightarrow> length (snd (queue_step cap q x)) \<le> cap"
  by (cases x) (auto split: list.splits)

lemma queue_run_push:
  "length q + length vs \<le> cap \<Longrightarrow>
     run_ops (queue_step cap) q (map Push vs) = (replicate (length vs) (XSAN_OK, None), q @ vs)"
  by (induction vs arbitrary: q) (auto simp: Let_def)

lemma queue_run_pop:
  "run_ops (queue_step cap) (vs @ q) (replicate (length vs) Pop) =
     (map (\<lambda>v. (XSAN_OK, Some v)) vs, q)"
  by (induction vs) (auto simp: Let_def)

text \<open>The queue that carries its bound.\<close>

definition bounded_queue_step ::
  "nat \<times> 'v list \<Rightarrow> 'v queue_op \<Rightarrow> (xsan_error \<times> 'v option) \<times> nat \<times> 'v list" where
  "bounded_queue_step cq x =
     (let (out, q') = queue_step (fst cq) (snd cq) x in (out, fst cq, q'))"

lemma bounded_queue_run:
  "run_ops bounded_queue_step (cap, q) xs =
     (let (rs, q') = run_ops (queue_step cap) q xs in (rs, cap, q'))"
  by (induction xs arbitrary: q) (auto simp: bounded_queue_step_def Let_def split: prod.splits)

section \<open>Keyed tables\<close>

text \<open>What a table of keys and values promises: a lookup finds what was last put under the
  key, other keys are not touched, and a removed key is gone.\<close>

locale keyed_table =
  fixes inv :: "'t \<Rightarrow> bool"
    and get :: "'t \<Rightarrow> 'k \<Rightarrow> 'v option"
    and put :: "'t \<Rightarrow> 'k \<Rightarrow> 'v \<Rightarrow> 't"
    and del :: "'t \<Rightarrow> 'k \<Rightarrow> 't"
  assumes put_inv: "inv t \<Longrightarrow> inv (put t k v)"
    and del_inv: "inv t \<Longrightarrow> inv (del t k)"
    and get_put: "inv t \<Longrightarrow> get (put t k v) k' = (if k' = k then Some v else get t k')"
    and get_del: "inv t \<Longrightarrow> get (del t k) k' = (if k' = k then None else get t k')"
begin

lemma get_fun_put: "inv t \<Longrightarrow> get (put t k v) = (get t)(k \<mapsto> v)"
  by (rule ext) (simp add: get_put)

lemma get_fun_del: "inv t \<Longrightarrow> get (del t k) = (get t)(k := None)"
  by (rule ext) (simp add: get_del)

lemma fold_put_inv: "inv t \<Longrightarrow> inv (fold (\<lambda>(k, v) t. put t k v) kvs t)"
  by (induction kvs arbitrary: t) (auto simp: put_inv)

text \<open>Putting a list of bindings, the later ones over the earlier ones.\<close>

lemma get_fold_put:
  "inv t \<Longrightarrow> get (fold (\<lambda>(k, v) t. put t k v) kvs t) = get t ++ map_of (rev kvs)"
proof (induction kvs arbitrary: t)
  case (Cons a kvs)
  then show ?case
    by (cases a) (auto simp: put_inv get_fun_put map_add_def fun_eq_iff split: option.splits)
qed simp

end

section \<open>Outcomes\<close>

text \<open>A call returns a value, or the thread locks a mutex that it holds already and never goes on, or an
  array is accessed outside its bounds, after which C promises nothing.\<close>

datatype 'a run = Done 'a | Deadlock | Bad_access

primrec bind_run :: "'a run \<Rightarrow> ('a \<Rightarrow> 'b run) \<Rightarrow> 'b run" where
  "bind_run (Done a) f = f a"
| "bind_run Deadlock f = Deadlock"
| "bind_run Bad_access f = Bad_access"

lemma bind_run_return [simp]: "bind_run m Done = m"
  by (cases m) simp_all

lemma bind_run_Done: "bind_run r f = Done b \<longleftrightarrow> (\<exists>a. r = Done a \<and> f a = Done b)"
  by (cases r) auto

section \<open>Resources\<close>

text \<open>The calls that take and give back what a library hands out (a handle, a buffer, a channel), and the
  resources held after a sequence of them; giving back one that is not held has no result.\<close>

datatype 'r resource_call = Take 'r | Give 'r

fun held :: "'r multiset \<Rightarrow> 'r resource_call list \<Rightarrow> 'r multiset option" where
  "held M [] = Some M"
| "held M (Take r # cs) = held (add_mset r M) cs"
| "held M (Give r # cs) = (if r \<in># M then held (M - {#r#}) cs else None)"

lemma held_append: "held M (cs @ ds) = (case held M cs of None \<Rightarrow> None | Some N \<Rightarrow> held N ds)"
proof (induction cs arbitrary: M)
  case (Cons c cs)
  then show ?case by (cases c) simp_all
qed simp

section \<open>Codecs\<close>

text \<open>An encoder with a decoder that inverts it on the well-formed values and that
  accepts nothing but encodings.\<close>

locale codec =
  fixes wf :: "'a \<Rightarrow> bool"
    and enc :: "'a \<Rightarrow> 'b"
    and dec :: "'b \<Rightarrow> 'a option"
  assumes dec_enc: "wf a \<Longrightarrow> dec (enc a) = Some a"
begin

lemma enc_inj: "wf a \<Longrightarrow> wf b \<Longrightarrow> enc a = enc b \<Longrightarrow> a = b"
  by (metis dec_enc option.inject)

lemma dec_map_enc: "\<forall>a\<in>set as. wf a \<Longrightarrow> those (map (dec \<circ> enc) as) = Some as"
  by (induction as) (auto simp: dec_enc)

end

end
