(* ===== verification/RingBuffer.thy ===== *)
theory RingBuffer
  imports Interfaces
begin

text \<open>
  src/common/ring\_buffer.c: the circular buffer of pointers. The record is the C structure;
  a stored \<^verbatim>\<open>void *\<close> is a value of type \<^typ>\<open>'a ptr\<close>, the destructor is present or not,
  and an operation that calls it returns the values it was called on, in the order of the calls.
\<close>

record 'a xsan_ring_buffer =
  buffer :: "'a ptr list"
  capacity :: nat
  count :: nat
  head :: nat
  tail :: nat
  value_destroy_func :: bool

text \<open>The two allocations are parameters: \<open>malloc_ok\<close> for the structure and \<open>calloc_ok\<close> for
  the array, which \<^verbatim>\<open>calloc\<close> fills with null pointers.\<close>

definition xsan_ring_buffer_create ::
  "bool \<Rightarrow> bool \<Rightarrow> nat \<Rightarrow> bool \<Rightarrow> 'a xsan_ring_buffer ptr" where
  "xsan_ring_buffer_create malloc_ok calloc_ok cap destroy =
     (if cap = 0 then NULL
      else if \<not> malloc_ok then NULL
      else if \<not> calloc_ok then NULL
      else Some \<lparr>buffer = replicate cap NULL, capacity = cap, count = 0, head = 0, tail = 0,
                 value_destroy_func = destroy\<rparr>)"

definition xsan_ring_buffer_push ::
  "'a xsan_ring_buffer ptr \<Rightarrow> 'a ptr \<Rightarrow> xsan_error \<times> 'a xsan_ring_buffer ptr" where
  "xsan_ring_buffer_push rb value =
     (case rb of
        NULL \<Rightarrow> (XSAN_ERROR_INVALID_PARAM, NULL)
      | Some r \<Rightarrow>
          if count r = capacity r then (XSAN_ERROR_INSUFFICIENT_SPACE, Some r)
          else (XSAN_OK, Some (r\<lparr>buffer := (buffer r)[tail r := value],
                               tail := (tail r + 1) mod capacity r,
                               count := count r + 1\<rparr>)))"

text \<open>\<open>out\<close> says whether the caller passed a place for the value; the value stored there is the
  second component of the result.\<close>

definition xsan_ring_buffer_pop ::
  "'a xsan_ring_buffer ptr \<Rightarrow> bool \<Rightarrow> (xsan_error \<times> 'a ptr option) \<times> 'a xsan_ring_buffer ptr"
  where
  "xsan_ring_buffer_pop rb out =
     (case rb of
        NULL \<Rightarrow> ((XSAN_ERROR_INVALID_PARAM, None), NULL)
      | Some r \<Rightarrow>
          if \<not> out then ((XSAN_ERROR_INVALID_PARAM, None), Some r)
          else if count r = 0 then ((XSAN_ERROR_NOT_FOUND, None), Some r)
          else ((XSAN_OK, Some (buffer r ! head r)),
                Some (r\<lparr>head := (head r + 1) mod capacity r, count := count r - 1\<rparr>)))"

definition xsan_ring_buffer_peek ::
  "'a xsan_ring_buffer ptr \<Rightarrow> bool \<Rightarrow> xsan_error \<times> 'a ptr option" where
  "xsan_ring_buffer_peek rb out =
     (case rb of
        NULL \<Rightarrow> (XSAN_ERROR_INVALID_PARAM, None)
      | Some r \<Rightarrow>
          if \<not> out then (XSAN_ERROR_INVALID_PARAM, None)
          else if count r = 0 then (XSAN_ERROR_NOT_FOUND, None)
          else (XSAN_OK, Some (buffer r ! head r)))"

definition xsan_ring_buffer_size :: "'a xsan_ring_buffer ptr \<Rightarrow> nat" where
  "xsan_ring_buffer_size rb = (case rb of NULL \<Rightarrow> 0 | Some r \<Rightarrow> count r)"

definition xsan_ring_buffer_capacity :: "'a xsan_ring_buffer ptr \<Rightarrow> nat" where
  "xsan_ring_buffer_capacity rb = (case rb of NULL \<Rightarrow> 0 | Some r \<Rightarrow> capacity r)"

definition xsan_ring_buffer_is_empty :: "'a xsan_ring_buffer ptr \<Rightarrow> bool" where
  "xsan_ring_buffer_is_empty rb = (case rb of NULL \<Rightarrow> True | Some r \<Rightarrow> count r = 0)"

definition xsan_ring_buffer_is_full :: "'a xsan_ring_buffer ptr \<Rightarrow> bool" where
  "xsan_ring_buffer_is_full rb = (case rb of NULL \<Rightarrow> False | Some r \<Rightarrow> count r = capacity r)"

text \<open>The loop of \<^verbatim>\<open>xsan_ring_buffer_clear\<close>: \<open>n\<close> rounds from \<open>current_head\<close>, the values the
  destructor is called on.\<close>

fun clear_loop :: "'a ptr list \<Rightarrow> nat \<Rightarrow> nat \<Rightarrow> nat \<Rightarrow> 'a list" where
  "clear_loop buf cap current_head 0 = []"
| "clear_loop buf cap current_head (Suc n) =
     (case buf ! current_head of NULL \<Rightarrow> [] | Some v \<Rightarrow> [v]) @
     clear_loop buf cap ((current_head + 1) mod cap) n"

definition xsan_ring_buffer_clear ::
  "'a xsan_ring_buffer ptr \<Rightarrow> 'a list \<times> 'a xsan_ring_buffer ptr" where
  "xsan_ring_buffer_clear rb =
     (case rb of
        NULL \<Rightarrow> ([], NULL)
      | Some r \<Rightarrow>
          (if value_destroy_func r then clear_loop (buffer r) (capacity r) (head r) (count r)
           else [],
           Some (r\<lparr>head := 0, tail := 0, count := 0\<rparr>)))"

text \<open>After \<^verbatim>\<open>xsan_ring_buffer_destroy\<close> the structure is gone: what is left is the log of
  destroyed values.\<close>

definition xsan_ring_buffer_destroy :: "'a xsan_ring_buffer ptr \<Rightarrow> 'a list" where
  "xsan_ring_buffer_destroy rb =
     (case rb of NULL \<Rightarrow> [] | Some r \<Rightarrow> fst (xsan_ring_buffer_clear (Some r)))"

section \<open>The queue it stands for\<close>

definition rb_inv :: "'a xsan_ring_buffer \<Rightarrow> bool" where
  "rb_inv r \<longleftrightarrow>
     0 < capacity r \<and> length (buffer r) = capacity r \<and> head r < capacity r \<and>
     count r \<le> capacity r \<and> tail r = (head r + count r) mod capacity r"

definition rb_abs :: "'a xsan_ring_buffer \<Rightarrow> 'a ptr list" where
  "rb_abs r = map (\<lambda>i. buffer r ! ((head r + i) mod capacity r)) [0..<count r]"

lemma length_rb_abs [simp]: "length (rb_abs r) = count r"
  by (simp add: rb_abs_def)

lemma rb_abs_nth: "i < count r \<Longrightarrow> rb_abs r ! i = buffer r ! ((head r + i) mod capacity r)"
  by (simp add: rb_abs_def)

lemma rb_abs_empty_iff [simp]: "rb_abs r = [] \<longleftrightarrow> count r = 0"
  by (simp add: rb_abs_def)

lemma rb_abs_none: "count r = 0 \<Longrightarrow> rb_abs r = []"
  by simp

lemma mod_add_distinct:
  fixes a i j m :: nat
  assumes "i < j" "j < i + m"
  shows "(a + i) mod m \<noteq> (a + j) mod m"
proof
  assume "(a + i) mod m = (a + j) mod m"
  then have "m dvd (a + j) - (a + i)" using assms(1) by (intro mod_eq_dvd_iff_nat [THEN iffD1]) auto
  with assms show False by (auto dest: dvd_imp_le)
qed

text \<open>The buffer after a push that succeeds and after a pop that succeeds.\<close>

abbreviation pushed :: "'a xsan_ring_buffer \<Rightarrow> 'a ptr \<Rightarrow> 'a xsan_ring_buffer" where
  "pushed r v \<equiv> r\<lparr>buffer := (buffer r)[tail r := v], tail := (tail r + 1) mod capacity r,
     count := count r + 1\<rparr>"

abbreviation popped :: "'a xsan_ring_buffer \<Rightarrow> 'a xsan_ring_buffer" where
  "popped r \<equiv> r\<lparr>head := (head r + 1) mod capacity r, count := count r - 1\<rparr>"

lemma pushed_inv: "rb_inv r \<Longrightarrow> count r \<noteq> capacity r \<Longrightarrow> rb_inv (pushed r v)"
  by (auto simp: rb_inv_def mod_simps)

lemma pushed_abs:
  assumes "rb_inv r" "count r \<noteq> capacity r"
  shows "rb_abs (pushed r v) = rb_abs r @ [v]"
proof (rule nth_equalityI)
  fix i assume "i < length (rb_abs (pushed r v))"
  then have i: "i < Suc (count r)" by simp
  have "(head r + i) mod capacity r \<noteq> (head r + count r) mod capacity r" if "i < count r"
    using that assms by (intro mod_add_distinct) (auto simp: rb_inv_def)
  with i assms show "rb_abs (pushed r v) ! i = (rb_abs r @ [v]) ! i"
    by (cases "i = count r") (simp_all add: rb_abs_nth nth_append rb_inv_def del: upt_Suc)
qed simp

lemma popped_inv:
  assumes "rb_inv r" "count r \<noteq> 0"
  shows "rb_inv (popped r)"
proof -
  have "((head r + 1) mod capacity r + (count r - 1)) mod capacity r =
      (head r + count r) mod capacity r"
    using assms(2) by (subst mod_add_left_eq) simp
  with assms show ?thesis by (auto simp: rb_inv_def)
qed

lemma popped_abs:
  assumes "rb_inv r" "count r \<noteq> 0"
  shows "rb_abs r = buffer r ! head r # rb_abs (popped r)"
  using assms
  by (intro nth_equalityI) (auto simp: rb_abs_nth rb_inv_def nth_Cons mod_simps split: nat.splits)

lemma create_spec:
  "0 < cap \<Longrightarrow> \<exists>r. xsan_ring_buffer_create True True cap d = Some r \<and>
     rb_inv r \<and> rb_abs r = [] \<and> capacity r = cap \<and> value_destroy_func r = d"
  by (simp add: xsan_ring_buffer_create_def rb_inv_def)

text \<open>One operation on a buffer, as a step of a machine.\<close>

fun rb_step ::
  "'a xsan_ring_buffer \<Rightarrow> 'a ptr queue_op \<Rightarrow> (xsan_error \<times> 'a ptr option) \<times> 'a xsan_ring_buffer"
  where
  "rb_step r (Push v) =
     (let (e, r') = xsan_ring_buffer_push (Some r) v in ((e, None), the r'))"
| "rb_step r Pop = (let (o', r') = xsan_ring_buffer_pop (Some r) True in (o', the r'))"
| "rb_step r Peek = (xsan_ring_buffer_peek (Some r) True, r)"
| "rb_step r Clear = ((XSAN_OK, None), the (snd (xsan_ring_buffer_clear (Some r))))"

lemma capacity_rb_step [simp]: "capacity (snd (rb_step r x)) = capacity r"
  by (cases x) (auto simp: xsan_ring_buffer_push_def xsan_ring_buffer_pop_def
      xsan_ring_buffer_clear_def Let_def split: if_splits)

lemma rb_step_simulates:
  assumes "rb_inv r"
  shows "rb_inv (snd (rb_step r x)) \<and>
    fst (rb_step r x) = fst (queue_step (capacity r) (rb_abs r) x) \<and>
    rb_abs (snd (rb_step r x)) = snd (queue_step (capacity r) (rb_abs r) x)"
proof (cases x)
  case (Push v)
  with assms show ?thesis
    using pushed_inv [of r v] pushed_abs [of r v]
    by (cases "count r = capacity r") (auto simp: xsan_ring_buffer_push_def)
next
  case Pop
  with assms popped_inv [of r] popped_abs [of r] show ?thesis
    by (cases "count r = 0") (simp_all add: xsan_ring_buffer_pop_def rb_abs_none)
next
  case Peek
  with assms popped_abs [of r] show ?thesis
    by (cases "count r = 0") (simp_all add: xsan_ring_buffer_peek_def rb_abs_none)
next
  case Clear
  with assms show ?thesis by (auto simp: xsan_ring_buffer_clear_def rb_inv_def rb_abs_def)
qed

text \<open>The buffer with its capacity refines the queue with that bound.\<close>

interpretation rbq: simulation "\<lambda>r. (capacity r, rb_abs r)" rb_inv rb_step bounded_queue_step
  by unfold_locales
    (simp_all add: rb_step_simulates bounded_queue_step_def Let_def case_prod_beta)

lemma clear_loop_abs:
  "h < cap \<Longrightarrow> clear_loop buf cap h n =
     concat (map (\<lambda>i. case buf ! ((h + i) mod cap) of NULL \<Rightarrow> [] | Some v \<Rightarrow> [v]) [0..<n])"
proof (induction n arbitrary: h)
  case (Suc n)
  have "clear_loop buf cap ((h + 1) mod cap) n = concat (map (\<lambda>i. case buf ! ((h + Suc i) mod cap)
      of NULL \<Rightarrow> [] | Some v \<Rightarrow> [v]) [0..<n])"
    using Suc by (simp add: mod_simps)
  then show ?case
    using Suc.prems by (subst upt_conv_Cons) (simp_all add: map_Suc_upt [symmetric] comp_def del: upt_Suc map_Suc_upt)
qed simp

section \<open>Properties\<close>

text \<open>C3: from a well-formed buffer, any sequence of push, pop, peek and clear
  returns exactly what a first-in first-out queue of the same bound returns, errors included,
  ends in a well-formed buffer, and leaves the same elements in the same order.\<close>

theorem ring_buffer_fifo:
  assumes "rb_inv r"
  shows "fst (run_ops rb_step r ops) = fst (run_ops (queue_step (capacity r)) (rb_abs r) ops) \<and>
    rb_abs (snd (run_ops rb_step r ops)) =
      snd (run_ops (queue_step (capacity r)) (rb_abs r) ops) \<and>
    rb_inv (snd (run_ops rb_step r ops))"
  using rbq.run_simulates [OF assms, of ops] rbq.run_inv [OF assms, of ops]
  by (simp add: bounded_queue_run Let_def case_prod_beta)

text \<open>A buffer of two slots, filled, emptied once and filled again over the wrap.\<close>

theorem ring_buffer_fifo_witness:
  "fst (run_ops rb_step (the (xsan_ring_buffer_create True True 2 True))
      [Push (Some 7), Push NULL, Push (Some (8 :: nat)), Pop, Push (Some 9), Pop, Pop, Pop]) =
    [(XSAN_OK, None), (XSAN_OK, None), (XSAN_ERROR_INSUFFICIENT_SPACE, None),
     (XSAN_OK, Some (Some 7)), (XSAN_OK, None), (XSAN_OK, Some NULL), (XSAN_OK, Some (Some 9)),
     (XSAN_ERROR_NOT_FOUND, None)]"
  using ring_buffer_fifo [of "the (xsan_ring_buffer_create True True 2 True)"
      "[Push (Some 7), Push NULL, Push (Some (8 :: nat)), Pop, Push (Some 9), Pop, Pop, Pop]"]
  by (simp add: xsan_ring_buffer_create_def rb_inv_def rb_abs_none Let_def)

text \<open>clearing a buffer that has a destructor calls it exactly on
  the non-null elements still queued, oldest first, once each, and leaves an empty buffer of the
  same capacity; destroying the buffer makes the same calls.\<close>

theorem ring_buffer_clear_destroys:
  assumes "rb_inv r" "value_destroy_func r"
  shows "fst (xsan_ring_buffer_clear (Some r)) = List.map_filter id (rb_abs r) \<and>
    xsan_ring_buffer_destroy (Some r) = List.map_filter id (rb_abs r) \<and>
    (\<exists>r'. snd (xsan_ring_buffer_clear (Some r)) = Some r' \<and> rb_inv r' \<and> rb_abs r' = [] \<and>
       capacity r' = capacity r)"
proof -
  have "clear_loop (buffer r) (capacity r) (head r) (count r) = List.map_filter id (rb_abs r)"
    using assms(1) by (simp add: clear_loop_abs rb_inv_def rb_abs_def map_filter_concat comp_def)
  with assms show ?thesis
    by (simp add: xsan_ring_buffer_clear_def xsan_ring_buffer_destroy_def rb_inv_def)
qed

theorem ring_buffer_clear_destroys_witness:
  "fst (xsan_ring_buffer_clear (Some \<lparr>buffer = [Some 3, NULL, Some (1 :: nat)], capacity = 3,
      count = 3, head = 2, tail = 2, value_destroy_func = True\<rparr>)) = [1, 3]"
  using ring_buffer_clear_destroys [of "\<lparr>buffer = [Some 3, NULL, Some (1 :: nat)], capacity = 3,
      count = 3, head = 2, tail = 2, value_destroy_func = True\<rparr>"]
  by (simp add: rb_inv_def rb_abs_def upt_rec List.map_filter_simps)

end
