(* ===== verification/HashTable.thy ===== *)
theory HashTable
  imports Interfaces
begin

text \<open>
  src/common/hashtable.c: the chained hash table. A bucket is the chain of its entries, a list of
  pairs of a key and a value pointer. The hash and comparison functions are those the client
  gives; the destructors are present or not, and an operation returns the calls it makes to them,
  in order. The comparison is by content, so a key stands for its content.
\<close>

section \<open>The table\<close>

definition XSAN_HASHTABLE_DEFAULT_CAPACITY :: nat where
  "XSAN_HASHTABLE_DEFAULT_CAPACITY = 16"

record ('k, 'v) xsan_hashtable =
  buckets :: "('k \<times> 'v ptr) list list"
  capacity :: nat
  ht_size :: nat
  hash_func :: "'k \<Rightarrow> u32"
  compare_func :: "'k \<Rightarrow> 'k \<Rightarrow> int"
  key_destroy_func :: bool
  value_destroy_func :: bool

datatype ('k, 'v) destructor_call = KeyDestroy 'k | ValueDestroy "'v ptr"

definition xsan_hashtable_create ::
  "bool \<Rightarrow> bool \<Rightarrow> nat \<Rightarrow> ('k \<Rightarrow> u32) ptr \<Rightarrow> ('k \<Rightarrow> 'k \<Rightarrow> int) ptr \<Rightarrow> bool \<Rightarrow> bool
     \<Rightarrow> ('k, 'v) xsan_hashtable ptr" where
  "xsan_hashtable_create malloc_ok calloc_ok initial_capacity hash cmp kd vd =
     (case (hash, cmp) of
        (Some h, Some c) \<Rightarrow>
          if \<not> malloc_ok then NULL
          else
            (let cap = (if initial_capacity > 0 then initial_capacity
                        else XSAN_HASHTABLE_DEFAULT_CAPACITY)
             in if \<not> calloc_ok then NULL
                else Some \<lparr>buckets = replicate cap [], capacity = cap, ht_size = 0,
                           hash_func = h, compare_func = c,
                           key_destroy_func = kd, value_destroy_func = vd\<rparr>)
      | _ \<Rightarrow> NULL)"

definition bucket_index :: "('k, 'v) xsan_hashtable \<Rightarrow> 'k \<Rightarrow> nat" where
  "bucket_index ht key = unat (hash_func ht key) mod capacity ht"

text \<open>The walk of \<^verbatim>\<open>xsan_hashtable_put\<close> along a chain: the old value and the updated chain, if
  the key is found.\<close>

fun chain_update ::
  "('k \<Rightarrow> 'k \<Rightarrow> int) \<Rightarrow> 'k \<Rightarrow> 'v ptr \<Rightarrow> ('k \<times> 'v ptr) list
     \<Rightarrow> ('v ptr \<times> ('k \<times> 'v ptr) list) option" where
  "chain_update cmp key value [] = None"
| "chain_update cmp key value ((k, v) # rest) =
     (if cmp k key = 0 then Some (v, (k, value) # rest)
      else case chain_update cmp key value rest of
        None \<Rightarrow> None
      | Some (old, rest') \<Rightarrow> Some (old, (k, v) # rest'))"

definition xsan_hashtable_put ::
  "bool \<Rightarrow> ('k, 'v) xsan_hashtable ptr \<Rightarrow> 'k ptr \<Rightarrow> 'v ptr
     \<Rightarrow> xsan_error \<times> ('k, 'v) destructor_call list \<times> ('k, 'v) xsan_hashtable ptr" where
  "xsan_hashtable_put malloc_ok htp keyp value =
     (case (htp, keyp) of
        (Some ht, Some key) \<Rightarrow>
          (let index = bucket_index ht key in
           case chain_update (compare_func ht) key value (buckets ht ! index) of
             Some (old, chain') \<Rightarrow>
               (XSAN_OK,
                if value_destroy_func ht \<and> old \<noteq> value then [ValueDestroy old] else [],
                Some (ht\<lparr>buckets := (buckets ht)[index := chain']\<rparr>))
           | None \<Rightarrow>
               if \<not> malloc_ok then (XSAN_ERROR_NO_MEMORY, [], htp)
               else (XSAN_OK, [],
                     Some (ht\<lparr>buckets := (buckets ht)[index := (key, value) # buckets ht ! index],
                               ht_size := ht_size ht + 1\<rparr>)))
      | _ \<Rightarrow> (XSAN_ERROR_INVALID_PARAM, [], htp))"

fun chain_find ::
  "('k \<Rightarrow> 'k \<Rightarrow> int) \<Rightarrow> 'k \<Rightarrow> ('k \<times> 'v ptr) list \<Rightarrow> 'v ptr option" where
  "chain_find cmp key [] = None"
| "chain_find cmp key ((k, v) # rest) = (if cmp k key = 0 then Some v else chain_find cmp key rest)"

definition xsan_hashtable_get ::
  "('k, 'v) xsan_hashtable ptr \<Rightarrow> 'k ptr \<Rightarrow> 'v ptr" where
  "xsan_hashtable_get htp keyp =
     (case (htp, keyp) of
        (Some ht, Some key) \<Rightarrow>
          (case chain_find (compare_func ht) key (buckets ht ! bucket_index ht key) of
             Some v \<Rightarrow> v | None \<Rightarrow> NULL)
      | _ \<Rightarrow> NULL)"

text \<open>The walk of \<^verbatim>\<open>xsan_hashtable_remove\<close>: the entry unlinked, and the chain without it.\<close>

fun chain_unlink ::
  "('k \<Rightarrow> 'k \<Rightarrow> int) \<Rightarrow> 'k \<Rightarrow> ('k \<times> 'v ptr) list
     \<Rightarrow> (('k \<times> 'v ptr) \<times> ('k \<times> 'v ptr) list) option" where
  "chain_unlink cmp key [] = None"
| "chain_unlink cmp key ((k, v) # rest) =
     (if cmp k key = 0 then Some ((k, v), rest)
      else case chain_unlink cmp key rest of
        None \<Rightarrow> None
      | Some (e, rest') \<Rightarrow> Some (e, (k, v) # rest'))"

text \<open>The destructor calls for one entry that is freed.\<close>

definition destroy_entry ::
  "('k, 'v) xsan_hashtable \<Rightarrow> 'k \<times> 'v ptr \<Rightarrow> ('k, 'v) destructor_call list" where
  "destroy_entry ht e =
     (if key_destroy_func ht then [KeyDestroy (fst e)] else []) @
     (if value_destroy_func ht then [ValueDestroy (snd e)] else [])"

definition xsan_hashtable_remove ::
  "('k, 'v) xsan_hashtable ptr \<Rightarrow> 'k ptr
     \<Rightarrow> xsan_error \<times> ('k, 'v) destructor_call list \<times> ('k, 'v) xsan_hashtable ptr" where
  "xsan_hashtable_remove htp keyp =
     (case (htp, keyp) of
        (Some ht, Some key) \<Rightarrow>
          (let index = bucket_index ht key in
           case chain_unlink (compare_func ht) key (buckets ht ! index) of
             None \<Rightarrow> (XSAN_ERROR_NOT_FOUND, [], htp)
           | Some (e, chain') \<Rightarrow>
               (XSAN_OK, destroy_entry ht e,
                Some (ht\<lparr>buckets := (buckets ht)[index := chain'], ht_size := ht_size ht - 1\<rparr>)))
      | _ \<Rightarrow> (XSAN_ERROR_INVALID_PARAM, [], htp))"

definition xsan_hashtable_size :: "('k, 'v) xsan_hashtable ptr \<Rightarrow> nat" where
  "xsan_hashtable_size htp = (case htp of NULL \<Rightarrow> 0 | Some ht \<Rightarrow> ht_size ht)"

definition xsan_hashtable_clear ::
  "('k, 'v) xsan_hashtable ptr \<Rightarrow> ('k, 'v) destructor_call list \<times> ('k, 'v) xsan_hashtable ptr" where
  "xsan_hashtable_clear htp =
     (case htp of
        NULL \<Rightarrow> ([], NULL)
      | Some ht \<Rightarrow>
          (concat (map (\<lambda>i. concat (map (destroy_entry ht) (buckets ht ! i))) [0..<capacity ht]),
           Some (ht\<lparr>buckets := map (\<lambda>_. []) [0..<capacity ht] @ drop (capacity ht) (buckets ht),
                     ht_size := 0\<rparr>)))"

definition xsan_hashtable_destroy ::
  "('k, 'v) xsan_hashtable ptr \<Rightarrow> ('k, 'v) destructor_call list" where
  "xsan_hashtable_destroy htp =
     (case htp of NULL \<Rightarrow> [] | Some ht \<Rightarrow> fst (xsan_hashtable_clear (Some ht)))"

text \<open>The iterator. \<open>current_entry\<close> is the chain from the current entry on; the empty chain is
  the null pointer.\<close>

record ('k, 'v) xsan_hashtable_iter =
  iter_ht :: "('k, 'v) xsan_hashtable ptr"
  current_bucket_index :: nat
  current_entry :: "('k \<times> 'v ptr) list"

definition xsan_hashtable_iter_init ::
  "('k, 'v) xsan_hashtable ptr \<Rightarrow> ('k, 'v) xsan_hashtable_iter \<Rightarrow> ('k, 'v) xsan_hashtable_iter" where
  "xsan_hashtable_iter_init htp iter =
     (case htp of
        NULL \<Rightarrow> iter\<lparr>iter_ht := NULL\<rparr>
      | Some ht \<Rightarrow> iter\<lparr>iter_ht := Some ht, current_bucket_index := 0, current_entry := []\<rparr>)"

text \<open>The loop that looks for the next bucket with an entry: the chain found, if there is one,
  and the bucket index where it stops.\<close>

function next_bucket ::
  "('k, 'v) xsan_hashtable \<Rightarrow> nat \<Rightarrow> ('k \<times> 'v ptr) list \<Rightarrow> ('k \<times> 'v ptr) list \<times> nat" where
  "next_bucket ht i entry =
     (if entry \<noteq> [] then (entry, i)
      else if i \<ge> capacity ht then ([], i)
      else next_bucket ht (i + 1) (buckets ht ! i))"
  by pat_completeness auto

termination
  by (relation "measure (\<lambda>(ht, i, entry). capacity ht - i)") auto

definition xsan_hashtable_iter_next ::
  "('k, 'v) xsan_hashtable_iter \<Rightarrow> ('k \<times> 'v ptr) option \<times> ('k, 'v) xsan_hashtable_iter" where
  "xsan_hashtable_iter_next iter =
     (case iter_ht iter of
        NULL \<Rightarrow> (None, iter)
      | Some ht \<Rightarrow>
          (let start = (if current_entry iter \<noteq> [] then tl (current_entry iter) else []);
               (entry, i) = next_bucket ht (current_bucket_index iter) start;
               iter' = iter\<lparr>current_entry := entry, current_bucket_index := i\<rparr>
           in case entry of [] \<Rightarrow> (None, iter') | e # _ \<Rightarrow> (Some e, iter')))"

section \<open>Chains\<close>

declare next_bucket.simps [simp del]

definition exact_compare :: "('k \<Rightarrow> 'k \<Rightarrow> int) \<Rightarrow> bool" where
  "exact_compare cmp \<longleftrightarrow> (\<forall>a b. cmp a b = 0 \<longleftrightarrow> a = b)"

lemma chain_find_map_of: "exact_compare cmp \<Longrightarrow> chain_find cmp key ch = map_of ch key"
  by (induction ch) (auto simp: exact_compare_def)

lemma chain_update_None:
  "exact_compare cmp \<Longrightarrow> chain_update cmp key v ch = None \<longleftrightarrow> map_of ch key = None"
  by (induction ch) (auto simp: exact_compare_def split: option.splits)

lemma chain_update_Some:
  "exact_compare cmp \<Longrightarrow> chain_update cmp key v ch = Some (old, ch') \<Longrightarrow>
     map_of ch key = Some old \<and> map fst ch' = map fst ch \<and>
     map_of ch' = (map_of ch)(key \<mapsto> v) \<and> length ch' = length ch"
  by (induction ch arbitrary: ch')
    (auto simp: exact_compare_def fun_upd_twist split: if_splits option.splits)

lemma chain_unlink_None:
  "exact_compare cmp \<Longrightarrow> chain_unlink cmp key ch = None \<longleftrightarrow> map_of ch key = None"
  by (induction ch) (auto simp: exact_compare_def split: option.splits)

lemma chain_unlink_Some:
  "exact_compare cmp \<Longrightarrow> distinct (map fst ch) \<Longrightarrow> chain_unlink cmp key ch = Some (e, ch') \<Longrightarrow>
     fst e = key \<and> map_of ch key = Some (snd e) \<and> set ch' = set ch - {e} \<and>
     distinct (map fst ch') \<and> map_of ch' = (map_of ch)(key := None) \<and>
     length ch = Suc (length ch')"
proof (induction ch arbitrary: ch')
  case (Cons a ch)
  obtain k v where a: "a = (k, v)" by (cases a)
  show ?case
  proof (cases "k = key")
    case True
    with Cons.prems a show ?thesis
      by (auto simp: exact_compare_def fun_eq_iff map_of_eq_None_iff image_iff intro: rev_bexI)
  next
    case False
    with Cons.prems a obtain ch'' where "chain_unlink cmp key ch = Some (e, ch'')" "ch' = (k, v) # ch''"
      by (auto simp: exact_compare_def split: option.splits)
    with Cons.IH [of ch''] Cons.prems False a show ?thesis by (auto simp: image_iff)
  qed
qed simp

section \<open>Invariant and abstraction\<close>

definition ht_inv :: "('k, 'v) xsan_hashtable \<Rightarrow> bool" where
  "ht_inv ht \<longleftrightarrow>
     exact_compare (compare_func ht) \<and> 0 < capacity ht \<and> length (buckets ht) = capacity ht \<and>
     ht_size ht = length (concat (buckets ht)) \<and>
     (\<forall>i<capacity ht. distinct (map fst (buckets ht ! i)) \<and>
        (\<forall>e\<in>set (buckets ht ! i). bucket_index ht (fst e) = i))"

text \<open>The map from keys to value pointers that the table stands for.\<close>

definition ht_abs :: "('k, 'v) xsan_hashtable \<Rightarrow> 'k \<rightharpoonup> 'v ptr" where
  "ht_abs ht = (\<lambda>k. map_of (buckets ht ! bucket_index ht k) k)"

lemma bucket_index_update [simp]:
  "bucket_index (ht\<lparr>buckets := b\<rparr>) = bucket_index ht"
  "bucket_index (ht\<lparr>ht_size := n\<rparr>) = bucket_index ht"
  by (simp_all add: bucket_index_def fun_eq_iff)

lemma bucket_index_less [simp]: "ht_inv ht \<Longrightarrow> bucket_index ht k < capacity ht"
  by (simp add: bucket_index_def ht_inv_def)

lemma ht_keys_distinct: "ht_inv ht \<Longrightarrow> distinct (map fst (concat (buckets ht)))"
  unfolding map_concat
  by (rule distinct_concat_buckets [where f = "bucket_index ht" and off = 0]) (auto simp: ht_inv_def)

lemma ht_abs_map_of:
  assumes "ht_inv ht"
  shows "ht_abs ht = map_of (concat (buckets ht))"
proof
  fix k
  show "ht_abs ht k = map_of (concat (buckets ht)) k"
  proof (cases "ht_abs ht k")
    case (Some v)
    then have "(k, v) \<in> set (concat (buckets ht))"
      using assms bucket_index_less [OF assms, of k]
      by (auto simp: ht_abs_def set_concat_nth ht_inv_def simp del: bucket_index_less
          dest!: map_of_SomeD)
    then show ?thesis using Some ht_keys_distinct [OF assms] by simp
  next
    case None
    have "k \<notin> fst ` set (concat (buckets ht))"
    proof
      assume "k \<in> fst ` set (concat (buckets ht))"
      then obtain v where "(k, v) \<in> set (concat (buckets ht))" by (metis imageE prod.collapse)
      then obtain i where "i < capacity ht" "(k, v) \<in> set (buckets ht ! i)"
        using assms unfolding set_concat_nth by (auto simp: ht_inv_def)
      moreover from this have "bucket_index ht k = i" using assms by (force simp: ht_inv_def)
      ultimately show False using None by (force simp: ht_abs_def map_of_eq_None_iff)
    qed
    then have "map_of (concat (buckets ht)) k = None" by (simp only: map_of_eq_None_iff not_False_eq_True)
    then show ?thesis using None by simp
  qed
qed

lemma ht_size_card: "ht_inv ht \<Longrightarrow> ht_size ht = card (dom (ht_abs ht))"
  using distinct_card [OF ht_keys_distinct, of ht]
  by (simp add: ht_abs_map_of dom_map_of_conv_image_fst ht_inv_def)

section \<open>Operations\<close>

text \<open>Replacing one bucket by a chain of keys that belong there keeps the invariant and changes
  the map at these keys only.\<close>

lemma ht_inv_replace:
  assumes "ht_inv ht" "i < capacity ht" "distinct (map fst ch)"
    and "\<forall>e\<in>set ch. bucket_index ht (fst e) = i"
    and "n + length (buckets ht ! i) = ht_size ht + length ch"
  shows "ht_inv (ht\<lparr>buckets := (buckets ht)[i := ch], ht_size := n\<rparr>)"
  using assms length_concat_update [of i "buckets ht" ch]
  by (auto simp: ht_inv_def nth_list_update)

lemma ht_abs_replace:
  assumes "ht_inv ht" "i = bucket_index ht k"
    and "\<And>k'. k' \<noteq> k \<Longrightarrow> map_of ch k' = map_of (buckets ht ! i) k'"
  shows "ht_abs (ht\<lparr>buckets := (buckets ht)[i := ch], ht_size := n\<rparr>) = (ht_abs ht)(k := map_of ch k)"
proof
  fix k'
  show "ht_abs (ht\<lparr>buckets := (buckets ht)[i := ch], ht_size := n\<rparr>) k' = ((ht_abs ht)(k := map_of ch k)) k'"
    using assms bucket_index_less [OF assms(1), of k]
    by (cases "k' = k"; cases "bucket_index ht k' = i") (auto simp: ht_abs_def ht_inv_def nth_list_update)
qed

lemma ht_inv_index: "ht_inv ht \<Longrightarrow> e \<in> set (buckets ht ! bucket_index ht k) \<Longrightarrow>
    bucket_index ht (fst e) = bucket_index ht k"
  using bucket_index_less [of ht k] by (auto simp: ht_inv_def)

lemma ht_inv_exact: "ht_inv ht \<Longrightarrow> exact_compare (compare_func ht)"
  by (simp add: ht_inv_def)

lemma ht_inv_chain_distinct: "ht_inv ht \<Longrightarrow> distinct (map fst (buckets ht ! bucket_index ht k))"
  using bucket_index_less [of ht k] by (auto simp: ht_inv_def)

lemma put_existing:
  assumes inv: "ht_inv ht" and old: "ht_abs ht k = Some old"
  shows "\<exists>ht'. xsan_hashtable_put ok (Some ht) (Some k) v =
      (XSAN_OK, if value_destroy_func ht \<and> old \<noteq> v then [ValueDestroy old] else [], Some ht') \<and>
    ht_inv ht' \<and> ht_abs ht' = (ht_abs ht)(k \<mapsto> v) \<and> capacity ht' = capacity ht"
proof -
  let ?i = "bucket_index ht k"
  obtain ch where u: "chain_update (compare_func ht) k v (buckets ht ! ?i) = Some (old, ch)"
    using chain_update_None [OF ht_inv_exact [OF inv], of k v "buckets ht ! ?i"] old
      chain_update_Some [OF ht_inv_exact [OF inv], of k v "buckets ht ! ?i"]
    by (cases "chain_update (compare_func ht) k v (buckets ht ! ?i)") (auto simp: ht_abs_def)
  note ch = chain_update_Some [OF ht_inv_exact [OF inv] u]
  have "\<forall>e\<in>set ch. bucket_index ht (fst e) = ?i"
  proof
    fix e assume "e \<in> set ch"
    then have "fst e \<in> set (map fst (buckets ht ! ?i))" using ch by (metis image_eqI set_map)
    then show "bucket_index ht (fst e) = ?i" using ht_inv_index [OF inv] by auto
  qed
  then have "ht_inv (ht\<lparr>buckets := (buckets ht)[?i := ch], ht_size := ht_size ht\<rparr>)"
    using ch ht_inv_chain_distinct [OF inv] by (intro ht_inv_replace) (simp_all add: inv)
  moreover have "ht_abs (ht\<lparr>buckets := (buckets ht)[?i := ch], ht_size := ht_size ht\<rparr>) = (ht_abs ht)(k \<mapsto> v)"
    using ch by (subst ht_abs_replace [OF inv refl]) simp_all
  ultimately show ?thesis
    using u by (intro exI [of _ "ht\<lparr>buckets := (buckets ht)[?i := ch]\<rparr>"])
      (simp add: xsan_hashtable_put_def)
qed

lemma put_new:
  assumes inv: "ht_inv ht" and new: "ht_abs ht k = None"
  shows "xsan_hashtable_put False (Some ht) (Some k) v = (XSAN_ERROR_NO_MEMORY, [], Some ht)"
    and "\<exists>ht'. xsan_hashtable_put True (Some ht) (Some k) v = (XSAN_OK, [], Some ht') \<and>
      ht_inv ht' \<and> ht_abs ht' = (ht_abs ht)(k \<mapsto> v) \<and> capacity ht' = capacity ht"
proof -
  let ?i = "bucket_index ht k"
  let ?ht' = "ht\<lparr>buckets := (buckets ht)[?i := (k, v) # buckets ht ! ?i], ht_size := ht_size ht + 1\<rparr>"
  have none: "map_of (buckets ht ! ?i) k = None" using new by (simp add: ht_abs_def)
  then have u: "chain_update (compare_func ht) k v (buckets ht ! ?i) = None"
    by (simp add: chain_update_None [OF ht_inv_exact [OF inv]])
  then show "xsan_hashtable_put False (Some ht) (Some k) v = (XSAN_ERROR_NO_MEMORY, [], Some ht)"
    by (simp add: xsan_hashtable_put_def)
  have "ht_inv ?ht'"
    using none ht_inv_chain_distinct [OF inv, of k] ht_inv_index [OF inv, of _ k]
    by (intro ht_inv_replace) (auto simp: inv map_of_eq_None_iff)
  moreover have "ht_abs ?ht' = (ht_abs ht)(k \<mapsto> v)"
    by (subst ht_abs_replace [OF inv refl]) simp_all
  ultimately show "\<exists>ht'. xsan_hashtable_put True (Some ht) (Some k) v = (XSAN_OK, [], Some ht') \<and>
      ht_inv ht' \<and> ht_abs ht' = (ht_abs ht)(k \<mapsto> v) \<and> capacity ht' = capacity ht"
    using u by (simp add: xsan_hashtable_put_def Let_def)
qed

lemma get_abs: "ht_inv ht \<Longrightarrow> xsan_hashtable_get (Some ht) (Some k) =
    (case ht_abs ht k of Some v \<Rightarrow> v | None \<Rightarrow> NULL)"
  by (simp add: xsan_hashtable_get_def ht_abs_def chain_find_map_of ht_inv_exact)

lemma remove_absent:
  "ht_inv ht \<Longrightarrow> ht_abs ht k = None \<Longrightarrow>
     xsan_hashtable_remove (Some ht) (Some k) = (XSAN_ERROR_NOT_FOUND, [], Some ht)"
  by (simp add: xsan_hashtable_remove_def ht_abs_def ht_inv_exact
      chain_unlink_None [THEN iffD2])

lemma remove_present:
  assumes inv: "ht_inv ht" and old: "ht_abs ht k = Some v"
  shows "\<exists>ht'. xsan_hashtable_remove (Some ht) (Some k) =
      (XSAN_OK, destroy_entry ht (k, v), Some ht') \<and>
    ht_inv ht' \<and> ht_abs ht' = (ht_abs ht)(k := None) \<and> capacity ht' = capacity ht"
proof -
  let ?i = "bucket_index ht k"
  obtain e ch where u: "chain_unlink (compare_func ht) k (buckets ht ! ?i) = Some (e, ch)"
    using chain_unlink_None [OF ht_inv_exact [OF inv], of k "buckets ht ! ?i"] old
    by (cases "chain_unlink (compare_func ht) k (buckets ht ! ?i)") (auto simp: ht_abs_def)
  note ch = chain_unlink_Some [OF ht_inv_exact [OF inv] ht_inv_chain_distinct [OF inv] u]
  have e: "e = (k, v)" using ch old by (cases e) (simp add: ht_abs_def)
  let ?ht' = "ht\<lparr>buckets := (buckets ht)[?i := ch], ht_size := ht_size ht - 1\<rparr>"
  have "ht_size ht - 1 + length (buckets ht ! ?i) = ht_size ht + length ch"
    using ch inv length_concat_update [of ?i "buckets ht" "[]"] by (simp add: ht_inv_def)
  then have "ht_inv ?ht'"
    using ch ht_inv_index [OF inv, of _ k] by (intro ht_inv_replace) (auto simp: inv)
  moreover have "ht_abs ?ht' = (ht_abs ht)(k := None)"
    using ch by (subst ht_abs_replace [OF inv refl]) simp_all
  ultimately show ?thesis using u e by (simp add: xsan_hashtable_remove_def)
qed

lemma clear_abs:
  assumes "ht_inv ht"
  shows "\<exists>ht'. xsan_hashtable_clear (Some ht) =
      (concat (map (destroy_entry ht) (concat (buckets ht))), Some ht') \<and>
    ht_inv ht' \<and> ht_abs ht' = Map.empty \<and> capacity ht' = capacity ht"
proof -
  have len: "length (buckets ht) = capacity ht" using assms by (simp add: ht_inv_def)
  have "map (\<lambda>i. concat (map (destroy_entry ht) (buckets ht ! i))) [0..<capacity ht] =
      map (\<lambda>b. concat (map (destroy_entry ht) b)) (buckets ht)"
    by (rule nth_equalityI) (simp_all add: len)
  then have "concat (map (\<lambda>i. concat (map (destroy_entry ht) (buckets ht ! i))) [0..<capacity ht]) =
      concat (map (destroy_entry ht) (concat (buckets ht)))"
    by (simp only: concat_map_concat)
  then show ?thesis
    using assms len
    by (auto simp: xsan_hashtable_clear_def ht_inv_def ht_abs_def fun_eq_iff bucket_index_def)
qed

lemma create_abs:
  assumes "exact_compare cmp"
  shows "\<exists>ht. xsan_hashtable_create True True cap (Some h) (Some cmp) kd vd = Some ht \<and>
    ht_inv ht \<and> ht_abs ht = Map.empty \<and> capacity ht = (if cap > 0 then cap else 16)"
proof -
  have "0 < (if cap > 0 then cap else 16)" by simp
  then show ?thesis
    using assms
    by (auto simp: xsan_hashtable_create_def XSAN_HASHTABLE_DEFAULT_CAPACITY_def Let_def ht_inv_def
        ht_abs_def fun_eq_iff bucket_index_def)
qed

section \<open>The table as a finite map\<close>

text \<open>The flag of a put says whether the allocation of a new entry would succeed.\<close>

datatype ('k, 'v) table_op = Put 'k "'v ptr" bool | Get 'k | Remove 'k | Size | Clear

datatype 'v table_out = Status xsan_error | Value "'v ptr" | Number nat

fun ht_step ::
  "('k, 'v) xsan_hashtable \<Rightarrow> ('k, 'v) table_op \<Rightarrow> 'v table_out \<times> ('k, 'v) xsan_hashtable" where
  "ht_step ht (Put k v ok) =
     (let (e, _, ht') = xsan_hashtable_put ok (Some ht) (Some k) v in (Status e, the ht'))"
| "ht_step ht (Get k) = (Value (xsan_hashtable_get (Some ht) (Some k)), ht)"
| "ht_step ht (Remove k) =
     (let (e, _, ht') = xsan_hashtable_remove (Some ht) (Some k) in (Status e, the ht'))"
| "ht_step ht Size = (Number (xsan_hashtable_size (Some ht)), ht)"
| "ht_step ht Clear = (Status XSAN_OK, the (snd (xsan_hashtable_clear (Some ht))))"

text \<open>The specification, on maps.\<close>

fun map_step :: "('k \<rightharpoonup> 'v ptr) \<Rightarrow> ('k, 'v) table_op \<Rightarrow> 'v table_out \<times> ('k \<rightharpoonup> 'v ptr)" where
  "map_step m (Put k v ok) =
     (if m k = None \<and> \<not> ok then (Status XSAN_ERROR_NO_MEMORY, m) else (Status XSAN_OK, m(k \<mapsto> v)))"
| "map_step m (Get k) = (Value (case m k of Some v \<Rightarrow> v | None \<Rightarrow> NULL), m)"
| "map_step m (Remove k) =
     (if m k = None then (Status XSAN_ERROR_NOT_FOUND, m) else (Status XSAN_OK, m(k := None)))"
| "map_step m Size = (Number (card (dom m)), m)"
| "map_step m Clear = (Status XSAN_OK, Map.empty)"

lemma ht_step_simulates:
  assumes "ht_inv ht"
  shows "ht_inv (snd (ht_step ht x)) \<and> fst (ht_step ht x) = fst (map_step (ht_abs ht) x) \<and>
    ht_abs (snd (ht_step ht x)) = snd (map_step (ht_abs ht) x)"
proof (cases x)
  case (Put k v ok)
  then show ?thesis
    using put_new [OF assms, of k v] put_existing [OF assms, of k _ ok v] assms
    by (cases "ht_abs ht k"; cases ok) fastforce+
next
  case (Remove k)
  then show ?thesis
    using remove_absent [OF assms, of k] remove_present [OF assms, of k] assms
    by (cases "ht_abs ht k") fastforce+
next
  case Clear
  then show ?thesis using clear_abs [OF assms] by fastforce
qed (use assms in \<open>simp_all add: get_abs xsan_hashtable_size_def ht_size_card\<close>)

interpretation htm: simulation ht_abs ht_inv ht_step map_step
  by unfold_locales (simp_all add: ht_step_simulates)

text \<open>The same, as a keyed table for clients whose allocations succeed.\<close>

definition ht_put :: "('k, 'v) xsan_hashtable \<Rightarrow> 'k \<Rightarrow> 'v ptr \<Rightarrow> ('k, 'v) xsan_hashtable" where
  "ht_put ht k v = the (snd (snd (xsan_hashtable_put True (Some ht) (Some k) v)))"

definition ht_remove :: "('k, 'v) xsan_hashtable \<Rightarrow> 'k \<Rightarrow> ('k, 'v) xsan_hashtable" where
  "ht_remove ht k = the (snd (snd (xsan_hashtable_remove (Some ht) (Some k))))"

interpretation htk: keyed_table ht_inv ht_abs ht_put ht_remove
proof
  fix t :: "('k, 'v) xsan_hashtable" and k k' v
  assume inv: "ht_inv t"
  have p: "ht_put t k v = snd (ht_step t (Put k v True))"
    by (simp add: ht_put_def case_prod_beta Let_def)
  have r: "ht_remove t k = snd (ht_step t (Remove k))"
    by (simp add: ht_remove_def case_prod_beta Let_def)
  show "ht_inv (ht_put t k v)" "ht_inv (ht_remove t k)"
    using ht_step_simulates [OF inv] by (simp_all only: p r)
  show "ht_abs (ht_put t k v) k' = (if k' = k then Some v else ht_abs t k')"
    "ht_abs (ht_remove t k) k' = (if k' = k then None else ht_abs t k')"
    using ht_step_simulates [OF inv, of "Put k v True"] ht_step_simulates [OF inv, of "Remove k"]
    by (auto simp only: p r) (auto split: if_splits)
qed

section \<open>Iteration\<close>

text \<open>What an iterator has still to deliver.\<close>

definition iter_remaining ::
  "('k, 'v) xsan_hashtable \<Rightarrow> ('k, 'v) xsan_hashtable_iter \<Rightarrow> ('k \<times> 'v ptr) list" where
  "iter_remaining ht it = tl (current_entry it) @ concat (drop (current_bucket_index it) (buckets ht))"

lemma next_bucket_spec:
  assumes "length (buckets ht) = capacity ht" "next_bucket ht i entry = (entry', i')"
  shows "entry @ concat (drop i (buckets ht)) = entry' @ concat (drop i' (buckets ht)) \<and>
    (entry' = [] \<longrightarrow> concat (drop i' (buckets ht)) = [])"
  using assms
proof (induction ht i entry rule: next_bucket.induct)
  case (1 ht i entry)
  show ?case
  proof (cases "entry \<noteq> [] \<or> capacity ht \<le> i")
    case True
    moreover have "drop i (buckets ht) = []" if "capacity ht \<le> i" using that "1.prems"(1) by simp
    ultimately show ?thesis
      using "1.prems"(2) by (subst (asm) next_bucket.simps) (auto split: if_splits)
  next
    case False
    then have "drop i (buckets ht) = buckets ht ! i # drop (Suc i) (buckets ht)"
      using "1.prems"(1) by (simp add: Cons_nth_drop_Suc)
    with False "1.prems" "1.IH" show ?thesis by (subst (asm) next_bucket.simps) simp
  qed
qed

fun iter_collect :: "nat \<Rightarrow> ('k, 'v) xsan_hashtable_iter \<Rightarrow> ('k \<times> 'v ptr) option list" where
  "iter_collect 0 it = []"
| "iter_collect (Suc n) it =
     (let (r, it') = xsan_hashtable_iter_next it in r # iter_collect n it')"

lemma iter_next_remaining:
  assumes "length (buckets ht) = capacity ht" "iter_ht it = Some ht"
  shows "case xsan_hashtable_iter_next it of
      (None, it') \<Rightarrow> iter_remaining ht it = [] \<and> iter_remaining ht it' = [] \<and> iter_ht it' = Some ht
    | (Some e, it') \<Rightarrow> iter_remaining ht it = e # iter_remaining ht it' \<and> iter_ht it' = Some ht"
proof -
  obtain entry i where n: "next_bucket ht (current_bucket_index it) (tl (current_entry it)) = (entry, i)"
    by (cases "next_bucket ht (current_bucket_index it) (tl (current_entry it))")
  have start: "(if current_entry it \<noteq> [] then tl (current_entry it) else []) = tl (current_entry it)"
    by simp
  show ?thesis
    using next_bucket_spec [OF assms(1) n] assms(2) n
    unfolding xsan_hashtable_iter_next_def start
    by (cases entry) (simp_all add: iter_remaining_def)
qed

lemma iter_collect_remaining:
  assumes "length (buckets ht) = capacity ht" "iter_ht it = Some ht"
  shows "iter_collect n it =
    map Some (take n (iter_remaining ht it)) @ replicate (n - length (iter_remaining ht it)) None"
  using assms(2)
proof (induction n arbitrary: it)
  case (Suc n)
  show ?case
    using iter_next_remaining [OF assms(1) Suc.prems] Suc.IH
    by (cases "xsan_hashtable_iter_next it"; cases "fst (xsan_hashtable_iter_next it)") auto
qed simp

section \<open>Properties\<close>

text \<open>C2: any sequence of put, get, remove, size and clear on a well-formed table
  returns what the same operations return on a finite map from keys to value pointers, failed
  allocations included, and ends in a well-formed table for the resulting map.\<close>

theorem hashtable_refines_map:
  assumes "ht_inv ht"
  shows "fst (run_ops ht_step ht ops) = fst (run_ops map_step (ht_abs ht) ops) \<and>
    ht_abs (snd (run_ops ht_step ht ops)) = snd (run_ops map_step (ht_abs ht) ops) \<and>
    ht_inv (snd (run_ops ht_step ht ops))"
  using htm.run_simulates [OF assms] htm.run_inv [OF assms] by auto

text \<open>A table of two buckets with keys that collide.\<close>

definition sample_table :: "(nat, string) xsan_hashtable" where
  "sample_table = the (xsan_hashtable_create True True 2 (Some of_nat) (Some (\<lambda>a b. int a - int b)) True True)"

lemma sample_table_ok: "ht_inv sample_table" "ht_abs sample_table = Map.empty"
  using create_abs [of "\<lambda>a b. int a - int b" 2 of_nat True True, where 'b = string]
  by (auto simp: sample_table_def exact_compare_def)

theorem hashtable_refines_map_witness:
  "fst (run_ops ht_step sample_table
      [Put 1 (Some ''a'') True, Put 3 (Some ''b'') True, Put 1 (Some ''c'') False, Get 1, Remove 3,
       Get 3, Remove 3, Put 5 NULL False, Size]) =
    [Status XSAN_OK, Status XSAN_OK, Status XSAN_OK, Value (Some ''c''), Status XSAN_OK, Value NULL,
     Status XSAN_ERROR_NOT_FOUND, Status XSAN_ERROR_NO_MEMORY, Number 1]"
  using hashtable_refines_map [OF sample_table_ok(1), of
      "[Put 1 (Some ''a'') True, Put 3 (Some ''b'') True, Put 1 (Some ''c'') False, Get 1, Remove 3,
       Get 3, Remove 3, Put 5 NULL False, Size]"]
  by (simp add: sample_table_ok(2) Let_def)

text \<open>an iterator over a well-formed table that is not changed meanwhile
  delivers every binding of the map exactly once, then reports the end, and keeps reporting it.\<close>

theorem hashtable_iteration:
  assumes "ht_inv ht"
  shows "\<exists>kvs. map_of kvs = ht_abs ht \<and> distinct (map fst kvs) \<and>
    length kvs = xsan_hashtable_size (Some ht) \<and>
    iter_collect (xsan_hashtable_size (Some ht) + n) (xsan_hashtable_iter_init (Some ht) it) =
      map Some kvs @ replicate n None"
proof (intro exI conjI)
  have len: "length (buckets ht) = capacity ht" using assms by (simp add: ht_inv_def)
  have "iter_remaining ht (xsan_hashtable_iter_init (Some ht) it) = concat (buckets ht)"
    by (simp add: iter_remaining_def xsan_hashtable_iter_init_def)
  then show "iter_collect (xsan_hashtable_size (Some ht) + n) (xsan_hashtable_iter_init (Some ht) it) =
      map Some (concat (buckets ht)) @ replicate n None"
    using assms iter_collect_remaining [OF len, of "xsan_hashtable_iter_init (Some ht) it"]
    by (simp add: xsan_hashtable_iter_init_def xsan_hashtable_size_def ht_inv_def)
  show "map_of (concat (buckets ht)) = ht_abs ht" by (simp add: ht_abs_map_of [OF assms])
  show "distinct (map fst (concat (buckets ht)))" by (rule ht_keys_distinct [OF assms])
  show "length (concat (buckets ht)) = xsan_hashtable_size (Some ht)"
    using assms by (simp add: xsan_hashtable_size_def ht_inv_def)
qed

theorem hashtable_iteration_witness:
  "\<exists>kvs. map_of kvs = [3 \<mapsto> Some ''b'', 1 \<mapsto> Some ''a''] \<and> distinct (map fst kvs) \<and>
    iter_collect (xsan_hashtable_size (Some (ht_put (ht_put sample_table 1 (Some ''a'')) 3 (Some ''b''))) + 1)
      (xsan_hashtable_iter_init (Some (ht_put (ht_put sample_table 1 (Some ''a'')) 3 (Some ''b'')))
        \<lparr>iter_ht = NULL, current_bucket_index = 9, current_entry = []\<rparr>) = map Some kvs @ [None]"
proof -
  have "ht_abs (ht_put (ht_put sample_table 1 (Some ''a'')) 3 (Some ''b'')) =
      [3 \<mapsto> Some ''b'', 1 \<mapsto> Some ''a'']"
    using sample_table_ok by (simp add: htk.get_fun_put htk.put_inv fun_upd_twist)
  moreover have "ht_inv (ht_put (ht_put sample_table 1 (Some ''a'')) 3 (Some ''b''))"
    using sample_table_ok by (simp add: htk.put_inv)
  ultimately show ?thesis
    using hashtable_iteration [of "ht_put (ht_put sample_table 1 (Some ''a'')) 3 (Some ''b'')" 1
        "\<lparr>iter_ht = NULL, current_bucket_index = 9, current_entry = []\<rparr>"]
    by auto
qed

text \<open>C38: the destructors run exactly when an entry or value is dropped: a put over
  an old value that is another pointer destroys that value and no key; a remove destroys the
  key and value of the entry removed and of no other; a failed operation destroys nothing; clear
  and destroy run them on every entry once.\<close>

theorem hashtable_ownership:
  assumes "ht_inv ht" "key_destroy_func ht" "value_destroy_func ht"
  shows "fst (snd (xsan_hashtable_put ok (Some ht) (Some k) v)) =
      (case ht_abs ht k of Some old \<Rightarrow> if old \<noteq> v then [ValueDestroy old] else [] | None \<Rightarrow> []) \<and>
    fst (snd (xsan_hashtable_remove (Some ht) (Some k))) =
      (case ht_abs ht k of Some old \<Rightarrow> [KeyDestroy k, ValueDestroy old] | None \<Rightarrow> []) \<and>
    (\<exists>kvs. map_of kvs = ht_abs ht \<and> distinct (map fst kvs) \<and>
       fst (xsan_hashtable_clear (Some ht)) = concat (map (\<lambda>(k, v). [KeyDestroy k, ValueDestroy v]) kvs) \<and>
       xsan_hashtable_destroy (Some ht) = concat (map (\<lambda>(k, v). [KeyDestroy k, ValueDestroy v]) kvs))"
proof (intro conjI)
  show "fst (snd (xsan_hashtable_put ok (Some ht) (Some k) v)) =
      (case ht_abs ht k of Some old \<Rightarrow> if old \<noteq> v then [ValueDestroy old] else [] | None \<Rightarrow> [])"
    using put_new [OF assms(1), of k v] put_existing [OF assms(1), of k _ ok v] assms(3)
    by (cases "ht_abs ht k"; cases ok) fastforce+
  show "fst (snd (xsan_hashtable_remove (Some ht) (Some k))) =
      (case ht_abs ht k of Some old \<Rightarrow> [KeyDestroy k, ValueDestroy old] | None \<Rightarrow> [])"
    using remove_absent [OF assms(1), of k] remove_present [OF assms(1), of k] assms(2,3)
    by (cases "ht_abs ht k") (fastforce simp: destroy_entry_def)+
  have "concat (map (destroy_entry ht) (concat (buckets ht))) =
      concat (map (\<lambda>(k, v). [KeyDestroy k, ValueDestroy v]) (concat (buckets ht)))"
    using assms(2,3) by (intro arg_cong [where f = concat] map_cong refl) (simp add: destroy_entry_def case_prod_beta)
  then show "\<exists>kvs. map_of kvs = ht_abs ht \<and> distinct (map fst kvs) \<and>
       fst (xsan_hashtable_clear (Some ht)) = concat (map (\<lambda>(k, v). [KeyDestroy k, ValueDestroy v]) kvs) \<and>
       xsan_hashtable_destroy (Some ht) = concat (map (\<lambda>(k, v). [KeyDestroy k, ValueDestroy v]) kvs)"
    using clear_abs [OF assms(1)] ht_keys_distinct [OF assms(1)] ht_abs_map_of [OF assms(1)]
    by (intro exI [of _ "concat (buckets ht)"]) (auto simp: xsan_hashtable_destroy_def)
qed

theorem hashtable_ownership_witness:
  "fst (snd (xsan_hashtable_put True (Some (ht_put sample_table 1 (Some ''a''))) (Some 1) (Some ''b''))) =
    [ValueDestroy (Some ''a'')]"
proof -
  let ?ht = "ht_put sample_table 1 (Some ''a'')"
  have "ht_inv ?ht" "ht_abs ?ht 1 = Some (Some ''a'')"
    using sample_table_ok by (simp_all add: htk.put_inv htk.get_put)
  moreover have "key_destroy_func ?ht" "value_destroy_func ?ht"
    by (simp_all add: ht_put_def xsan_hashtable_put_def sample_table_def xsan_hashtable_create_def
        bucket_index_def Let_def)
  ultimately show ?thesis using hashtable_ownership [of ?ht True 1 "Some ''b''"] by simp
qed

end
