(* ===== verification/ByteOrder.thy ===== *)
theory ByteOrder
  imports XsanPrelude
begin

text \<open>
  Integers in memory. A host stores an integer as its bytes in the order of the machine;
  \<^verbatim>\<open>memcpy\<close> between an integer and a byte array copies them, and \<^verbatim>\<open>htons\<close>, \<^verbatim>\<open>htonl\<close> and the
  \<^verbatim>\<open>htonll\<close> of src/network/protocol.c convert between the order of the machine and the network
  order. The order of the host is a parameter, so that the wire format can be shown not to
  depend on it.
\<close>

datatype byte_order = LITTLE_ENDIAN | BIG_ENDIAN

text \<open>The bytes of a word, least significant first, and the word of a list of bytes.\<close>

definition le_bytes :: "nat \<Rightarrow> 'a::len word \<Rightarrow> u8 list" where
  "le_bytes n w = map (\<lambda>i. ucast (drop_bit (8 * i) w)) [0..<n]"

fun le_word :: "u8 list \<Rightarrow> 'a::len word" where
  "le_word [] = 0"
| "le_word (b # bs) = ucast b OR push_bit 8 (le_word bs)"

text \<open>Network order: most significant byte first.\<close>

definition be_bytes :: "nat \<Rightarrow> 'a::len word \<Rightarrow> u8 list" where
  "be_bytes n w = rev (le_bytes n w)"

text \<open>\<^verbatim>\<open>memcpy\<close> out of and into an integer object of \<open>n\<close> bytes.\<close>

definition mem_bytes :: "byte_order \<Rightarrow> nat \<Rightarrow> 'a::len word \<Rightarrow> u8 list" where
  "mem_bytes bo n w = (case bo of LITTLE_ENDIAN \<Rightarrow> le_bytes n w | BIG_ENDIAN \<Rightarrow> be_bytes n w)"

definition mem_word :: "byte_order \<Rightarrow> u8 list \<Rightarrow> 'a::len word" where
  "mem_word bo bs = (case bo of LITTLE_ENDIAN \<Rightarrow> le_word bs | BIG_ENDIAN \<Rightarrow> le_word (rev bs))"

text \<open>\<^verbatim>\<open>htons\<close> and \<^verbatim>\<open>htonl\<close> of the C library reverse the bytes on a little-endian host;
  \<^verbatim>\<open>ntohs\<close> and \<^verbatim>\<open>ntohl\<close> are the same functions.\<close>

definition htons :: "byte_order \<Rightarrow> u16 \<Rightarrow> u16" where
  "htons bo w = (case bo of LITTLE_ENDIAN \<Rightarrow> le_word (be_bytes 2 w) | BIG_ENDIAN \<Rightarrow> w)"

definition htonl :: "byte_order \<Rightarrow> u32 \<Rightarrow> u32" where
  "htonl bo w = (case bo of LITTLE_ENDIAN \<Rightarrow> le_word (be_bytes 4 w) | BIG_ENDIAN \<Rightarrow> w)"

text \<open>The \<^verbatim>\<open>local_htonll\<close> of protocol.c, put together from two 32-bit conversions.\<close>

definition local_htonll :: "byte_order \<Rightarrow> u64 \<Rightarrow> u64" where
  "local_htonll bo val =
     (case bo of
        LITTLE_ENDIAN \<Rightarrow>
          push_bit 32 (ucast (htonl bo (ucast (val AND 0xFFFFFFFF)))) OR
          ucast (htonl bo (ucast (drop_bit 32 val)))
      | BIG_ENDIAN \<Rightarrow> val)"

section \<open>Bytes and words\<close>

lemma length_le_bytes [simp]: "length (le_bytes n w) = n"
  by (simp add: le_bytes_def)

lemma length_be_bytes [simp]: "length (be_bytes n w) = n"
  by (simp add: be_bytes_def)

lemma length_mem_bytes [simp]: "length (mem_bytes bo n w) = n"
  by (cases bo) (simp_all add: mem_bytes_def)

lemma bit_le_word:
  "bit (le_word bs :: 'a::len word) k \<longleftrightarrow>
     k < LENGTH('a) \<and> k div 8 < length bs \<and> bit (bs ! (k div 8)) (k mod 8)"
proof (induction bs arbitrary: k)
  case (Cons b bs)
  show ?case
  proof (cases "k < 8")
    case True
    then show ?thesis by (simp add: bit_or_iff bit_push_bit_iff bit_unsigned_iff)
  next
    case False
    then have "k div 8 = Suc ((k - 8) div 8)" "k mod 8 = (k - 8) mod 8"
      by (simp_all add: le_div_geq le_mod_geq)
    moreover have "\<not> bit b k" using False bit_imp_le_length [of b k] by auto
    ultimately show ?thesis
      using False Cons.IH [of "k - 8"]
      by (auto simp: bit_or_iff bit_push_bit_iff bit_unsigned_iff)
  qed
qed simp

lemma le_bytes_nth [simp]: "i < n \<Longrightarrow> le_bytes n w ! i = ucast (drop_bit (8 * i) w)"
  by (simp add: le_bytes_def)

lemma le_word_le_bytes [simp]:
  fixes w :: "'a::len word"
  assumes "LENGTH('a) \<le> 8 * n"
  shows "le_word (le_bytes n w) = w"
proof (rule bit_word_eqI)
  fix k assume k: "k < LENGTH('a)"
  with assms have "k div 8 < n" by simp
  moreover have "8 * (k div 8) + k mod 8 = k" by simp
  ultimately show "bit (le_word (le_bytes n w) :: 'a word) k = bit w k"
    using k by (simp add: bit_le_word bit_unsigned_iff bit_drop_bit_eq del: mult_div_mod_eq)
qed

lemma le_bytes_le_word [simp]:
  assumes "8 * length bs \<le> LENGTH('a::len)"
  shows "le_bytes (length bs) (le_word bs :: 'a word) = bs"
proof (rule nth_equalityI)
  fix i assume "i < length (le_bytes (length bs) (le_word bs :: 'a word))"
  then have i: "i < length bs" by simp
  have "bit (ucast (drop_bit (8 * i) (le_word bs :: 'a word)) :: u8) k = bit (bs ! i) k"
    if "k < 8" for k
  proof -
    have "(8 * i + k) div 8 = i" "(8 * i + k) mod 8 = k" "8 * i + k < LENGTH('a)"
      using that i assms by auto
    then show ?thesis using i that by (simp add: bit_unsigned_iff bit_drop_bit_eq bit_le_word)
  qed
  then show "le_bytes (length bs) (le_word bs :: 'a word) ! i = bs ! i"
    using i by (auto intro: bit_word_eqI)
qed simp

lemma le_bytes_le_word_n:
  "length bs = n \<Longrightarrow> 8 * n \<le> LENGTH('a::len) \<Longrightarrow> le_bytes n (le_word bs :: 'a word) = bs"
  using le_bytes_le_word by blast

lemma le_bytes_inj:
  "LENGTH('a) \<le> 8 * n \<Longrightarrow> le_bytes n v = le_bytes n w \<longleftrightarrow> v = (w :: 'a::len word)"
  by (metis le_word_le_bytes)

lemma be_bytes_inj:
  "LENGTH('a) \<le> 8 * n \<Longrightarrow> be_bytes n v = be_bytes n w \<longleftrightarrow> v = (w :: 'a::len word)"
  by (simp add: be_bytes_def le_bytes_inj)

lemma mem_word_bytes [simp]:
  "LENGTH('a) \<le> 8 * n \<Longrightarrow> mem_word bo (mem_bytes bo n w) = (w :: 'a::len word)"
  by (cases bo) (simp_all add: mem_word_def mem_bytes_def be_bytes_def)

section \<open>Network order does not depend on the host\<close>

lemma mem_bytes_htons [simp]: "mem_bytes bo 2 (htons bo w) = be_bytes 2 w"
  by (cases bo) (simp_all add: mem_bytes_def htons_def le_bytes_le_word_n)

lemma mem_bytes_htonl [simp]: "mem_bytes bo 4 (htonl bo w) = be_bytes 4 w"
  by (cases bo) (simp_all add: mem_bytes_def htonl_def le_bytes_le_word_n)

lemma upt_8_split: "[0..<8] = [0..<4] @ map (\<lambda>i. i + 4) [0..<4]"
  by (simp add: upt_rec)

lemma le_bytes_halves:
  "le_bytes 8 (push_bit 32 (ucast (a :: u32)) OR ucast (b :: u32) :: u64) =
     le_bytes 4 b @ le_bytes 4 a"
proof -
  have lo: "(ucast (drop_bit (8 * i) (push_bit 32 (ucast a) OR ucast b :: u64)) :: u8) =
      ucast (drop_bit (8 * i) b)" if "i < 4" for i
    using that by (intro bit_word_eqI)
      (auto simp: bit_unsigned_iff bit_drop_bit_eq bit_or_iff bit_push_bit_iff dest: bit_imp_le_length)
  have hi: "(ucast (drop_bit (8 * (i + 4)) (push_bit 32 (ucast a) OR ucast b :: u64)) :: u8) =
      ucast (drop_bit (8 * i) a)" if "i < 4" for i
    using that by (intro bit_word_eqI)
      (auto simp: bit_unsigned_iff bit_drop_bit_eq bit_or_iff bit_push_bit_iff algebra_simps
         dest: bit_imp_le_length)
  show ?thesis
    unfolding le_bytes_def upt_8_split map_append map_map comp_def
    by (intro arg_cong2 [where f = append] map_cong refl) (simp_all only: lo hi set_upt atLeastLessThan_iff)
qed

lemma word_halves:
  "(val :: u64) =
     push_bit 32 (ucast (ucast (drop_bit 32 val) :: u32)) OR ucast (ucast (val AND 0xFFFFFFFF) :: u32)"
proof -
  have "val AND 0xFFFFFFFF = take_bit 32 val"
    by (simp add: take_bit_eq_mask mask_eq_exp_minus_1)
  then show ?thesis
    by (intro bit_word_eqI)
      (auto simp: bit_unsigned_iff bit_drop_bit_eq bit_or_iff bit_push_bit_iff bit_take_bit_iff)
qed

lemma mem_bytes_htonll [simp]: "mem_bytes bo 8 (local_htonll bo val) = be_bytes 8 val"
proof (cases bo)
  case LITTLE_ENDIAN
  have "be_bytes 8 val = be_bytes 4 (ucast (drop_bit 32 val) :: u32) @
      be_bytes 4 (ucast (val AND 0xFFFFFFFF) :: u32)"
    by (subst word_halves) (simp only: be_bytes_def le_bytes_halves rev_append)
  then show ?thesis
    by (simp add: LITTLE_ENDIAN mem_bytes_def local_htonll_def htonl_def le_bytes_halves
        le_bytes_le_word_n)
qed (simp add: mem_bytes_def local_htonll_def)

text \<open>Reading network order back.\<close>

lemma htons_mem_word [simp]: "length bs = 2 \<Longrightarrow> htons bo (mem_word bo bs) = le_word (rev bs)"
  by (cases bo) (simp_all add: htons_def mem_word_def be_bytes_def le_bytes_le_word_n)

lemma htonl_mem_word [simp]: "length bs = 4 \<Longrightarrow> htonl bo (mem_word bo bs) = le_word (rev bs)"
  by (cases bo) (simp_all add: htonl_def mem_word_def be_bytes_def le_bytes_le_word_n)

lemma htonll_mem_word [simp]:
  assumes "length bs = 8"
  shows "local_htonll bo (mem_word bo bs) = le_word (rev bs)"
proof (cases bo)
  case LITTLE_ENDIAN
  have "le_bytes 8 (local_htonll LITTLE_ENDIAN (le_word bs)) = rev bs"
    using mem_bytes_htonll [of LITTLE_ENDIAN "le_word bs"] assms
    by (simp add: mem_bytes_def be_bytes_def le_bytes_le_word_n)
  moreover have "le_bytes 8 (le_word (rev bs) :: u64) = rev bs"
    using assms by (simp add: le_bytes_le_word_n)
  ultimately have "le_bytes 8 (local_htonll LITTLE_ENDIAN (le_word bs)) = le_bytes 8 (le_word (rev bs) :: u64)"
    by simp
  then have "local_htonll LITTLE_ENDIAN (le_word bs) = le_word (rev bs)"
    by (subst (asm) le_bytes_inj) simp_all
  then show ?thesis by (simp add: LITTLE_ENDIAN mem_word_def)
qed (simp add: mem_word_def local_htonll_def)

lemma le_word_rev_be_bytes [simp]:
  "LENGTH('a) \<le> 8 * n \<Longrightarrow> le_word (rev (be_bytes n w)) = (w :: 'a::len word)"
  by (simp add: be_bytes_def)

lemma be_bytes_le_word_rev:
  "length bs = n \<Longrightarrow> 8 * n \<le> LENGTH('a::len) \<Longrightarrow> be_bytes n (le_word (rev bs) :: 'a word) = bs"
  by (simp add: be_bytes_def le_bytes_le_word_n)

end
