(* ===== verification/Protocol.thy ===== *)
theory Protocol
  imports ByteOrder Interfaces
begin

text \<open>
  src/network/protocol.c and include/xsan\_protocol.h: the message header, its wire format, the
  checksum and the construction of messages. The host byte order is the parameter \<open>bo\<close> of the
  functions that move integers through memory. Whether an allocation succeeds, and what
  \<^verbatim>\<open>malloc\<close> returns in a fresh block, are parameters too.
\<close>

section \<open>Constants and data\<close>

definition XSAN_PROTOCOL_MAGIC :: u32 where "XSAN_PROTOCOL_MAGIC = 0x5853414E"
definition XSAN_PROTOCOL_VERSION :: u16 where "XSAN_PROTOCOL_VERSION = 1"
definition XSAN_PROTOCOL_MAX_PAYLOAD_SIZE :: nat where
  "XSAN_PROTOCOL_MAX_PAYLOAD_SIZE = 16 * 1024 * 1024"

definition XSAN_MESSAGE_HEADER_SIZE :: nat where
  "XSAN_MESSAGE_HEADER_SIZE = 4 + 2 + 2 + 4 + 8 + 4"

text \<open>The message types that the components use, with the numbers of the enumeration.\<close>

type_synonym xsan_message_type = u32

abbreviation (input) XSAN_MSG_TYPE_HEARTBEAT :: xsan_message_type where
  "XSAN_MSG_TYPE_HEARTBEAT \<equiv> 1"
abbreviation (input) XSAN_MSG_TYPE_REPLICA_WRITE_BLOCK_REQ :: xsan_message_type where
  "XSAN_MSG_TYPE_REPLICA_WRITE_BLOCK_REQ \<equiv> 600"
abbreviation (input) XSAN_MSG_TYPE_REPLICA_WRITE_BLOCK_RESP :: xsan_message_type where
  "XSAN_MSG_TYPE_REPLICA_WRITE_BLOCK_RESP \<equiv> 601"
abbreviation (input) XSAN_MSG_TYPE_REPLICA_READ_BLOCK_REQ :: xsan_message_type where
  "XSAN_MSG_TYPE_REPLICA_READ_BLOCK_REQ \<equiv> 602"
abbreviation (input) XSAN_MSG_TYPE_REPLICA_READ_BLOCK_RESP :: xsan_message_type where
  "XSAN_MSG_TYPE_REPLICA_READ_BLOCK_RESP \<equiv> 603"
abbreviation (input) XSAN_MSG_TYPE_MAX :: xsan_message_type where
  "XSAN_MSG_TYPE_MAX \<equiv> 604"

record xsan_message_header =
  magic :: u32
  msg_type :: u16
  version :: u16
  payload_length :: u32
  transaction_id :: u64
  checksum :: u32

record xsan_message =
  header :: xsan_message_header
  payload :: "u8 list ptr"

section \<open>The header on the wire\<close>

definition xsan_protocol_header_init ::
  "xsan_message_type \<Rightarrow> u32 \<Rightarrow> u64 \<Rightarrow> xsan_message_header" where
  "xsan_protocol_header_init type len tid =
     \<lparr>magic = XSAN_PROTOCOL_MAGIC, msg_type = ucast type, version = XSAN_PROTOCOL_VERSION,
      payload_length = len, transaction_id = tid, checksum = 0\<rparr>"

text \<open>The second component is what the function writes to the buffer.\<close>

definition xsan_protocol_header_serialize ::
  "byte_order \<Rightarrow> xsan_message_header ptr \<Rightarrow> bool \<Rightarrow> xsan_error \<times> u8 list" where
  "xsan_protocol_header_serialize bo hdr has_buffer =
     (case hdr of
        NULL \<Rightarrow> (XSAN_ERROR_INVALID_PARAM, [])
      | Some h \<Rightarrow>
          if \<not> has_buffer then (XSAN_ERROR_INVALID_PARAM, [])
          else
            (let magic_n = htonl bo (magic h);
                 type_n = htons bo (msg_type h);
                 version_n = htons bo (version h);
                 payload_length_n = htonl bo (payload_length h);
                 transaction_id_n = local_htonll bo (transaction_id h);
                 checksum_n = htonl bo (checksum h)
             in (XSAN_OK,
                 mem_bytes bo 4 magic_n @ mem_bytes bo 2 type_n @ mem_bytes bo 2 version_n @
                 mem_bytes bo 4 payload_length_n @ mem_bytes bo 8 transaction_id_n @
                 mem_bytes bo 4 checksum_n)))"

text \<open>The fields are stored one by one, so that a header rejected early keeps its other
  fields. The buffer holds at least \<open>XSAN_MESSAGE_HEADER_SIZE\<close> bytes.\<close>

definition xsan_protocol_header_deserialize ::
  "byte_order \<Rightarrow> u8 list ptr \<Rightarrow> xsan_message_header \<Rightarrow> xsan_error \<times> xsan_message_header" where
  "xsan_protocol_header_deserialize bo buf hdr =
     (case buf of
        NULL \<Rightarrow> (XSAN_ERROR_INVALID_PARAM, hdr)
      | Some bs \<Rightarrow>
          (let hdr = hdr\<lparr>magic := htonl bo (mem_word bo (take 4 bs))\<rparr> in
           if magic hdr \<noteq> XSAN_PROTOCOL_MAGIC then (XSAN_ERROR_INVALID_PARAM, hdr)
           else
             (let hdr = hdr\<lparr>msg_type := htons bo (mem_word bo (take 2 (drop 4 bs)))\<rparr>;
                  hdr = hdr\<lparr>version := htons bo (mem_word bo (take 2 (drop 6 bs)))\<rparr>;
                  hdr = hdr\<lparr>payload_length := htonl bo (mem_word bo (take 4 (drop 8 bs)))\<rparr>
              in if unat (payload_length hdr) > XSAN_PROTOCOL_MAX_PAYLOAD_SIZE
                 then (XSAN_ERROR_INVALID_PARAM, hdr)
                 else
                   (let hdr = hdr\<lparr>transaction_id := local_htonll bo (mem_word bo (take 8 (drop 12 bs)))\<rparr>;
                        hdr = hdr\<lparr>checksum := htonl bo (mem_word bo (take 4 (drop 20 bs)))\<rparr>
                    in (XSAN_OK, hdr)))))"

section \<open>The checksum\<close>

fun checksum_loop :: "u32 \<Rightarrow> u8 list \<Rightarrow> u32" where
  "checksum_loop acc [] = acc"
| "checksum_loop acc (b # bs) = checksum_loop ((acc + ucast b) AND 0xFFFFFFFF) bs"

definition xsan_protocol_calculate_checksum :: "u8 list ptr \<Rightarrow> nat \<Rightarrow> u32" where
  "xsan_protocol_calculate_checksum data len =
     (case data of
        NULL \<Rightarrow> 0
      | Some bs \<Rightarrow> if len = 0 then 0 else checksum_loop 0 (take len bs))"

text \<open>The scratch buffer of the two callers: the header, then the payload if there is one;
  otherwise the tail is whatever the fresh block \<open>fresh\<close> held.\<close>

definition checksum_data_buf :: "u8 list \<Rightarrow> u8 list \<Rightarrow> u8 list ptr \<Rightarrow> nat \<Rightarrow> u8 list" where
  "checksum_data_buf fresh serialized pl len =
     serialized @
     (case pl of
        Some bs \<Rightarrow> if len > 0 then take len bs else []
      | NULL \<Rightarrow> drop XSAN_MESSAGE_HEADER_SIZE fresh)"

definition xsan_protocol_verify_checksum ::
  "byte_order \<Rightarrow> bool \<Rightarrow> u8 list \<Rightarrow> xsan_message_header ptr \<Rightarrow> u8 list ptr \<Rightarrow> bool" where
  "xsan_protocol_verify_checksum bo malloc_ok fresh hdr pl =
     (case hdr of
        NULL \<Rightarrow> False
      | Some h \<Rightarrow>
          if checksum h = 0 then True
          else
            (case xsan_protocol_header_serialize bo (Some (h\<lparr>checksum := 0\<rparr>)) True of
               (err, serialized) \<Rightarrow>
                 if err \<noteq> XSAN_OK then False
                 else if \<not> malloc_ok then False
                 else
                   (let data_to_checksum_len = XSAN_MESSAGE_HEADER_SIZE + unat (payload_length h);
                        buf = checksum_data_buf fresh serialized pl (unat (payload_length h))
                    in xsan_protocol_calculate_checksum (Some buf) data_to_checksum_len =
                       checksum h)))"

section \<open>Messages\<close>

text \<open>The common end of the two constructors: the checksum of the header and payload. \<open>cks_ok\<close>
  is the success of the scratch allocation, whose failure frees the message.\<close>

definition message_checksummed ::
  "byte_order \<Rightarrow> bool \<Rightarrow> u8 list \<Rightarrow> xsan_message \<Rightarrow> xsan_message ptr" where
  "message_checksummed bo cks_ok fresh msg =
     (case xsan_protocol_header_serialize bo (Some (header msg)) True of
        (err, serialized) \<Rightarrow>
          if err \<noteq> XSAN_OK then NULL
          else if \<not> cks_ok then NULL
          else
            (let len = unat (payload_length (header msg));
                 buf = checksum_data_buf fresh serialized (payload msg) len
             in Some (msg\<lparr>header := (header msg)\<lparr>checksum :=
                  xsan_protocol_calculate_checksum (Some buf) (XSAN_MESSAGE_HEADER_SIZE + len)\<rparr>\<rparr>)))"

text \<open>The three allocations: the message, its payload, the scratch buffer.\<close>

record malloc_results =
  msg_ok :: bool
  payload_ok :: bool
  cks_ok :: bool

definition xsan_protocol_message_create ::
  "byte_order \<Rightarrow> malloc_results \<Rightarrow> u8 list \<Rightarrow> xsan_message_type \<Rightarrow> u64 \<Rightarrow> u8 list ptr \<Rightarrow> u32
     \<Rightarrow> xsan_message ptr" where
  "xsan_protocol_message_create bo m fresh type tid payload_data len =
     (if unat len > XSAN_PROTOCOL_MAX_PAYLOAD_SIZE then NULL
      else if \<not> msg_ok m then NULL
      else
        (let h = xsan_protocol_header_init type len tid in
         if len > 0 then
           (if \<not> payload_ok m then NULL
            else message_checksummed bo (cks_ok m) fresh
              \<lparr>header = h,
               payload = Some (case payload_data of
                   Some bs \<Rightarrow> take (unat len) bs
                 | NULL \<Rightarrow> replicate (unat len) 0)\<rparr>)
         else message_checksummed bo (cks_ok m) fresh \<lparr>header = h, payload = NULL\<rparr>))"

text \<open>\<^verbatim>\<open>memcpy(buf + off, bs, n)\<close>.\<close>

definition copy_at :: "u8 list \<Rightarrow> nat \<Rightarrow> u8 list \<Rightarrow> u8 list" where
  "copy_at buf off bs = take off buf @ bs @ drop (off + length bs) buf"

text \<open>\<open>raw\<close> is what the fresh payload block holds.\<close>

definition xsan_protocol_message_create_with_data ::
  "byte_order \<Rightarrow> malloc_results \<Rightarrow> u8 list \<Rightarrow> u8 list \<Rightarrow> xsan_message_type \<Rightarrow> u64
     \<Rightarrow> u8 list ptr \<Rightarrow> u32 \<Rightarrow> u8 list ptr \<Rightarrow> u32 \<Rightarrow> xsan_message ptr" where
  "xsan_protocol_message_create_with_data bo m fresh raw type tid structured slen additional alen =
     (let total64 = (ucast slen + ucast alen :: u64) in
      if unat total64 > XSAN_PROTOCOL_MAX_PAYLOAD_SIZE then NULL
      else if \<not> msg_ok m then NULL
      else
        (let total = (ucast total64 :: u32);
             h = xsan_protocol_header_init type total tid
         in if total > 0 then
              (if \<not> payload_ok m then NULL
               else
                 (let (buf, off) =
                        (case structured of
                           Some bs \<Rightarrow>
                             if slen > 0 then (copy_at raw 0 (take (unat slen) bs), unat slen)
                             else (raw, 0)
                         | NULL \<Rightarrow> (raw, 0));
                      buf =
                        (case additional of
                           Some bs \<Rightarrow>
                             if alen > 0 then copy_at buf off (take (unat alen) bs) else buf
                         | NULL \<Rightarrow> buf)
                  in message_checksummed bo (cks_ok m) fresh \<lparr>header = h, payload = Some buf\<rparr>))
            else message_checksummed bo (cks_ok m) fresh \<lparr>header = h, payload = NULL\<rparr>))"

section \<open>The wire format\<close>

text \<open>The reference: all fields in network order, in the order of the structure.\<close>

definition header_wire :: "xsan_message_header \<Rightarrow> u8 list" where
  "header_wire h =
     be_bytes 4 (magic h) @ be_bytes 2 (msg_type h) @ be_bytes 2 (version h) @
     be_bytes 4 (payload_length h) @ be_bytes 8 (transaction_id h) @ be_bytes 4 (checksum h)"

text \<open>A header that the receiver accepts.\<close>

definition header_ok :: "xsan_message_header \<Rightarrow> bool" where
  "header_ok h \<longleftrightarrow> magic h = XSAN_PROTOCOL_MAGIC \<and>
     unat (payload_length h) \<le> XSAN_PROTOCOL_MAX_PAYLOAD_SIZE"

lemma length_header_wire [simp]: "length (header_wire h) = XSAN_MESSAGE_HEADER_SIZE"
  by (simp add: header_wire_def XSAN_MESSAGE_HEADER_SIZE_def)

lemma header_serialize_wire [simp]:
  "xsan_protocol_header_serialize bo (Some h) True = (XSAN_OK, header_wire h)"
  by (simp add: xsan_protocol_header_serialize_def header_wire_def Let_def)

text \<open>What the receiver reads at each offset of the wire image.\<close>

definition header_of_wire :: "u8 list \<Rightarrow> xsan_message_header" where
  "header_of_wire bs =
     \<lparr>magic = le_word (rev (take 4 bs)), msg_type = le_word (rev (take 2 (drop 4 bs))),
      version = le_word (rev (take 2 (drop 6 bs))),
      payload_length = le_word (rev (take 4 (drop 8 bs))),
      transaction_id = le_word (rev (take 8 (drop 12 bs))),
      checksum = le_word (rev (take 4 (drop 20 bs)))\<rparr>"

lemma header_deserialize_of_wire:
  assumes "XSAN_MESSAGE_HEADER_SIZE \<le> length bs"
  shows "header_ok (header_of_wire bs) \<Longrightarrow>
      xsan_protocol_header_deserialize bo (Some bs) h0 = (XSAN_OK, header_of_wire bs)"
    and "\<not> header_ok (header_of_wire bs) \<Longrightarrow>
      fst (xsan_protocol_header_deserialize bo (Some bs) h0) = XSAN_ERROR_INVALID_PARAM"
  using assms
  by (auto simp: xsan_protocol_header_deserialize_def header_of_wire_def header_ok_def
      XSAN_MESSAGE_HEADER_SIZE_def Let_def)

lemma header_of_wire_wire [simp]: "header_of_wire (header_wire h @ rest) = h"
  by (simp add: header_of_wire_def header_wire_def)

lemma header_wire_of_wire:
  assumes "XSAN_MESSAGE_HEADER_SIZE \<le> length bs"
  shows "header_wire (header_of_wire bs) = take XSAN_MESSAGE_HEADER_SIZE bs"
proof -
  have "take 24 bs = take 4 bs @ take 2 (drop 4 bs) @ take 2 (drop 6 bs) @ take 4 (drop 8 bs) @
      take 8 (drop 12 bs) @ take 4 (drop 20 bs)"
    using take_add [of 4 2 bs] take_add [of 6 2 bs] take_add [of 8 4 bs] take_add [of 12 8 bs]
      take_add [of 20 4 bs] by simp
  then show ?thesis
    using assms
    by (simp add: header_wire_def header_of_wire_def be_bytes_le_word_rev XSAN_MESSAGE_HEADER_SIZE_def)
qed

section \<open>The checksum as a number\<close>

lemma and_full_mask [simp]: "(w :: u32) AND 0xFFFFFFFF = w"
proof -
  have "(0xFFFFFFFF :: u32) = - 1" by simp
  then show ?thesis by (simp only: and.right_neutral)
qed

definition byte_sum :: "u8 list \<Rightarrow> nat" where
  "byte_sum bs = sum_list (map unat bs)"

lemma byte_sum_simps [simp]:
  "byte_sum [] = 0" "byte_sum (b # bs) = unat b + byte_sum bs"
  "byte_sum (bs @ cs) = byte_sum bs + byte_sum cs"
  by (simp_all add: byte_sum_def)

lemma byte_sum_bound: "byte_sum bs \<le> 255 * length bs"
proof (induction bs)
  case (Cons b bs)
  have "unat b < 256" using unsigned_less [of b] by simp
  with Cons show ?case by simp
qed simp

lemma checksum_loop_sum: "checksum_loop acc bs = acc + of_nat (byte_sum bs)"
  by (induction bs arbitrary: acc) simp_all

lemma byte_sum_update:
  "i < length bs \<Longrightarrow> byte_sum (bs[i := b]) + unat (bs ! i) = byte_sum bs + unat b"
  by (induction bs arbitrary: i) (auto simp: nth_Cons split: nat.splits)

lemma checksum_of_buf:
  "length bs = n \<Longrightarrow> xsan_protocol_calculate_checksum (Some bs) n = of_nat (byte_sum bs)"
  by (auto simp: xsan_protocol_calculate_checksum_def checksum_loop_sum)

lemma ucast_u8_u32_inj: "(ucast (a :: u8) :: u32) = ucast b \<longleftrightarrow> a = b"
proof
  assume eq: "(ucast a :: u32) = ucast b"
  have "bit a n = bit b n" if "n < 8" for n
    using that arg_cong [OF eq, of "\<lambda>w. bit w n"] by (simp add: bit_unsigned_iff)
  then show "a = b" by (auto intro: bit_word_eqI)
qed simp

text \<open>A message whose payload has the length that its header announces.\<close>

definition message_wf :: "xsan_message \<Rightarrow> bool" where
  "message_wf msg \<longleftrightarrow>
     (case payload msg of
        NULL \<Rightarrow> payload_length (header msg) = 0
      | Some p \<Rightarrow> length p = unat (payload_length (header msg)) \<and> p \<noteq> [])"

definition payload_bytes :: "xsan_message \<Rightarrow> u8 list" where
  "payload_bytes msg = (case payload msg of NULL \<Rightarrow> [] | Some p \<Rightarrow> p)"

lemma message_buf_sum:
  assumes "message_wf msg"
  shows "xsan_protocol_calculate_checksum
      (Some (checksum_data_buf fresh (header_wire h) (payload msg)
         (unat (payload_length (header msg)))))
      (XSAN_MESSAGE_HEADER_SIZE + unat (payload_length (header msg))) =
    of_nat (byte_sum (header_wire h) + byte_sum (payload_bytes msg))"
proof (cases "payload msg")
  case None
  with assms show ?thesis
    by (simp add: message_wf_def payload_bytes_def checksum_data_buf_def
        xsan_protocol_calculate_checksum_def checksum_loop_sum XSAN_MESSAGE_HEADER_SIZE_def)
next
  case (Some p)
  with assms have "checksum_data_buf fresh (header_wire h) (payload msg)
      (unat (payload_length (header msg))) = header_wire h @ p"
    by (auto simp: message_wf_def checksum_data_buf_def)
  with Some assms show ?thesis
    by (simp add: checksum_of_buf message_wf_def payload_bytes_def)
qed

lemma verify_checksum_iff:
  assumes "message_wf msg" "checksum (header msg) \<noteq> 0"
  shows "xsan_protocol_verify_checksum bo True fresh (Some (header msg)) (payload msg) \<longleftrightarrow>
    checksum (header msg) =
      of_nat (byte_sum (header_wire ((header msg)\<lparr>checksum := 0\<rparr>)) + byte_sum (payload_bytes msg))"
  using assms message_buf_sum [OF assms(1), of fresh "(header msg)\<lparr>checksum := 0\<rparr>"]
  by (auto simp: xsan_protocol_verify_checksum_def Let_def)

lemma message_checksummed_eq:
  assumes "message_wf msg"
  shows "message_checksummed bo ok fresh msg =
    (if ok then Some (msg\<lparr>header := (header msg)\<lparr>checksum :=
        of_nat (byte_sum (header_wire (header msg)) + byte_sum (payload_bytes msg))\<rparr>\<rparr>)
     else NULL)"
  using message_buf_sum [OF assms, of fresh "header msg"]
  by (simp add: message_checksummed_def Let_def)

text \<open>With a payload inside the limit the sum of the bytes stays below \<open>2 ^ 32\<close>, so the addition
  never wraps, and the bytes of the magic number keep it from being 0, the value that switches
  the check off.\<close>

lemma byte_sum_wire_positive:
  "magic h = XSAN_PROTOCOL_MAGIC \<Longrightarrow> 0 < byte_sum (header_wire h)"
  by (simp add: header_wire_def be_bytes_def le_bytes_def byte_sum_def XSAN_PROTOCOL_MAGIC_def
      upt_rec)

lemma message_sum_bounds:
  assumes "header_ok (header msg)" "message_wf msg"
  shows "0 < byte_sum (header_wire (header msg)) + byte_sum (payload_bytes msg)"
    and "byte_sum (header_wire (header msg)) + byte_sum (payload_bytes msg) < 2 ^ 32"
proof -
  have "length (payload_bytes msg) \<le> 16777216"
    using assms by (auto simp: header_ok_def message_wf_def payload_bytes_def
        XSAN_PROTOCOL_MAX_PAYLOAD_SIZE_def split: option.splits)
  moreover have "byte_sum (header_wire (header msg)) \<le> 255 * 24"
    using byte_sum_bound [of "header_wire (header msg)"]
    by (simp add: XSAN_MESSAGE_HEADER_SIZE_def)
  ultimately show "byte_sum (header_wire (header msg)) + byte_sum (payload_bytes msg) < 2 ^ 32"
    using byte_sum_bound [of "payload_bytes msg"] by simp
qed (use assms byte_sum_wire_positive in \<open>auto simp: header_ok_def\<close>)

lemma message_sum_nonzero:
  assumes "header_ok (header msg)" "message_wf msg"
  shows "(of_nat (byte_sum (header_wire (header msg)) + byte_sum (payload_bytes msg)) :: u32) \<noteq> 0"
proof
  assume "(of_nat (byte_sum (header_wire (header msg)) + byte_sum (payload_bytes msg)) :: u32) = 0"
  then have "2 ^ 32 dvd byte_sum (header_wire (header msg)) + byte_sum (payload_bytes msg)"
    by (simp only: word_of_nat_eq_0_iff) simp
  with message_sum_bounds [OF assms] show False by (auto dest: dvd_imp_le)
qed

text \<open>The two parts of a message with data, laid one after the other.\<close>

lemma unat_total64: "unat (ucast (a :: u32) + ucast (b :: u32) :: u64) = unat a + unat b"
proof -
  have lt: "unat a < 2 ^ 32" "unat b < 2 ^ 32"
    using unsigned_less [of a] unsigned_less [of b] by auto
  then have "unat (ucast a :: u64) = unat a" "unat (ucast b :: u64) = unat b"
    by (simp_all add: unsigned_ucast_eq take_bit_nat_eq_self)
  with lt show ?thesis by (simp add: unat_word_ariths)
qed

lemma unat_total32:
  assumes "unat a + unat b \<le> XSAN_PROTOCOL_MAX_PAYLOAD_SIZE"
  shows "unat (ucast (ucast (a :: u32) + ucast (b :: u32) :: u64) :: u32) = unat a + unat b"
  using assms
  by (simp add: unsigned_ucast_eq unat_total64 take_bit_nat_eq_self XSAN_PROTOCOL_MAX_PAYLOAD_SIZE_def)

lemma copy_at_0: "length bs \<le> length buf \<Longrightarrow> copy_at buf 0 bs = bs @ drop (length bs) buf"
  by (simp add: copy_at_def)

lemma copy_at_end:
  "length buf = n + length bs \<Longrightarrow> copy_at buf n bs = take n buf @ bs"
  by (simp add: copy_at_def)

lemma create_with_data_eq:
  assumes "unat slen \<le> length sbs" "unat alen \<le> length xbs" "length raw = unat slen + unat alen"
    and "unat slen + unat alen \<le> XSAN_PROTOCOL_MAX_PAYLOAD_SIZE"
    and "tot = ucast (ucast slen + ucast alen :: u64)"
  shows "xsan_protocol_message_create_with_data bo m fresh raw type tid (Some sbs) slen (Some xbs) alen =
    xsan_protocol_message_create bo m fresh type tid
      (Some (take (unat slen) sbs @ take (unat alen) xbs)) tot"
proof -
  have t: "unat tot = unat slen + unat alen" using assms(4,5) by (simp add: unat_total32)
  have buf: "copy_at (if slen > 0 then copy_at raw 0 (take (unat slen) sbs) else raw)
      (if slen > 0 then unat slen else 0) (take (unat alen) xbs) =
      take (unat slen) sbs @ take (unat alen) xbs"
    using assms(1-3) by (auto simp: copy_at_0 copy_at_end word_gt_0 unat_eq_zero)
  have buf0: "(if slen > 0 then copy_at raw 0 (take (unat slen) sbs) else raw) = take (unat slen) sbs"
    if "alen = 0" using that assms(1-3) by (auto simp: copy_at_0 word_gt_0)
  show ?thesis
    using buf buf0 assms(4) t
    by (simp add: xsan_protocol_message_create_with_data_def xsan_protocol_message_create_def
        Let_def unat_total64 flip: assms(5)) (auto simp: word_gt_0 split: if_splits)
qed

lemma be_bytes_magic: "be_bytes 4 XSAN_PROTOCOL_MAGIC = [0x58, 0x53, 0x41, 0x4E]"
  by (simp add: be_bytes_def le_bytes_def upt_rec XSAN_PROTOCOL_MAGIC_def)

text \<open>Creation, as one equation.\<close>

definition create_payload :: "u8 list ptr \<Rightarrow> u32 \<Rightarrow> u8 list ptr" where
  "create_payload data len =
     (if len = 0 then NULL
      else Some (case data of Some bs \<Rightarrow> take (unat len) bs | NULL \<Rightarrow> replicate (unat len) 0))"

lemma create_payload_wf:
  assumes "case data of NULL \<Rightarrow> True | Some bs \<Rightarrow> unat len \<le> length bs"
  shows "message_wf \<lparr>header = xsan_protocol_header_init type len tid, payload = create_payload data len\<rparr>"
  using assms
  by (auto simp: message_wf_def create_payload_def xsan_protocol_header_init_def unat_eq_zero
      split: option.splits)

lemma message_create_eq:
  "xsan_protocol_message_create bo m fresh type tid data len =
     (if unat len > XSAN_PROTOCOL_MAX_PAYLOAD_SIZE \<or> \<not> msg_ok m \<or> len \<noteq> 0 \<and> \<not> payload_ok m then NULL
      else message_checksummed bo (cks_ok m) fresh
        \<lparr>header = xsan_protocol_header_init type len tid, payload = create_payload data len\<rparr>)"
  by (auto simp: xsan_protocol_message_create_def create_payload_def Let_def word_gt_0)

lemma header_init_ok:
  "unat len \<le> XSAN_PROTOCOL_MAX_PAYLOAD_SIZE \<Longrightarrow> header_ok (xsan_protocol_header_init type len tid)"
  by (simp add: header_ok_def xsan_protocol_header_init_def)

lemma header_init_checksum_0 [simp]:
  "(xsan_protocol_header_init type len tid)\<lparr>checksum := 0\<rparr> = xsan_protocol_header_init type len tid"
  by (simp add: xsan_protocol_header_init_def)

text \<open>A fresh message, checksummed, passes the check of any receiver.\<close>

lemma checksummed_verifies:
  assumes wf: "message_wf \<lparr>header = xsan_protocol_header_init type len tid, payload = pl\<rparr>"
    and len: "unat len \<le> XSAN_PROTOCOL_MAX_PAYLOAD_SIZE"
    and msg: "message_checksummed bo True fresh
      \<lparr>header = xsan_protocol_header_init type len tid, payload = pl\<rparr> = Some msg"
  shows "message_wf msg" "payload msg = pl"
    and "header msg = (xsan_protocol_header_init type len tid)\<lparr>checksum := checksum (header msg)\<rparr>"
    and "checksum (header msg) \<noteq> 0"
    and "xsan_protocol_verify_checksum bo' True fresh' (Some (header msg)) (payload msg)"
proof -
  let ?m = "\<lparr>header = xsan_protocol_header_init type len tid, payload = pl\<rparr>"
  let ?c = "of_nat (byte_sum (header_wire (header ?m)) + byte_sum (payload_bytes ?m)) :: u32"
  have eq: "msg = ?m\<lparr>header := (header ?m)\<lparr>checksum := ?c\<rparr>\<rparr>"
    using msg message_checksummed_eq [OF wf, of bo True fresh] by simp
  show "message_wf msg" using wf by (simp add: eq message_wf_def split: option.splits)
  show "payload msg = pl" by (simp add: eq)
  show "header msg = (xsan_protocol_header_init type len tid)\<lparr>checksum := checksum (header msg)\<rparr>"
    by (simp add: eq)
  show c: "checksum (header msg) \<noteq> 0"
    using message_sum_nonzero [of ?m] header_init_ok [OF len] wf by (simp add: eq del: of_nat_add)
  show "xsan_protocol_verify_checksum bo' True fresh' (Some (header msg)) (payload msg)"
    using verify_checksum_iff [OF \<open>message_wf msg\<close> c] by (simp add: eq payload_bytes_def)
qed

section \<open>Properties\<close>

text \<open>on a host of either byte order the serialised header is the same
  \<open>24\<close> bytes, every field in network order and in the order of the structure, and a missing
  header or buffer is refused.\<close>

theorem header_wire_format:
  "xsan_protocol_header_serialize bo (Some h) True =
     (XSAN_OK,
      be_bytes 4 (magic h) @ be_bytes 2 (msg_type h) @ be_bytes 2 (version h) @
      be_bytes 4 (payload_length h) @ be_bytes 8 (transaction_id h) @ be_bytes 4 (checksum h)) \<and>
   length (snd (xsan_protocol_header_serialize bo (Some h) True)) = 24 \<and>
   xsan_protocol_header_serialize bo NULL b = (XSAN_ERROR_INVALID_PARAM, []) \<and>
   xsan_protocol_header_serialize bo (Some h) False = (XSAN_ERROR_INVALID_PARAM, [])"
  by (simp add: header_wire_def [symmetric] XSAN_MESSAGE_HEADER_SIZE_def)
    (simp add: xsan_protocol_header_serialize_def)

text \<open>C32: a header with the magic number and a payload length within the limit,
  sent by a host of one byte order, is read back unchanged by a host of any byte order, whatever
  follows it in the stream and whatever the receiver's structure held before.\<close>

theorem header_round_trip:
  assumes "magic h = XSAN_PROTOCOL_MAGIC"
    and "unat (payload_length h) \<le> XSAN_PROTOCOL_MAX_PAYLOAD_SIZE"
  shows "xsan_protocol_header_deserialize bo'
    (Some (snd (xsan_protocol_header_serialize bo (Some h) True) @ rest)) h0 = (XSAN_OK, h)"
proof -
  have "header_ok (header_of_wire (header_wire h @ rest))"
    using assms by (simp add: header_ok_def)
  then show ?thesis by (simp add: header_deserialize_of_wire(1))
qed

theorem header_round_trip_witness:
  "xsan_protocol_header_deserialize BIG_ENDIAN
    (Some (snd (xsan_protocol_header_serialize LITTLE_ENDIAN
       (Some (xsan_protocol_header_init XSAN_MSG_TYPE_HEARTBEAT 5 77)) True) @ [1, 2]))
    (xsan_protocol_header_init 0 0 0) =
   (XSAN_OK, xsan_protocol_header_init XSAN_MSG_TYPE_HEARTBEAT 5 77)"
  by (rule header_round_trip)
    (simp_all add: xsan_protocol_header_init_def XSAN_PROTOCOL_MAX_PAYLOAD_SIZE_def)

text \<open>C33: the receiver accepts a block of bytes exactly when its first four
  bytes are the magic number and the length field is within the limit, and an accepted header
  serialises to the very bytes it was read from; every other block is refused with
  \<open>XSAN_ERROR_INVALID_PARAM\<close>.\<close>

theorem header_accepts_only_wire:
  assumes "24 \<le> length bs"
  shows "fst (xsan_protocol_header_deserialize bo (Some bs) h0) =
      (if take 4 bs = [0x58, 0x53, 0x41, 0x4E] \<and>
          unat (le_word (rev (take 4 (drop 8 bs))) :: u32) \<le> 16777216
       then XSAN_OK else XSAN_ERROR_INVALID_PARAM) \<and>
    (fst (xsan_protocol_header_deserialize bo (Some bs) h0) = XSAN_OK \<longrightarrow>
       snd (xsan_protocol_header_serialize bo'
         (Some (snd (xsan_protocol_header_deserialize bo (Some bs) h0))) True) = take 24 bs)"
proof -
  have len: "XSAN_MESSAGE_HEADER_SIZE \<le> length bs"
    using assms by (simp add: XSAN_MESSAGE_HEADER_SIZE_def)
  have "take 4 bs = [0x58, 0x53, 0x41, 0x4E] \<longleftrightarrow>
      be_bytes 4 (le_word (rev (take 4 bs)) :: u32) = be_bytes 4 XSAN_PROTOCOL_MAGIC"
    using assms be_bytes_magic by (simp only: be_bytes_le_word_rev) (simp add: be_bytes_le_word_rev)
  also have "\<dots> \<longleftrightarrow> (le_word (rev (take 4 bs)) :: u32) = XSAN_PROTOCOL_MAGIC"
    by (rule be_bytes_inj) simp
  finally have "take 4 bs = [0x58, 0x53, 0x41, 0x4E] \<longleftrightarrow>
      (le_word (rev (take 4 bs)) :: u32) = XSAN_PROTOCOL_MAGIC" .
  then have iff: "header_ok (header_of_wire bs) \<longleftrightarrow> take 4 bs = [0x58, 0x53, 0x41, 0x4E] \<and>
      unat (le_word (rev (take 4 (drop 8 bs))) :: u32) \<le> 16777216"
    by (simp add: header_ok_def header_of_wire_def XSAN_PROTOCOL_MAX_PAYLOAD_SIZE_def)
  show ?thesis
    using header_deserialize_of_wire [OF len, of bo h0] header_wire_of_wire [OF len]
    by (cases "header_ok (header_of_wire bs)")
      (simp_all add: iff [symmetric] XSAN_MESSAGE_HEADER_SIZE_def)
qed

theorem header_accepts_only_wire_witness:
  "fst (xsan_protocol_header_deserialize LITTLE_ENDIAN (Some (replicate 24 0))
      (xsan_protocol_header_init 0 0 0)) = XSAN_ERROR_INVALID_PARAM"
  using header_accepts_only_wire [of "replicate 24 0" LITTLE_ENDIAN "xsan_protocol_header_init 0 0 0"]
  by simp

text \<open>C34: \<^verbatim>\<open>xsan_protocol_message_create\<close> gives a message exactly when the
  length is within the limit and its allocations succeed; the message carries the type, the
  transaction and the payload it was given (zeroes for a null payload), and passes
  \<^verbatim>\<open>xsan_protocol_verify_checksum\<close> on every host with a checksum that is never 0, the value that
  would switch the check off.\<close>

theorem message_create_verifies:
  assumes "case data of NULL \<Rightarrow> True | Some bs \<Rightarrow> unat len \<le> length bs"
  shows "(xsan_protocol_message_create bo m fresh type tid data len \<noteq> NULL \<longleftrightarrow>
       unat len \<le> 16777216 \<and> msg_ok m \<and> (len \<noteq> 0 \<longrightarrow> payload_ok m) \<and> cks_ok m) \<and>
    (\<forall>msg. xsan_protocol_message_create bo m fresh type tid data len = Some msg \<longrightarrow>
       msg_type (header msg) = ucast type \<and> transaction_id (header msg) = tid \<and>
       payload_length (header msg) = len \<and>
       payload msg = (if len = 0 then NULL else Some (case data of
         Some bs \<Rightarrow> take (unat len) bs | NULL \<Rightarrow> replicate (unat len) 0)) \<and>
       checksum (header msg) \<noteq> 0 \<and>
       xsan_protocol_verify_checksum bo' True fresh' (Some (header msg)) (payload msg))"
proof -
  note wf = create_payload_wf [OF assms, of type tid]
  show ?thesis
  proof (intro conjI allI impI)
    show "xsan_protocol_message_create bo m fresh type tid data len \<noteq> NULL \<longleftrightarrow>
       unat len \<le> 16777216 \<and> msg_ok m \<and> (len \<noteq> 0 \<longrightarrow> payload_ok m) \<and> cks_ok m"
      by (auto simp: message_create_eq message_checksummed_eq [OF wf]
          XSAN_PROTOCOL_MAX_PAYLOAD_SIZE_def)
  next
    fix msg assume msg: "xsan_protocol_message_create bo m fresh type tid data len = Some msg"
    then have len: "unat len \<le> XSAN_PROTOCOL_MAX_PAYLOAD_SIZE"
      and c: "message_checksummed bo True fresh
        \<lparr>header = xsan_protocol_header_init type len tid, payload = create_payload data len\<rparr> = Some msg"
      by (auto simp: message_create_eq message_checksummed_eq [OF wf] split: if_splits)
    note v = checksummed_verifies [OF wf len c]
    show "msg_type (header msg) = ucast type" "transaction_id (header msg) = tid"
      "payload_length (header msg) = len"
      by (subst v(3), simp add: xsan_protocol_header_init_def)+
    show "payload msg = (if len = 0 then NULL else Some (case data of
         Some bs \<Rightarrow> take (unat len) bs | NULL \<Rightarrow> replicate (unat len) 0))"
      using v(2) by (simp add: create_payload_def)
    show "checksum (header msg) \<noteq> 0" by (rule v(4))
    show "xsan_protocol_verify_checksum bo' True fresh' (Some (header msg)) (payload msg)"
      by (rule v(5))
  qed
qed

theorem message_create_verifies_witness:
  "\<exists>msg. xsan_protocol_message_create LITTLE_ENDIAN \<lparr>msg_ok = True, payload_ok = True, cks_ok = True\<rparr> []
      XSAN_MSG_TYPE_HEARTBEAT 9 (Some [1, 2, 3, 4]) 3 = Some msg \<and> payload msg = Some [1, 2, 3] \<and>
    xsan_protocol_verify_checksum BIG_ENDIAN True [] (Some (header msg)) (payload msg)"
  using message_create_verifies [where data = "Some [1, 2, 3, 4]" and len = 3 and bo = LITTLE_ENDIAN
      and m = "\<lparr>msg_ok = True, payload_ok = True, cks_ok = True\<rparr>" and fresh = "[]"
      and type = XSAN_MSG_TYPE_HEARTBEAT and tid = 9 and bo' = BIG_ENDIAN and fresh' = "[]"]
  by auto

text \<open>C35: changing any one byte of the payload of a message that carries a
  correct checksum makes \<^verbatim>\<open>xsan_protocol_verify_checksum\<close> fail, on every host.\<close>

theorem corruption_detected:
  assumes "message_wf msg" "checksum (header msg) \<noteq> 0" "payload msg = Some p"
    and "xsan_protocol_verify_checksum bo True fresh (Some (header msg)) (payload msg)"
    and "i < length p" "b \<noteq> p ! i"
  shows "\<not> xsan_protocol_verify_checksum bo' malloc_ok fresh' (Some (header msg)) (Some (p[i := b]))"
proof
  assume v: "xsan_protocol_verify_checksum bo' malloc_ok fresh' (Some (header msg)) (Some (p[i := b]))"
  let ?h = "byte_sum (header_wire ((header msg)\<lparr>checksum := 0\<rparr>))"
  let ?msg' = "msg\<lparr>payload := Some (p[i := b])\<rparr>"
  have wf': "message_wf ?msg'" using assms(1,3) by (simp add: message_wf_def)
  have "malloc_ok" using v assms(2) by (cases malloc_ok) (simp_all add: xsan_protocol_verify_checksum_def)
  then have "checksum (header msg) = of_nat (?h + byte_sum (p[i := b]))"
    using verify_checksum_iff [OF wf', of bo' fresh'] v assms(2) by (simp add: payload_bytes_def)
  moreover have "checksum (header msg) = of_nat (?h + byte_sum p)"
    using verify_checksum_iff [OF assms(1,2)] assms(3,4) by (simp add: payload_bytes_def)
  ultimately have "(of_nat (byte_sum (p[i := b])) :: u32) = of_nat (byte_sum p)" by simp
  moreover have "(of_nat (byte_sum (p[i := b])) :: u32) + ucast (p ! i) = of_nat (byte_sum p) + ucast b"
    using arg_cong [OF byte_sum_update [OF assms(5), of b], of "of_nat :: nat \<Rightarrow> u32"] by simp
  ultimately have "(ucast (p ! i) :: u32) = ucast b" by simp
  with assms(6) show False by (simp add: ucast_u8_u32_inj)
qed

theorem corruption_detected_witness:
  "\<not> xsan_protocol_verify_checksum LITTLE_ENDIAN True []
      (Some ((xsan_protocol_header_init XSAN_MSG_TYPE_HEARTBEAT 2 0)\<lparr>checksum := 325\<rparr>)) (Some [3, 5])"
  using corruption_detected [of "\<lparr>header = (xsan_protocol_header_init XSAN_MSG_TYPE_HEARTBEAT 2 0)\<lparr>checksum := 325\<rparr>,
      payload = Some [3, 4]\<rparr>" "[3, 4]" LITTLE_ENDIAN "[]" 1 5 LITTLE_ENDIAN True "[]"]
    verify_checksum_iff [of "\<lparr>header = (xsan_protocol_header_init XSAN_MSG_TYPE_HEARTBEAT 2 0)\<lparr>checksum := 325\<rparr>,
      payload = Some [3, 4]\<rparr>" LITTLE_ENDIAN "[]"]
  by (simp add: message_wf_def payload_bytes_def header_wire_def be_bytes_def le_bytes_def upt_rec
      xsan_protocol_header_init_def XSAN_PROTOCOL_MAGIC_def XSAN_PROTOCOL_VERSION_def)

text \<open>\<^verbatim>\<open>xsan_protocol_message_create_with_data\<close> refuses two parts that are
  too long together (their lengths are added at 64 bits, so no wrap hides an excess), and
  otherwise builds the same message as \<^verbatim>\<open>xsan_protocol_message_create\<close> does from the two parts
  one after the other, whatever the fresh memory held.\<close>

theorem message_with_data:
  assumes "unat slen \<le> length sbs" "unat alen \<le> length xbs" "length raw = unat slen + unat alen"
  shows "xsan_protocol_message_create_with_data bo m fresh raw type tid (Some sbs) slen (Some xbs) alen =
    (if unat slen + unat alen > XSAN_PROTOCOL_MAX_PAYLOAD_SIZE then NULL
     else xsan_protocol_message_create bo m fresh type tid
       (Some (take (unat slen) sbs @ take (unat alen) xbs)) (slen + alen))"
proof (cases "unat slen + unat alen > XSAN_PROTOCOL_MAX_PAYLOAD_SIZE")
  case True
  then show ?thesis
    by (simp add: xsan_protocol_message_create_with_data_def Let_def unat_total64)
next
  case False
  have "slen + alen = ucast (ucast slen + ucast alen :: u64)"
    using False unat_total32 [of slen alen]
    by (simp add: word_unat_eq_iff unat_word_ariths XSAN_PROTOCOL_MAX_PAYLOAD_SIZE_def)
  with False assms show ?thesis by (simp add: create_with_data_eq)
qed

theorem message_with_data_witness:
  "\<exists>msg. xsan_protocol_message_create_with_data LITTLE_ENDIAN
      \<lparr>msg_ok = True, payload_ok = True, cks_ok = True\<rparr> [] [9, 9, 9] 600 1 (Some [1, 2]) 2 (Some [7]) 1 =
      Some msg \<and> payload msg = Some [1, 2, 7]"
  using message_with_data [of 2 "[1, 2]" 1 "[7]" "[9, 9, 9]"]
  by (simp add: message_create_eq XSAN_PROTOCOL_MAX_PAYLOAD_SIZE_def message_checksummed_def
      create_payload_def Let_def)

text \<open>The header as a codec between hosts of any two byte orders.\<close>

definition header_dec :: "byte_order \<Rightarrow> xsan_message_header \<Rightarrow> u8 list \<Rightarrow> xsan_message_header option" where
  "header_dec bo h0 bs =
     (case xsan_protocol_header_deserialize bo (Some bs) h0 of
        (e, h) \<Rightarrow> if e = XSAN_OK then Some h else None)"

interpretation header_codec: codec header_ok
  "\<lambda>h. snd (xsan_protocol_header_serialize bo (Some h) True)" "header_dec bo' h0" for bo bo' h0
proof
  fix h assume "header_ok h"
  then show "header_dec bo' h0 (snd (xsan_protocol_header_serialize bo (Some h) True)) = Some h"
    using header_deserialize_of_wire(1) [of "header_wire h" bo' h0] header_of_wire_wire [of h "[]"]
    by (simp add: header_dec_def)
qed

end
