(* ===== verification/NodeComm.thy ===== *)
theory NodeComm
  imports Protocol
begin

text \<open>
  src/network/xsan\_node\_comm.c: the message transport between nodes. Modelled are the table of
  message handlers, the reception of a byte stream on a connection with the growth of its buffer
  and the framing of messages, and the sending of a message.

  The socket layer is SPDK: what \<^verbatim>\<open>spdk_sock_recv\<close> and \<^verbatim>\<open>spdk_sock_writev\<close> return are inputs of
  the model. So are the outcomes of allocations. A dispatched message is an output of the model:
  the handler it goes to, and the message. What a handler leaves of its message is an input: the
  header makes the handler responsible for destroying it, while the loop reads the length of the
  message again after the handler has returned. A length that is read from a freed message is the
  outcome \<open>Fault\<close>.
\<close>

section \<open>State\<close>

definition XSAN_COMM_INITIAL_RECV_BUF_SIZE :: nat where
  "XSAN_COMM_INITIAL_RECV_BUF_SIZE = XSAN_MESSAGE_HEADER_SIZE + 4096"

text \<open>The connection context. \<open>recv_buf\<close> holds the \<^verbatim>\<open>recv_buf_len\<close> valid bytes of the buffer,
  which has \<open>recv_buf_capacity\<close> bytes; \<open>current_send_cb\<close> is the callback of a send that has not
  finished.\<close>

record 'h xsan_connection_ctx =
  recv_buf :: "u8 list"
  recv_buf_capacity :: nat
  partial_recv_header :: xsan_message_header
  header_fully_received :: bool
  app_msg_handler_cb :: "'h ptr"
  current_send_cb :: "'h ptr"

record 'h node_comm_ctx =
  module_initialized :: bool
  global_app_msg_handler_cb :: "'h ptr"
  specific_handlers :: "'h ptr list"

text \<open>A connection with nothing received, as \<^verbatim>\<open>_create_connection_ctx\<close> makes it; \<^verbatim>\<open>memset\<close>
  zeroes what is not set.\<close>

definition create_connection_ctx ::
  "bool \<Rightarrow> bool \<Rightarrow> bool \<Rightarrow> 'h ptr \<Rightarrow> 'h xsan_connection_ctx ptr" where
  "create_connection_ctx has_sock ctx_ok buf_ok handler =
     (if \<not> has_sock then NULL
      else if \<not> ctx_ok then NULL
      else if \<not> buf_ok then NULL
      else Some \<lparr>recv_buf = [], recv_buf_capacity = XSAN_COMM_INITIAL_RECV_BUF_SIZE,
                 partial_recv_header = \<lparr>magic = 0, msg_type = 0, version = 0, payload_length = 0,
                   transaction_id = 0, checksum = 0\<rparr>,
                 header_fully_received = False, app_msg_handler_cb = handler,
                 current_send_cb = NULL\<rparr>)"

section \<open>Handlers\<close>

definition xsan_node_comm_register_message_handler ::
  "'h node_comm_ctx \<Rightarrow> xsan_message_type \<Rightarrow> 'h ptr \<Rightarrow> xsan_error \<times> 'h node_comm_ctx" where
  "xsan_node_comm_register_message_handler g type handler =
     (if \<not> module_initialized g then (XSAN_ERROR_NOT_INITIALIZED, g)
      else if type \<le> 0 \<or> type \<ge> XSAN_MSG_TYPE_MAX then (XSAN_ERROR_INVALID_PARAM, g)
      else (XSAN_OK, g\<lparr>specific_handlers := (specific_handlers g)[unat type := handler]\<rparr>))"

datatype 'h dispatch = SpecificHandler 'h | GenericHandler 'h | Discarded

definition dispatch_message ::
  "'h node_comm_ctx \<Rightarrow> 'h ptr \<Rightarrow> xsan_message \<Rightarrow> 'h dispatch \<times> xsan_message" where
  "dispatch_message g app msg =
     (let type = (ucast (msg_type (header msg)) :: xsan_message_type) in
      (if type > 0 \<and> type < XSAN_MSG_TYPE_MAX \<and> specific_handlers g ! unat type \<noteq> NULL
       then SpecificHandler (the (specific_handlers g ! unat type))
       else case app of Some h \<Rightarrow> GenericHandler h | NULL \<Rightarrow> Discarded, msg))"

section \<open>Reception\<close>

text \<open>The environment of a reception: the host order, the handlers, the two allocations made for
  the \<open>n\<close>-th message, the reallocation of the buffer, and the message as a handler leaves it, which
  is nothing if the handler has freed it.\<close>

record 'h recv_env =
  host :: byte_order
  comm :: "'h node_comm_ctx"
  alloc :: "nat \<Rightarrow> bool \<times> bool"
  realloc_ok :: "nat \<Rightarrow> bool"
  after_handler :: "'h \<Rightarrow> xsan_message \<Rightarrow> xsan_message option"

text \<open>A message without a handler is destroyed where it is discarded.\<close>

definition after_dispatch :: "'h recv_env \<Rightarrow> 'h dispatch \<times> xsan_message \<Rightarrow> xsan_message option" where
  "after_dispatch E d =
     (case fst d of
        SpecificHandler h \<Rightarrow> after_handler E h (snd d)
      | GenericHandler h \<Rightarrow> after_handler E h (snd d)
      | Discarded \<Rightarrow> None)"

datatype 'h conn_outcome =
    Open "'h xsan_connection_ctx"
  | ClosedByPeer
  | ClosedOnError
  | Fault

text \<open>The first half of the inner loop's body: read a header if none is pending.\<close>

datatype 'c phase = Break | Close | Go 'c

definition header_phase ::
  "byte_order \<Rightarrow> 'h xsan_connection_ctx \<Rightarrow> 'h xsan_connection_ctx phase" where
  "header_phase bo c =
     (if \<not> header_fully_received c then
        (if XSAN_MESSAGE_HEADER_SIZE \<le> length (recv_buf c) then
           (case xsan_protocol_header_deserialize bo (Some (recv_buf c)) (partial_recv_header c) of
              (err_hdr, h) \<Rightarrow>
                if err_hdr \<noteq> XSAN_OK then Close
                else if magic h \<noteq> XSAN_PROTOCOL_MAGIC then Close
                else if unat (payload_length h) > XSAN_PROTOCOL_MAX_PAYLOAD_SIZE then Close
                else Go (c\<lparr>partial_recv_header := h, header_fully_received := True,
                           recv_buf := drop XSAN_MESSAGE_HEADER_SIZE (recv_buf c)\<rparr>))
         else Break)
      else Go c)"

lemma header_phase_Go:
  "header_phase bo c = Go c1 \<Longrightarrow>
     header_fully_received c1 \<and>
     (c1 = c \<or> length (recv_buf c1) < length (recv_buf c) \<and> \<not> header_fully_received c) \<and>
     length (recv_buf c1) \<le> length (recv_buf c) \<and>
     recv_buf_capacity c1 = recv_buf_capacity c"
  by (auto simp: header_phase_def XSAN_MESSAGE_HEADER_SIZE_def split: if_splits prod.splits)

text \<open>The inner loop: frame and dispatch the messages that are complete in the buffer.\<close>

function process_buffer ::
  "'h recv_env \<Rightarrow> nat \<Rightarrow> 'h xsan_connection_ctx
     \<Rightarrow> 'h conn_outcome \<times> ('h dispatch \<times> xsan_message) list" where
  "process_buffer E n c =
     (if recv_buf c = [] then (Open c, [])
      else case header_phase (host E) c of
        Break \<Rightarrow> (Open c, [])
      | Close \<Rightarrow> (ClosedOnError, [])
      | Go c1 \<Rightarrow>
          (let h = partial_recv_header c1; len = unat (payload_length h) in
           if len \<le> length (recv_buf c1) then
             (if \<not> fst (alloc E n) then (ClosedOnError, [])
              else if len > 0 \<and> \<not> snd (alloc E n) then (ClosedOnError, [])
              else
                (let msg = \<lparr>header = h,
                            payload = (if len > 0 then Some (take len (recv_buf c1)) else NULL)\<rparr>;
                     d = dispatch_message (comm E) (app_msg_handler_cb c1) msg
                 in case after_dispatch E d of
                      None \<Rightarrow> (Fault, [d])
                    | Some msg' \<Rightarrow>
                        (let k = unat (payload_length (header msg')) in
                         if k > length (recv_buf c1) then (Fault, [d])
                         else
                           (let (r, ds) = process_buffer E (n + 1)
                                  (c1\<lparr>recv_buf := drop k (recv_buf c1), header_fully_received := False\<rparr>)
                            in (r, d # ds)))))
           else (Open c1, [])))"
  by pat_completeness auto

termination
  by (relation "measure (\<lambda>(E, n, c). 2 * length (recv_buf c) + of_bool (header_fully_received c))")
    (auto dest!: header_phase_Go)

text \<open>The outer loop: make room, receive, process.\<close>

datatype recv_result = RecvData "u8 list" | RecvEof | RecvError int

abbreviation (input) EAGAIN :: int where "EAGAIN \<equiv> 11"

definition grow_recv_buf ::
  "'h recv_env \<Rightarrow> 'h xsan_connection_ctx \<Rightarrow> 'h xsan_connection_ctx option" where
  "grow_recv_buf E c =
     (if length (recv_buf c) = recv_buf_capacity c then
        (let new_capacity = (if recv_buf_capacity c > 0 then recv_buf_capacity c * 2
                             else XSAN_COMM_INITIAL_RECV_BUF_SIZE)
         in if new_capacity > XSAN_PROTOCOL_MAX_PAYLOAD_SIZE + XSAN_MESSAGE_HEADER_SIZE + 4096
            then None
            else if \<not> realloc_ok E new_capacity then None
            else Some (c\<lparr>recv_buf_capacity := new_capacity\<rparr>))
      else Some c)"

text \<open>The list is what the calls of \<^verbatim>\<open>spdk_sock_recv\<close> return, in order.\<close>

fun process_received_data ::
  "'h recv_env \<Rightarrow> nat \<Rightarrow> recv_result list \<Rightarrow> 'h xsan_connection_ctx
     \<Rightarrow> 'h conn_outcome \<times> ('h dispatch \<times> xsan_message) list" where
  "process_received_data E n [] c = (Open c, [])"
| "process_received_data E n (r # rs) c =
     (case grow_recv_buf E c of
        None \<Rightarrow> (ClosedOnError, [])
      | Some c1 \<Rightarrow>
          (case r of
             RecvData bs \<Rightarrow>
               (case process_buffer E n (c1\<lparr>recv_buf := recv_buf c1 @ bs\<rparr>) of
                  (Open c2, ds) \<Rightarrow>
                    (let (out, ds') = process_received_data E (n + length ds) rs c2
                     in (out, ds @ ds'))
                | (out, ds) \<Rightarrow> (out, ds))
           | RecvEof \<Rightarrow> (ClosedByPeer, [])
           | RecvError e \<Rightarrow> if e = EAGAIN then (Open c1, []) else (ClosedOnError, [])))"

text \<open>What the socket layer promises of a successful receive: at least one byte, and no more than
  the room it was given.\<close>

fun recv_obeys ::
  "'h recv_env \<Rightarrow> nat \<Rightarrow> recv_result list \<Rightarrow> 'h xsan_connection_ctx \<Rightarrow> bool" where
  "recv_obeys E n [] c = True"
| "recv_obeys E n (r # rs) c =
     (case grow_recv_buf E c of
        None \<Rightarrow> True
      | Some c1 \<Rightarrow>
          (case r of
             RecvData bs \<Rightarrow>
               bs \<noteq> [] \<and> length (recv_buf c1) + length bs \<le> recv_buf_capacity c1 \<and>
               (case process_buffer E n (c1\<lparr>recv_buf := recv_buf c1 @ bs\<rparr>) of
                  (Open c2, ds) \<Rightarrow> recv_obeys E (n + length ds) rs c2
                | _ \<Rightarrow> True)
           | _ \<Rightarrow> True))"

section \<open>Connecting\<close>

datatype connect_result = Connect_started | Connect_failed int

text \<open>The second part of the result is the status that the callback was called with, without a socket, if it
  was. A connection that was started has nobody who would call it.\<close>

definition xsan_node_comm_connect ::
  "'h node_comm_ctx \<Rightarrow> bool \<Rightarrow> bool \<Rightarrow> string ptr \<Rightarrow> u16 \<Rightarrow> bool \<Rightarrow> (string \<Rightarrow> u16 \<Rightarrow> connect_result)
     \<Rightarrow> xsan_error \<times> int option" where
  "xsan_node_comm_connect g spdk_thread malloc_ok target_ip target_port has_cb connect_ext =
     (if \<not> module_initialized g then (XSAN_ERROR_GENERIC, None)
      else case target_ip of
        NULL \<Rightarrow> (XSAN_ERROR_INVALID_PARAM, None)
      | Some ip \<Rightarrow>
          if target_port = 0 \<or> \<not> has_cb then (XSAN_ERROR_INVALID_PARAM, None)
          else if \<not> spdk_thread then (XSAN_ERROR_THREAD_CONTEXT, None)
          else if \<not> malloc_ok then (XSAN_ERROR_NO_MEMORY, None)
          else
            (case connect_ext ip target_port of
               Connect_failed err_no \<Rightarrow> (xsan_error_from_errno err_no, Some (- err_no))
             | Connect_started \<Rightarrow> (XSAN_OK, None)))"

section \<open>Sending\<close>

datatype writev_result = Written nat | WriteError int

record send_result =
  send_status :: xsan_error
  iov_bytes :: "u8 list"
  cb_status :: "int option"

text \<open>\<open>has_cb\<close> is the callback given; \<open>bound\<close> says that the socket's argument is this
  connection. \<open>cb_status\<close> is the status the callback was called with, if it was.\<close>

definition xsan_node_comm_send_msg ::
  "byte_order \<Rightarrow> 'h node_comm_ctx \<Rightarrow> bool \<Rightarrow> bool \<Rightarrow> 'h xsan_connection_ctx \<Rightarrow> bool \<Rightarrow>
     xsan_message ptr \<Rightarrow> 'h ptr \<Rightarrow> (u8 list \<Rightarrow> writev_result) \<Rightarrow>
     send_result \<times> 'h xsan_connection_ctx" where
  "xsan_node_comm_send_msg bo g has_sock spdk_thread c bound msg cb writev =
     (let fail = (\<lambda>e. (\<lparr>send_status = e, iov_bytes = [], cb_status = None\<rparr>, c)) in
      if \<not> module_initialized g then fail XSAN_ERROR_GENERIC
      else case msg of
        NULL \<Rightarrow> fail XSAN_ERROR_INVALID_PARAM
      | Some m \<Rightarrow>
          if \<not> has_sock then fail XSAN_ERROR_INVALID_PARAM
          else if \<not> spdk_thread then fail XSAN_ERROR_THREAD_CONTEXT
          else if \<not> bound then fail XSAN_ERROR_INVALID_PARAM
          else if current_send_cb c \<noteq> NULL then fail XSAN_ERROR_BUSY
          else
            (case xsan_protocol_header_serialize bo (Some (header m)) True of
               (err, header_buf) \<Rightarrow>
                 if err \<noteq> XSAN_OK then fail XSAN_ERROR_GENERIC
                 else
                   (let iov = header_buf @
                          (case payload m of
                             Some p \<Rightarrow>
                               if payload_length (header m) > 0
                               then take (unat (payload_length (header m))) p else []
                           | NULL \<Rightarrow> [])
                    in case writev iov of
                         WriteError e \<Rightarrow>
                           (\<lparr>send_status = xsan_error_from_errno e, iov_bytes = iov,
                             cb_status = (if cb \<noteq> NULL then Some (- e) else None)\<rparr>, c)
                       | Written k \<Rightarrow>
                           if k < length iov then
                             (\<lparr>send_status = XSAN_OK, iov_bytes = iov, cb_status = None\<rparr>,
                              c\<lparr>current_send_cb := cb\<rparr>)
                           else
                             (\<lparr>send_status = XSAN_OK, iov_bytes = iov,
                               cb_status = (if cb \<noteq> NULL then Some 0 else None)\<rparr>, c))))"

section \<open>Framing\<close>

declare process_buffer.simps [simp del]

text \<open>A message on the wire, and the bytes of the stream that a connection holds: its pending
  header, taken out of the buffer, and the buffer.\<close>

definition message_wire :: "xsan_message \<Rightarrow> u8 list" where
  "message_wire m = header_wire (header m) @ payload_bytes m"

definition sendable :: "xsan_message \<Rightarrow> bool" where
  "sendable m \<longleftrightarrow> header_ok (header m) \<and> message_wf m"

definition pending :: "'h xsan_connection_ctx \<Rightarrow> u8 list" where
  "pending c =
     (if header_fully_received c then header_wire (partial_recv_header c) else []) @ recv_buf c"

text \<open>No complete message is left in the buffer.\<close>

definition drained :: "'h xsan_connection_ctx \<Rightarrow> bool" where
  "drained c \<longleftrightarrow>
     (if header_fully_received c
      then length (recv_buf c) < unat (payload_length (partial_recv_header c))
      else length (recv_buf c) < XSAN_MESSAGE_HEADER_SIZE)"

text \<open>Allocations succeed, and a handler that keeps a message does not change its length.\<close>

definition good_env :: "'h recv_env \<Rightarrow> bool" where
  "good_env E \<longleftrightarrow> (\<forall>n. alloc E n = (True, True)) \<and> (\<forall>n. realloc_ok E n) \<and>
     (\<forall>h m m'. after_handler E h m = Some m' \<longrightarrow> payload_length (header m') = payload_length (header m))"

definition kept :: "'h recv_env \<Rightarrow> 'h dispatch \<times> xsan_message \<Rightarrow> bool" where
  "kept E d \<longleftrightarrow> after_dispatch E d \<noteq> None"

lemma after_dispatch_length:
  "good_env E \<Longrightarrow> after_dispatch E d = Some m' \<Longrightarrow> payload_length (header m') = payload_length (header (snd d))"
  by (auto simp: good_env_def after_dispatch_def split: dispatch.splits)

lemma dispatch_message_snd [simp]: "snd (dispatch_message g app m) = m"
  by (simp add: dispatch_message_def Let_def)

lemma length_payload_bytes:
  "message_wf m \<Longrightarrow> length (payload_bytes m) = unat (payload_length (header m))"
  by (auto simp: message_wf_def payload_bytes_def split: option.splits)

lemma message_of_parts:
  assumes "message_wf m"
  shows "\<lparr>header = header m,
      payload = (if 0 < unat (payload_length (header m)) then Some (payload_bytes m) else NULL)\<rparr> = m"
  using assms
  by (cases m) (auto simp: message_wf_def payload_bytes_def simp flip: length_greater_0_conv
      split: option.splits)

lemma header_wire_not_Nil [simp]: "header_wire h \<noteq> []"
  using length_header_wire [of h] by (auto simp: XSAN_MESSAGE_HEADER_SIZE_def simp del: length_header_wire)

lemma header_wire_append_inj:
  "header_wire h @ xs = header_wire h' @ ys \<longleftrightarrow> h = h' \<and> xs = ys"
  by (metis append_eq_append_conv header_of_wire_wire length_header_wire)

text \<open>A stream that begins with a header begins with the message of that header.\<close>

lemma stream_header:
  assumes "header_wire h @ xs = concat (map message_wire todo)"
  obtains m todo' where "todo = m # todo'" "header m = h"
    "xs = payload_bytes m @ concat (map message_wire todo')"
proof (cases todo)
  case Nil
  with assms have "length (header_wire h) = 0" by (simp del: length_header_wire)
  then show ?thesis by (simp add: XSAN_MESSAGE_HEADER_SIZE_def)
next
  case (Cons m todo')
  with assms that show ?thesis by (simp add: message_wire_def header_wire_append_inj)
qed

lemma stream_long:
  assumes "xs @ rest = concat (map message_wire todo)" "XSAN_MESSAGE_HEADER_SIZE \<le> length xs"
  obtains m todo' where "todo = m # todo'" "xs = header_wire (header m) @ drop XSAN_MESSAGE_HEADER_SIZE xs"
proof (cases todo)
  case Nil
  with assms show ?thesis by (simp add: XSAN_MESSAGE_HEADER_SIZE_def)
next
  case (Cons m todo')
  with assms have "take XSAN_MESSAGE_HEADER_SIZE (xs @ rest) = header_wire (header m)"
    by (simp add: message_wire_def)
  with assms(2) Cons that show ?thesis by (metis append_take_drop_id take_append diff_is_0_eq take0 append_Nil2)
qed

lemma header_phase_stream:
  assumes stream: "pending c @ rest = concat (map message_wire todo)"
    and ok: "\<forall>m\<in>set todo. sendable m"
    and long: "header_fully_received c \<or> XSAN_MESSAGE_HEADER_SIZE \<le> length (recv_buf c)"
  obtains c1 m todo' where "header_phase bo c = Go c1" "todo = m # todo'"
    "header_fully_received c1" "partial_recv_header c1 = header m"
    "recv_buf c1 @ rest = payload_bytes m @ concat (map message_wire todo')"
    "pending c1 = pending c" "recv_buf_capacity c1 = recv_buf_capacity c"
    "app_msg_handler_cb c1 = app_msg_handler_cb c"
proof (cases "header_fully_received c")
  case True
  then have "header_wire (partial_recv_header c) @ recv_buf c @ rest = concat (map message_wire todo)"
    using stream by (simp add: pending_def)
  then obtain m todo' where "todo = m # todo'" "header m = partial_recv_header c"
    "recv_buf c @ rest = payload_bytes m @ concat (map message_wire todo')"
    by (rule stream_header)
  with True show ?thesis by (intro that [of c m todo']) (simp_all add: header_phase_def)
next
  case False
  with long stream obtain m todo' where m: "todo = m # todo'"
    and buf: "recv_buf c = header_wire (header m) @ drop XSAN_MESSAGE_HEADER_SIZE (recv_buf c)"
    by (auto simp: pending_def elim: stream_long)
  let ?c1 = "c\<lparr>partial_recv_header := header m, header_fully_received := True,
    recv_buf := drop XSAN_MESSAGE_HEADER_SIZE (recv_buf c)\<rparr>"
  have hok: "header_ok (header m)" using ok m by (simp add: sendable_def)
  then have "xsan_protocol_header_deserialize bo (Some (recv_buf c)) (partial_recv_header c) =
      (XSAN_OK, header m)"
    using False long
    by (metis buf header_deserialize_of_wire(1) header_of_wire_wire)
  with False long hok have "header_phase bo c = Go ?c1"
    by (simp add: header_phase_def header_ok_def)
  moreover have "pending ?c1 = pending c" using False buf by (simp add: pending_def)
  moreover have "recv_buf ?c1 @ rest = payload_bytes m @ concat (map message_wire todo')"
  proof -
    have "recv_buf c @ rest =
        header_wire (header m) @ payload_bytes m @ concat (map message_wire todo')"
      using stream False m by (simp add: pending_def message_wire_def)
    from arg_cong [OF this, of "drop XSAN_MESSAGE_HEADER_SIZE"] show ?thesis
      using False long by simp
  qed
  ultimately show ?thesis using m by (intro that [of ?c1 m todo']) simp_all
qed

text \<open>One round of the inner loop: it stops with an incomplete message, or takes one message off
  the stream.\<close>

definition live :: "'h xsan_connection_ctx \<Rightarrow> bool" where
  "live c \<longleftrightarrow> (header_fully_received c \<longrightarrow> 0 < unat (payload_length (partial_recv_header c)))"

definition same_conn :: "'h xsan_connection_ctx \<Rightarrow> 'h xsan_connection_ctx \<Rightarrow> bool" where
  "same_conn c c' \<longleftrightarrow> recv_buf_capacity c' = recv_buf_capacity c \<and>
     app_msg_handler_cb c' = app_msg_handler_cb c \<and> length (recv_buf c') \<le> length (recv_buf c)"

lemma drained_live: "drained c \<Longrightarrow> live c"
  by (auto simp: drained_def live_def)

lemma process_buffer_round:
  assumes env: "good_env E" and stream: "pending c @ rest = concat (map message_wire todo)"
    and ok: "\<forall>m\<in>set todo. sendable m" and live: "live c"
  obtains (stop) c' where "process_buffer E n c = (Open c', [])" "drained c'"
      "pending c' = pending c" "same_conn c c'"
    | (message) m todo' c2 where "todo = m # todo'" "length (recv_buf c2) < length (recv_buf c)"
      "kept E (dispatch_message (comm E) (app_msg_handler_cb c) m)"
      "process_buffer E n c = (let (r, ds) = process_buffer E (n + 1) c2 in
         (r, dispatch_message (comm E) (app_msg_handler_cb c) m # ds))"
      "pending c2 @ rest = concat (map message_wire todo')" "live c2" "same_conn c c2"
    | (freed) m todo' where "todo = m # todo'" "\<not> kept E (dispatch_message (comm E) (app_msg_handler_cb c) m)"
      "process_buffer E n c = (Fault, [dispatch_message (comm E) (app_msg_handler_cb c) m])"
proof (cases "recv_buf c = [] \<or> \<not> header_fully_received c \<and> length (recv_buf c) < XSAN_MESSAGE_HEADER_SIZE")
  case True
  then have "process_buffer E n c = (Open c, [])"
    by (subst process_buffer.simps) (auto simp: header_phase_def)
  moreover have "drained c" using True live
    by (auto simp: drained_def live_def XSAN_MESSAGE_HEADER_SIZE_def)
  ultimately show ?thesis by (intro stop [of c]) (simp_all add: same_conn_def)
next
  case False
  then have long: "header_fully_received c \<or> XSAN_MESSAGE_HEADER_SIZE \<le> length (recv_buf c)"
    by auto
  obtain c1 m todo' where c1: "header_phase (host E) c = Go c1" "todo = m # todo'"
    "header_fully_received c1" "partial_recv_header c1 = header m"
    and buf: "recv_buf c1 @ rest = payload_bytes m @ concat (map message_wire todo')"
    and same: "pending c1 = pending c" "recv_buf_capacity c1 = recv_buf_capacity c"
    "app_msg_handler_cb c1 = app_msg_handler_cb c"
    by (rule header_phase_stream [OF stream ok long])
  note shrink = header_phase_Go [OF c1(1)]
  have wf: "message_wf m" using ok c1(2) by (simp add: sendable_def)
  let ?len = "unat (payload_length (header m))"
  show ?thesis
  proof (cases "?len \<le> length (recv_buf c1)")
    case incomplete: False
    then have "process_buffer E n c = (Open c1, [])"
      using c1 False by (subst process_buffer.simps) simp
    moreover have "drained c1" using incomplete c1 by (simp add: drained_def)
    ultimately show ?thesis using same shrink by (intro stop [of c1]) (auto simp: same_conn_def)
  next
    case True
    let ?c2 = "c1\<lparr>recv_buf := drop ?len (recv_buf c1), header_fully_received := False\<rparr>"
    let ?d = "dispatch_message (comm E) (app_msg_handler_cb c) m"
    have cut: "take ?len (recv_buf c1) = payload_bytes m"
      "drop ?len (recv_buf c1) @ rest = concat (map message_wire todo')"
      using arg_cong [OF buf, of "take ?len"] arg_cong [OF buf, of "drop ?len"] True
      by (simp_all add: length_payload_bytes [OF wf])
    have unfolded: "process_buffer E n c =
        (case after_dispatch E ?d of
           None \<Rightarrow> (Fault, [?d])
         | Some msg' \<Rightarrow>
             (let k = unat (payload_length (header msg')) in
              if k > length (recv_buf c1) then (Fault, [?d])
              else (let (r, ds) = process_buffer E (n + 1)
                          (c1\<lparr>recv_buf := drop k (recv_buf c1), header_fully_received := False\<rparr>) in (r, ?d # ds))))"
      using c1 False True env same message_of_parts [OF wf, folded cut(1)]
      by (subst process_buffer.simps) (simp add: good_env_def Let_def split del: if_split)
    show ?thesis
    proof (cases "after_dispatch E ?d")
      case None
      with unfolded show ?thesis by (intro freed [OF c1(2)]) (simp_all add: kept_def)
    next
      case (Some msg')
      with after_dispatch_length [OF env this] unfolded True
      have "process_buffer E n c = (let (r, ds) = process_buffer E (n + 1) ?c2 in (r, ?d # ds))" by simp
      moreover have "length (recv_buf ?c2) < length (recv_buf c)"
        using shrink live c1(3,4) False by (auto simp: live_def)
      ultimately show ?thesis
        using c1(2) cut(2) same shrink Some
        by (intro message [of m todo' ?c2]) (auto simp: pending_def live_def same_conn_def kept_def)
    qed
  qed
qed

text \<open>The inner loop takes the complete messages off the stream, in order, and stops with an
  incomplete one or with a message that is gone after it was handled.\<close>

definition faults_at :: "'h recv_env \<Rightarrow> 'h ptr \<Rightarrow> xsan_message list
    \<Rightarrow> 'h conn_outcome \<times> ('h dispatch \<times> xsan_message) list \<Rightarrow> bool" where
  "faults_at E app todo out \<longleftrightarrow>
     (\<exists>dn m todo'. todo = dn @ m # todo' \<and> list_all (kept E) (map (dispatch_message (comm E) app) dn) \<and>
        \<not> kept E (dispatch_message (comm E) app m) \<and> out = (Fault, map (dispatch_message (comm E) app) (dn @ [m])))"

lemma faults_at_append:
  assumes "list_all (kept E) (map (dispatch_message (comm E) app) dn)" "faults_at E app todo (r, ds)"
  shows "faults_at E app (dn @ todo) (r, map (dispatch_message (comm E) app) dn @ ds)"
proof -
  obtain dn' m todo' where "todo = dn' @ m # todo'" "list_all (kept E) (map (dispatch_message (comm E) app) dn')"
      "\<not> kept E (dispatch_message (comm E) app m)" "(r, ds) = (Fault, map (dispatch_message (comm E) app) (dn' @ [m]))"
    using assms(2) by (auto simp: faults_at_def)
  with assms(1) show ?thesis
    unfolding faults_at_def by (intro exI [of _ "dn @ dn'"] exI [of _ m] exI [of _ todo']) simp
qed

lemma process_buffer_stream:
  assumes "good_env E" "pending c @ rest = concat (map message_wire todo)"
    and "\<forall>m\<in>set todo. sendable m" "live c"
  shows "(\<exists>dn todo' c'. todo = dn @ todo' \<and>
      list_all (kept E) (map (dispatch_message (comm E) (app_msg_handler_cb c)) dn) \<and>
      process_buffer E n c = (Open c', map (dispatch_message (comm E) (app_msg_handler_cb c)) dn) \<and>
      pending c' @ rest = concat (map message_wire todo') \<and> drained c' \<and> same_conn c c') \<or>
    faults_at E (app_msg_handler_cb c) todo (process_buffer E n c)"
  using assms(2-)
proof (induction "length (recv_buf c)" arbitrary: c n todo rule: less_induct)
  case less
  from assms(1) less.prems show ?case
  proof (cases rule: process_buffer_round [where n = n])
    case (stop c')
    with less.prems(1) show ?thesis by (intro disjI1 exI [of _ "[]"] exI [of _ todo] exI [of _ c']) simp
  next
    case (freed m todo')
    then show ?thesis unfolding faults_at_def by (intro disjI2 exI [of _ "[]"]) auto
  next
    case (message m todo' c2)
    have app: "app_msg_handler_cb c2 = app_msg_handler_cb c" using message by (simp add: same_conn_def)
    have ok: "\<forall>m\<in>set todo'. sendable m" using less.prems(2) message(1) by simp
    from less.hyps [OF message(2) message(5) ok message(6), of "n + 1"] show ?thesis
    proof (elim disjE exE conjE)
      fix dn todo'' c'
      assume "todo' = dn @ todo''" "list_all (kept E) (map (dispatch_message (comm E) (app_msg_handler_cb c2)) dn)"
        "process_buffer E (n + 1) c2 = (Open c', map (dispatch_message (comm E) (app_msg_handler_cb c2)) dn)"
        "pending c' @ rest = concat (map message_wire todo'')" "drained c'" "same_conn c2 c'"
      with message app show ?thesis
        by (intro disjI1 exI [of _ "m # dn"] exI [of _ todo''] exI [of _ c']) (auto simp: same_conn_def)
    next
      assume "faults_at E (app_msg_handler_cb c2) todo' (process_buffer E (n + 1) c2)"
      then show ?thesis
        using faults_at_append [of E "app_msg_handler_cb c" "[m]" todo'] message(1,3,4) app
        by (cases "process_buffer E (n + 1) c2") simp
    qed
  qed
qed

section \<open>The whole reception\<close>

text \<open>The capacities that doubling reaches from the initial one without passing the limit: the
  last is \<open>4120 * 2 ^ 11 = 8437760\<close>.\<close>

definition XSAN_COMM_MAX_REACHED_BUF :: nat where
  "XSAN_COMM_MAX_REACHED_BUF = 8437760"

definition capacity_ok :: "nat \<Rightarrow> bool" where
  "capacity_ok cap \<longleftrightarrow> (\<exists>k\<le>11. cap = XSAN_COMM_INITIAL_RECV_BUF_SIZE * 2 ^ k)"

lemma capacity_ok_bound: "capacity_ok cap \<Longrightarrow> cap \<le> XSAN_COMM_MAX_REACHED_BUF"
proof -
  assume "capacity_ok cap"
  then obtain k where k: "k \<le> 11" "cap = 4120 * 2 ^ k"
    by (auto simp: capacity_ok_def XSAN_COMM_INITIAL_RECV_BUF_SIZE_def XSAN_MESSAGE_HEADER_SIZE_def)
  have "(2 :: nat) ^ k \<le> 2 ^ 11" using k(1) by (intro power_increasing) simp_all
  then show ?thesis using k(2) by (simp add: XSAN_COMM_MAX_REACHED_BUF_def)
qed

lemma capacity_ok_double:
  assumes "capacity_ok cap" "cap < XSAN_COMM_MAX_REACHED_BUF"
  shows "capacity_ok (cap * 2)"
proof -
  obtain k where k: "k \<le> 11" "cap = XSAN_COMM_INITIAL_RECV_BUF_SIZE * 2 ^ k"
    using assms(1) by (auto simp: capacity_ok_def)
  have "k \<noteq> 11"
    using assms(2) k(2)
    by (auto simp: XSAN_COMM_INITIAL_RECV_BUF_SIZE_def XSAN_MESSAGE_HEADER_SIZE_def
        XSAN_COMM_MAX_REACHED_BUF_def)
  with k show ?thesis unfolding capacity_ok_def by (intro exI [of _ "Suc k"]) simp
qed

lemma capacity_ok_positive: "capacity_ok cap \<Longrightarrow> 0 < cap"
  by (auto simp: capacity_ok_def XSAN_COMM_INITIAL_RECV_BUF_SIZE_def)

text \<open>A buffer that is not full at its largest size can always be made room in.\<close>

lemma grow_ok:
  assumes "good_env E" "capacity_ok (recv_buf_capacity c)"
    and "length (recv_buf c) \<le> recv_buf_capacity c"
    and "length (recv_buf c) < XSAN_COMM_MAX_REACHED_BUF"
  obtains cap where "grow_recv_buf E c = Some (c\<lparr>recv_buf_capacity := cap\<rparr>)" "capacity_ok cap"
proof (cases "length (recv_buf c) = recv_buf_capacity c")
  case True
  have d: "capacity_ok (recv_buf_capacity c * 2)"
    using True assms(2,4) by (intro capacity_ok_double) simp_all
  then have "grow_recv_buf E c = Some (c\<lparr>recv_buf_capacity := recv_buf_capacity c * 2\<rparr>)"
    using True assms(1) capacity_ok_positive [OF assms(2)] capacity_ok_bound [OF d]
    by (auto simp: grow_recv_buf_def good_env_def Let_def XSAN_COMM_MAX_REACHED_BUF_def
        XSAN_PROTOCOL_MAX_PAYLOAD_SIZE_def)
  with d that show ?thesis by blast
next
  case False
  then have "grow_recv_buf E c = Some (c\<lparr>recv_buf_capacity := recv_buf_capacity c\<rparr>)"
    by (simp add: grow_recv_buf_def)
  with assms(2) that show ?thesis by blast
qed

text \<open>What is left of the buffer is less than a message, so messages up to the largest buffer
  never fill it.\<close>

definition receivable :: "xsan_message \<Rightarrow> bool" where
  "receivable m \<longleftrightarrow> sendable m \<and> unat (payload_length (header m)) \<le> XSAN_COMM_MAX_REACHED_BUF"

lemma drained_room:
  assumes "drained c" "pending c @ rest = concat (map message_wire todo)"
    and "\<forall>m\<in>set todo. receivable m"
  shows "length (recv_buf c) < XSAN_COMM_MAX_REACHED_BUF"
proof (cases "header_fully_received c")
  case True
  then have "header_wire (partial_recv_header c) @ recv_buf c @ rest = concat (map message_wire todo)"
    using assms(2) by (simp add: pending_def)
  then obtain m todo' where "todo = m # todo'" "header m = partial_recv_header c"
    by (rule stream_header)
  with True assms(1,3) show ?thesis by (auto simp: drained_def receivable_def)
next
  case False
  with assms(1) show ?thesis
    by (simp add: drained_def XSAN_MESSAGE_HEADER_SIZE_def XSAN_COMM_MAX_REACHED_BUF_def)
qed

text \<open>A drained connection whose stream is over holds nothing.\<close>

lemma drained_end:
  assumes "drained c" "pending c = concat (map message_wire todo)" "\<forall>m\<in>set todo. sendable m"
  shows "todo = [] \<and> recv_buf c = [] \<and> \<not> header_fully_received c"
proof (cases todo)
  case Nil
  with assms(2) have "length (pending c) = 0" by simp
  then show ?thesis using Nil by (auto simp: pending_def split: if_splits)
next
  case (Cons m todo')
  have wf: "message_wf m" using assms(3) Cons by (simp add: sendable_def)
  have "length (pending c) = XSAN_MESSAGE_HEADER_SIZE + length (payload_bytes m) +
      length (concat (map message_wire todo'))"
    using assms(2) Cons by (simp add: message_wire_def)
  moreover have "header_fully_received c \<Longrightarrow> partial_recv_header c = header m"
    using assms(2) Cons by (auto simp: pending_def message_wire_def header_wire_append_inj)
  ultimately have False
    using assms(1) length_payload_bytes [OF wf]
    by (auto simp: drained_def pending_def split: if_splits)
  then show ?thesis ..
qed

lemma process_received_stream:
  assumes "good_env E" "recv_obeys E n (map RecvData chunks) c"
    and "pending c @ concat chunks = concat (map message_wire todo)"
    and "\<forall>m\<in>set todo. receivable m"
    and "drained c" "capacity_ok (recv_buf_capacity c)" "length (recv_buf c) \<le> recv_buf_capacity c"
  shows "list_all (kept E) (map (dispatch_message (comm E) (app_msg_handler_cb c)) todo) \<and>
      (\<exists>c'. process_received_data E n (map RecvData chunks) c =
        (Open c', map (dispatch_message (comm E) (app_msg_handler_cb c)) todo) \<and>
       recv_buf c' = [] \<and> \<not> header_fully_received c') \<or>
    faults_at E (app_msg_handler_cb c) todo (process_received_data E n (map RecvData chunks) c)"
  using assms(2-)
proof (induction chunks arbitrary: n c todo)
  case Nil
  then show ?case using drained_end [of c todo] by (auto simp: receivable_def)
next
  case (Cons bs chunks)
  obtain cap where cap: "grow_recv_buf E c = Some (c\<lparr>recv_buf_capacity := cap\<rparr>)" "capacity_ok cap"
    using grow_ok [OF assms(1) Cons.prems(5,6) drained_room [OF Cons.prems(4,2,3)]] .
  let ?c = "c\<lparr>recv_buf_capacity := cap, recv_buf := recv_buf c @ bs\<rparr>"
  have room: "length (recv_buf ?c) \<le> cap" using Cons.prems(1) cap by simp
  have "pending ?c @ concat chunks = concat (map message_wire todo)"
    using Cons.prems(2) by (simp add: pending_def split: if_splits)
  moreover have "\<forall>m\<in>set todo. sendable m" "live ?c"
    using Cons.prems(3) drained_live [OF Cons.prems(4)] by (auto simp: receivable_def live_def)
  ultimately consider
      (more) dn todo' c2 where "todo = dn @ todo'"
        "list_all (kept E) (map (dispatch_message (comm E) (app_msg_handler_cb c)) dn)"
        "process_buffer E n ?c = (Open c2, map (dispatch_message (comm E) (app_msg_handler_cb c)) dn)"
        "pending c2 @ concat chunks = concat (map message_wire todo')" "drained c2" "same_conn ?c c2"
    | (fault) "faults_at E (app_msg_handler_cb c) todo (process_buffer E n ?c)"
    using process_buffer_stream [OF assms(1), of ?c "concat chunks" todo n] by auto
  then show ?case
  proof cases
    case fault
    then obtain ds where "process_buffer E n ?c = (Fault, ds)" by (auto simp: faults_at_def)
    with fault cap(1) show ?thesis by simp
  next
    case more
    have c2: "capacity_ok (recv_buf_capacity c2)" "length (recv_buf c2) \<le> recv_buf_capacity c2"
      "app_msg_handler_cb c2 = app_msg_handler_cb c"
      using more(6) cap(2) room by (simp_all add: same_conn_def)
    have rec: "recv_obeys E (n + length dn) (map RecvData chunks) c2" "\<forall>m\<in>set todo'. receivable m"
      using Cons.prems(1,3) cap(1) more(1,3) by simp_all
    have eq: "process_received_data E n (map RecvData (bs # chunks)) c =
        (let (out, ds') = process_received_data E (n + length dn) (map RecvData chunks) c2
         in (out, map (dispatch_message (comm E) (app_msg_handler_cb c)) dn @ ds'))"
      using cap(1) more(3) by simp
    show ?thesis
      using Cons.IH [OF rec(1) more(4) rec(2) more(5) c2(1,2)] eq more(1,2) c2(3)
        faults_at_append [OF more(2), of todo']
      by (cases "process_received_data E (n + length dn) (map RecvData chunks) c2") auto
  qed
qed

text \<open>A payload longer than the largest buffer never becomes complete.\<close>

lemma grow_capacity:
  assumes "grow_recv_buf E c = Some c1" "capacity_ok (recv_buf_capacity c)"
  shows "capacity_ok (recv_buf_capacity c1)" "c1 = c\<lparr>recv_buf_capacity := recv_buf_capacity c1\<rparr>"
proof -
  have "capacity_ok (recv_buf_capacity c * 2)"
    if "recv_buf_capacity c * 2 \<le> XSAN_PROTOCOL_MAX_PAYLOAD_SIZE + XSAN_MESSAGE_HEADER_SIZE + 4096"
  proof (rule capacity_ok_double [OF assms(2)])
    show "recv_buf_capacity c < XSAN_COMM_MAX_REACHED_BUF"
      using that by (simp add: XSAN_PROTOCOL_MAX_PAYLOAD_SIZE_def XSAN_MESSAGE_HEADER_SIZE_def
          XSAN_COMM_MAX_REACHED_BUF_def)
  qed
  with assms show "capacity_ok (recv_buf_capacity c1)"
    by (auto simp: grow_recv_buf_def Let_def dest: capacity_ok_positive split: if_splits)
  show "c1 = c\<lparr>recv_buf_capacity := recv_buf_capacity c1\<rparr>"
    using assms(1) by (auto simp: grow_recv_buf_def Let_def split: if_splits)
qed

definition oversize :: "xsan_message_header \<Rightarrow> bool" where
  "oversize h \<longleftrightarrow> header_ok h \<and> XSAN_COMM_MAX_REACHED_BUF < unat (payload_length h)"

lemma process_buffer_oversize:
  assumes "pending c @ ys = header_wire h @ rest" "oversize h"
    and "length (recv_buf c) \<le> XSAN_COMM_MAX_REACHED_BUF"
  shows "\<exists>c'. process_buffer E n c = (Open c', []) \<and> pending c' = pending c \<and>
    recv_buf_capacity c' = recv_buf_capacity c \<and> length (recv_buf c') \<le> length (recv_buf c)"
proof (cases "header_fully_received c")
  case True
  then have "partial_recv_header c = h" using assms(1) by (simp add: pending_def header_wire_append_inj)
  then have "process_buffer E n c = (Open c, [])"
    using True assms(2,3) by (subst process_buffer.simps) (simp add: header_phase_def oversize_def)
  then show ?thesis by blast
next
  case False
  then have buf: "recv_buf c @ ys = header_wire h @ rest" using assms(1) by (simp add: pending_def)
  show ?thesis
  proof (cases "XSAN_MESSAGE_HEADER_SIZE \<le> length (recv_buf c)")
    case short: False
    then have "process_buffer E n c = (Open c, [])"
      using False by (subst process_buffer.simps) (simp add: header_phase_def)
    then show ?thesis by blast
  next
    case long: True
    let ?c1 = "c\<lparr>partial_recv_header := h, header_fully_received := True,
      recv_buf := drop XSAN_MESSAGE_HEADER_SIZE (recv_buf c)\<rparr>"
    have wire: "take XSAN_MESSAGE_HEADER_SIZE (recv_buf c) = header_wire h"
      using arg_cong [OF buf, of "take XSAN_MESSAGE_HEADER_SIZE"] long by simp
    then have split: "recv_buf c = header_wire h @ drop XSAN_MESSAGE_HEADER_SIZE (recv_buf c)"
      by (metis append_take_drop_id)
    have "xsan_protocol_header_deserialize (host E) (Some (recv_buf c)) (partial_recv_header c) = (XSAN_OK, h)"
      using assms(2) long unfolding oversize_def
      by (metis split header_deserialize_of_wire(1) header_of_wire_wire)
    then have "header_phase (host E) c = Go ?c1"
      using False long assms(2) by (simp add: header_phase_def oversize_def header_ok_def)
    moreover have "recv_buf c \<noteq> []" using long by (auto simp: XSAN_MESSAGE_HEADER_SIZE_def)
    moreover have "\<not> unat (payload_length h) \<le> length (recv_buf ?c1)"
    proof -
      have "length (recv_buf ?c1) \<le> length (recv_buf c)" by simp
      with assms(2,3) show ?thesis unfolding oversize_def by linarith
    qed
    ultimately have "process_buffer E n c = (Open ?c1, [])"
      by (subst process_buffer.simps) (simp add: Let_def)
    moreover have "pending ?c1 = pending c" using False split by (simp add: pending_def)
    ultimately show ?thesis by (intro exI [of _ ?c1]) simp
  qed
qed

lemma oversize_run:
  assumes "oversize h" "pending c @ concat chunks = header_wire h @ rest" "recv_obeys E n (map RecvData chunks) c"
    and "capacity_ok (recv_buf_capacity c)" "length (recv_buf c) \<le> recv_buf_capacity c"
  shows "process_received_data E n (map RecvData chunks) c = (ClosedOnError, []) \<or>
    (\<exists>c'. process_received_data E n (map RecvData chunks) c = (Open c', []) \<and>
       pending c' = header_wire h @ rest \<and> length (recv_buf c') \<le> XSAN_COMM_MAX_REACHED_BUF)"
  using assms(2-)
proof (induction chunks arbitrary: n c)
  case Nil
  then show ?case using capacity_ok_bound [of "recv_buf_capacity c"] by simp
next
  case (Cons bs chunks)
  show ?case
  proof (cases "grow_recv_buf E c")
    case (Some c1)
    let ?c = "c1\<lparr>recv_buf := recv_buf c1 @ bs\<rparr>"
    note g = grow_capacity [OF Some Cons.prems(3)]
    have room: "length (recv_buf ?c) \<le> recv_buf_capacity c1" using Cons.prems(2) Some by simp
    have "recv_buf c1 = recv_buf c" "partial_recv_header c1 = partial_recv_header c"
      "header_fully_received c1 = header_fully_received c"
      by (subst g(2), simp)+
    then have "pending ?c = pending c @ bs" by (simp add: pending_def)
    then have st: "pending ?c @ concat chunks = header_wire h @ rest" using Cons.prems(1) by simp
    obtain c' where c': "process_buffer E n ?c = (Open c', [])" "pending c' = pending ?c"
        "recv_buf_capacity c' = recv_buf_capacity c1" "length (recv_buf c') \<le> length (recv_buf ?c)"
      using process_buffer_oversize [OF st assms(1), of E n] room capacity_ok_bound [OF g(1)] by auto
    then show ?thesis
      using Cons.IH [of c' n] Cons.prems(2) Some st room g(1) by (auto split: prod.splits)
  qed simp
qed

text \<open>The reception on a fresh connection, and its outcome as a list.\<close>

lemma fresh_framing:
  assumes "create_connection_ctx True True True handler = Some c"
    and "\<forall>m\<in>set msgs. header_ok (header m) \<and> message_wf m \<and> unat (payload_length (header m)) \<le> 8437760"
    and "concat chunks = concat (map (\<lambda>m. header_wire (header m) @ payload_bytes m) msgs)"
    and "recv_obeys E 0 (map RecvData chunks) c" and "good_env E"
  shows "list_all (kept E) (map (dispatch_message (comm E) handler) msgs) \<and>
      (\<exists>c'. process_received_data E 0 (map RecvData chunks) c = (Open c', map (dispatch_message (comm E) handler) msgs) \<and>
         recv_buf c' = [] \<and> \<not> header_fully_received c') \<or>
      faults_at E handler msgs (process_received_data E 0 (map RecvData chunks) c)"
proof -
  have c: "recv_buf c = []" "\<not> header_fully_received c" "app_msg_handler_cb c = handler"
    "recv_buf_capacity c = XSAN_COMM_INITIAL_RECV_BUF_SIZE"
    using assms(1) by (auto simp: create_connection_ctx_def)
  have "drained c" using c by (simp add: drained_def XSAN_MESSAGE_HEADER_SIZE_def)
  moreover have "capacity_ok (recv_buf_capacity c)"
    using c by (auto simp: capacity_ok_def intro!: exI [of _ 0])
  moreover have "\<forall>m\<in>set msgs. receivable m"
    using assms(2) by (simp add: receivable_def sendable_def XSAN_COMM_MAX_REACHED_BUF_def)
  moreover have "pending c @ concat chunks = concat (map message_wire msgs)"
    using assms(3) c by (simp add: pending_def message_wire_def [abs_def])
  ultimately show ?thesis
    using process_received_stream [of E 0 chunks c msgs] assms(4,5) c by simp
qed

lemma framing_outcome:
  assumes ds: "ds = map (dispatch_message (comm E) handler) msgs"
    and "list_all (kept E) ds \<and> (\<exists>c'. out = (Open c', ds) \<and> recv_buf c' = [] \<and> \<not> header_fully_received c') \<or>
      faults_at E handler msgs out"
  shows "if \<forall>d\<in>set ds. after_dispatch E d \<noteq> None
    then \<exists>c'. out = (Open c', ds) \<and> recv_buf c' = [] \<and> \<not> header_fully_received c'
    else out = (Fault, takeWhile (\<lambda>d. after_dispatch E d \<noteq> None) ds @ [hd (dropWhile (\<lambda>d. after_dispatch E d \<noteq> None) ds)])"
  using assms(2)
proof
  let ?D = "dispatch_message (comm E) handler"
  assume "faults_at E handler msgs out"
  then obtain dn m todo' where f: "msgs = dn @ m # todo'" "list_all (kept E) (map ?D dn)" "\<not> kept E (?D m)"
      "out = (Fault, map ?D (dn @ [m]))"
    by (auto simp: faults_at_def)
  then have "takeWhile (\<lambda>d. after_dispatch E d \<noteq> None) ds = map ?D dn"
    "dropWhile (\<lambda>d. after_dispatch E d \<noteq> None) ds = map ?D (m # todo')"
    using ds by (auto simp: kept_def list_all_iff takeWhile_append dropWhile_append)
  with f ds show ?thesis by (auto simp: kept_def)
qed (use ds in \<open>auto simp: kept_def list_all_iff\<close>)

section \<open>Properties\<close>

text \<open>C1: Whatever the sizes in which the bytes of a sequence of messages arrive, a fresh connection
  dispatches these messages, complete and in order, up to the first one that is freed when its handler
  returns. If none is, all are dispatched, and the connection is left with an empty buffer waiting for the
  next header. If one is, which is what the interface asks of every handler and what happens to a
  message without a handler, the loop reads the length of the freed message and faults there.
  Assumed: the socket layer returns no more than the room it is given, allocations succeed, a handler that
  keeps a message does not change its length, and no payload is longer than 8437760 bytes.\<close>

theorem stream_framing:
  assumes "create_connection_ctx True True True handler = Some c"
    and "\<forall>m\<in>set msgs. header_ok (header m) \<and> message_wf m \<and>
           unat (payload_length (header m)) \<le> 8437760"
    and "concat chunks = concat (map (\<lambda>m. header_wire (header m) @ payload_bytes m) msgs)"
    and "recv_obeys E 0 (map RecvData chunks) c"
    and "\<forall>n. alloc E n = (True, True)" "\<forall>n. realloc_ok E n"
    and "\<forall>h m m'. after_handler E h m = Some m' \<longrightarrow> payload_length (header m') = payload_length (header m)"
    and ds: "ds = map (dispatch_message (comm E) handler) msgs"
  shows "if \<forall>d\<in>set ds. after_dispatch E d \<noteq> None
    then \<exists>c'. process_received_data E 0 (map RecvData chunks) c = (Open c', ds) \<and>
      recv_buf c' = [] \<and> \<not> header_fully_received c'
    else process_received_data E 0 (map RecvData chunks) c =
      (Fault, takeWhile (\<lambda>d. after_dispatch E d \<noteq> None) ds @ [hd (dropWhile (\<lambda>d. after_dispatch E d \<noteq> None) ds)])"
proof -
  have "list_all (kept E) ds \<and>
      (\<exists>c'. process_received_data E 0 (map RecvData chunks) c = (Open c', ds) \<and>
         recv_buf c' = [] \<and> \<not> header_fully_received c') \<or>
      faults_at E handler msgs (process_received_data E 0 (map RecvData chunks) c)"
    using fresh_framing [OF assms(1-4)] assms(5-7) ds by (simp add: good_env_def)
  then show ?thesis using framing_outcome [OF ds] by blast
qed

text \<open>Two heartbeats, received in two pieces. The first handler keeps its messages; the second one destroys
  them.\<close>

definition sample_recv_env :: "string recv_env" where
  "sample_recv_env = \<lparr>host = LITTLE_ENDIAN,
     comm = \<lparr>module_initialized = True, global_app_msg_handler_cb = NULL,
       specific_handlers = replicate 604 NULL\<rparr>,
     alloc = (\<lambda>_. (True, True)), realloc_ok = (\<lambda>_. True),
     after_handler = (\<lambda>h m. if h = ''keep'' then Some m else None)\<rparr>"

definition sample_message :: xsan_message where
  "sample_message = \<lparr>header = xsan_protocol_header_init XSAN_MSG_TYPE_HEARTBEAT 0 5, payload = NULL\<rparr>"

lemma sample_message_ok:
  "header_ok (header sample_message)" "message_wf sample_message" "payload_bytes sample_message = []"
  "unat (payload_length (header sample_message)) \<le> 8437760"
  "dispatch_message (comm sample_recv_env) (Some h) sample_message = (GenericHandler h, sample_message)"
  by (simp_all add: sample_message_def header_ok_def message_wf_def xsan_protocol_header_init_def payload_bytes_def
      dispatch_message_def sample_recv_env_def)

lemma sample_recv_obeys:
  "recv_obeys sample_recv_env 0
     (map RecvData [take 10 (header_wire (header sample_message)), drop 10 (header_wire (header sample_message))])
     (the (create_connection_ctx True True True (Some h)))"
  by (simp add: create_connection_ctx_def grow_recv_buf_def process_buffer.simps header_phase_def
      XSAN_MESSAGE_HEADER_SIZE_def XSAN_COMM_INITIAL_RECV_BUF_SIZE_def split: prod.splits conn_outcome.splits)

theorem stream_framing_witness:
  "(\<exists>c'. process_received_data sample_recv_env 0
      (map RecvData [take 10 (header_wire (header sample_message)), drop 10 (header_wire (header sample_message))])
      (the (create_connection_ctx True True True (Some ''keep''))) =
    (Open c', [(GenericHandler ''keep'', sample_message)])) \<and>
   process_received_data sample_recv_env 0
      (map RecvData [take 10 (header_wire (header sample_message)), drop 10 (header_wire (header sample_message))])
      (the (create_connection_ctx True True True (Some ''app''))) =
    (Fault, [(GenericHandler ''app'', sample_message)])"
proof -
  let ?w = "header_wire (header sample_message)"
  let ?c = "\<lambda>h. the (create_connection_ctx True True True (Some h))"
  have c: "create_connection_ctx True True True (Some h) = Some (?c h)" for h :: string
    by (simp add: create_connection_ctx_def)
  have all: "\<forall>m\<in>set [sample_message]. header_ok (header m) \<and> message_wf m \<and> unat (payload_length (header m)) \<le> 8437760"
    by (simp add: sample_message_ok)
  have wire: "concat [take 10 ?w, drop 10 ?w] = concat (map (\<lambda>m. header_wire (header m) @ payload_bytes m) [sample_message])"
    by (simp add: sample_message_ok)
  have env: "\<forall>n. alloc sample_recv_env n = (True, True)" "\<forall>n. realloc_ok sample_recv_env n"
    "\<forall>h m m'. after_handler sample_recv_env h m = Some m' \<longrightarrow> payload_length (header m') = payload_length (header m)"
    by (simp_all add: sample_recv_env_def)
  have f: "after_dispatch sample_recv_env (GenericHandler ''keep'', sample_message) = Some sample_message"
    "after_dispatch sample_recv_env (GenericHandler ''app'', sample_message) = None"
    by (simp_all add: after_dispatch_def sample_recv_env_def)
  show ?thesis
    using stream_framing [OF c all wire sample_recv_obeys env refl, of "''keep''"]
      stream_framing [OF c all wire sample_recv_obeys env refl, of "''app''"]
    by (auto simp: sample_message_ok(5) f)
qed

text \<open>C36: A header with the magic number and a payload length above 8437760, up to the limit of 16777216 bytes,
  is accepted by the header check. But the receive buffer, grown by doubling from its initial size,
  stops at 8437760 bytes: on a fresh connection, whatever follows the header and in whatever pieces it
  arrives, nothing is ever dispatched, and when more than 8437760 bytes of the payload have arrived the
  connection has been closed as on an error.\<close>

theorem oversize_payload_stuck:
  assumes "create_connection_ctx True True True handler = Some c"
    and "magic h = XSAN_PROTOCOL_MAGIC" "8437760 < unat (payload_length h)" "unat (payload_length h) \<le> 16777216"
    and "concat chunks = header_wire h @ rest" "recv_obeys E 0 (map RecvData chunks) c"
  shows "xsan_protocol_header_deserialize (host E) (Some (header_wire h)) h0 = (XSAN_OK, h) \<and>
    (\<exists>out. process_received_data E 0 (map RecvData chunks) c = (out, []) \<and>
       (out = ClosedOnError \<or> (\<exists>c'. out = Open c')) \<and>
       (8437760 < length rest \<longrightarrow> out = ClosedOnError))"
proof -
  have c: "recv_buf c = []" "\<not> header_fully_received c" "recv_buf_capacity c = XSAN_COMM_INITIAL_RECV_BUF_SIZE"
    using assms(1) by (auto simp: create_connection_ctx_def)
  have ok: "header_ok h" using assms(2,4) by (simp add: header_ok_def XSAN_PROTOCOL_MAX_PAYLOAD_SIZE_def)
  then have big: "oversize h" using assms(3) by (simp add: oversize_def XSAN_COMM_MAX_REACHED_BUF_def)
  have cap: "capacity_ok (recv_buf_capacity c)" using c by (auto simp: capacity_ok_def intro!: exI [of _ 0])
  have st: "pending c @ concat chunks = header_wire h @ rest" using assms(5) c by (simp add: pending_def)
  have "length rest \<le> length (recv_buf c')" if "pending c' = header_wire h @ rest" for c' :: "'a xsan_connection_ctx"
    using arg_cong [OF that, of length] by (auto simp: pending_def split: if_splits)
  moreover have "process_received_data E 0 (map RecvData chunks) c = (ClosedOnError, []) \<or>
    (\<exists>c'. process_received_data E 0 (map RecvData chunks) c = (Open c', []) \<and>
       pending c' = header_wire h @ rest \<and> length (recv_buf c') \<le> XSAN_COMM_MAX_REACHED_BUF)"
    using oversize_run [OF big st assms(6) cap] c by simp
  moreover have "xsan_protocol_header_deserialize (host E) (Some (header_wire h)) h0 = (XSAN_OK, h)"
    using ok header_deserialize_of_wire(1) [of "header_wire h" "host E" h0] header_of_wire_wire [of h "[]"] by simp
  ultimately show ?thesis unfolding XSAN_COMM_MAX_REACHED_BUF_def by fastforce
qed

definition sample_oversize :: xsan_message_header where
  "sample_oversize = xsan_protocol_header_init XSAN_MSG_TYPE_HEARTBEAT 8437761 0"

theorem oversize_payload_stuck_witness:
  "xsan_protocol_header_deserialize LITTLE_ENDIAN (Some (header_wire sample_oversize)) sample_oversize =
     (XSAN_OK, sample_oversize) \<and>
   (\<exists>out. process_received_data sample_recv_env 0 (map RecvData [header_wire sample_oversize])
      (the (create_connection_ctx True True True (Some ''app''))) = (out, []))"
proof -
  let ?c = "the (create_connection_ctx True True True (Some ''app''))"
  have c: "create_connection_ctx True True True (Some ''app'') = Some ?c"
    by (simp add: create_connection_ctx_def)
  have h: "magic sample_oversize = XSAN_PROTOCOL_MAGIC" "8437760 < unat (payload_length sample_oversize)"
    "unat (payload_length sample_oversize) \<le> 16777216"
    by (simp_all add: sample_oversize_def xsan_protocol_header_init_def)
  have "recv_obeys sample_recv_env 0 (map RecvData [header_wire sample_oversize]) ?c"
    by (simp add: create_connection_ctx_def grow_recv_buf_def XSAN_MESSAGE_HEADER_SIZE_def
        XSAN_COMM_INITIAL_RECV_BUF_SIZE_def split: prod.splits conn_outcome.splits)
  from oversize_payload_stuck [OF c h _ this, of "[]" sample_oversize] show ?thesis
    by (auto simp: sample_recv_env_def)
qed

text \<open>a registration succeeds exactly on an initialised module and a type of the
  enumeration's range; it then receives every message of its type and changes where no other
  message goes; a registration that fails changes nothing.\<close>

theorem register_dispatch:
  assumes "length (specific_handlers g) = unat XSAN_MSG_TYPE_MAX"
    and "xsan_node_comm_register_message_handler g type (Some f) = (e, g')"
  shows "(e = XSAN_OK \<longleftrightarrow> module_initialized g \<and> 0 < type \<and> type < XSAN_MSG_TYPE_MAX) \<and>
    (e = XSAN_OK \<longrightarrow> dispatch_message g' app m =
       (if ucast (msg_type (header m)) = type then (SpecificHandler f, m)
        else dispatch_message g app m)) \<and>
    (e \<noteq> XSAN_OK \<longrightarrow> g' = g)"
proof (cases "module_initialized g \<and> 0 < type \<and> type < XSAN_MSG_TYPE_MAX")
  case True
  then have g': "e = XSAN_OK" "g' = g\<lparr>specific_handlers := (specific_handlers g)[unat type := Some f]\<rparr>"
    using assms(2) leD [of "XSAN_MSG_TYPE_MAX" type]
    by (auto simp: xsan_node_comm_register_message_handler_def split: if_splits)
  have lt: "unat type < 604" using True by (simp add: word_less_nat_alt)
  show ?thesis
  proof (cases "ucast (msg_type (header m)) = type")
    case same: True
    with True lt assms(1) g' show ?thesis by (simp add: dispatch_message_def)
  next
    case False
    then have "unat (ucast (msg_type (header m)) :: u32) \<noteq> unat type"
      by (simp add: word_unat_eq_iff)
    with True False g' show ?thesis by (auto simp: dispatch_message_def Let_def)
  qed
next
  case False
  then have "e \<noteq> XSAN_OK" "g' = g"
    using assms(2)
    by (auto simp: xsan_node_comm_register_message_handler_def not_less split: if_splits)
  with False show ?thesis by simp
qed

theorem register_dispatch_witness:
  "fst (dispatch_message
      (snd (xsan_node_comm_register_message_handler (comm sample_recv_env) 1 (Some ''hb'')))
      NULL sample_message) = SpecificHandler ''hb''"
  using register_dispatch [of "comm sample_recv_env" 1 "''hb''" _ _ NULL sample_message, OF _ prod.collapse [symmetric]]
  by (simp add: sample_recv_env_def sample_message_def xsan_protocol_header_init_def)

text \<open>A send that is refused writes nothing, does not call the callback and leaves the connection as it is.
  A send that is admitted hands the socket layer the header in wire format and the payload; it calls the
  callback with 0 when all of it is written, with the negative \<^verbatim>\<open>errno\<close> on an error, and when only a part
  is written it keeps the callback.\<close>

lemma send_refused:
  assumes "\<not> module_initialized g \<or> msg = NULL \<or> \<not> has_sock \<or> \<not> spdk_thread \<or> \<not> bound \<or> current_send_cb c \<noteq> NULL"
  shows "xsan_node_comm_send_msg bo g has_sock spdk_thread c bound msg cb writev =
    (\<lparr>send_status =
        (if \<not> module_initialized g then XSAN_ERROR_GENERIC
         else if msg = NULL \<or> \<not> has_sock then XSAN_ERROR_INVALID_PARAM
         else if \<not> spdk_thread then XSAN_ERROR_THREAD_CONTEXT
         else if \<not> bound then XSAN_ERROR_INVALID_PARAM
         else XSAN_ERROR_BUSY),
      iov_bytes = [], cb_status = None\<rparr>, c)"
  using assms by (cases msg) (auto simp: xsan_node_comm_send_msg_def Let_def)

lemma send_admitted:
  assumes "module_initialized g" "current_send_cb c = NULL" "message_wf m"
  shows "xsan_node_comm_send_msg bo g True True c True (Some m) cb writev =
    (case writev (message_wire m) of
       WriteError e \<Rightarrow>
         (\<lparr>send_status = xsan_error_from_errno e, iov_bytes = message_wire m,
           cb_status = (if cb \<noteq> NULL then Some (- e) else None)\<rparr>, c)
     | Written k \<Rightarrow>
         if k < length (message_wire m)
         then (\<lparr>send_status = XSAN_OK, iov_bytes = message_wire m, cb_status = None\<rparr>, c\<lparr>current_send_cb := cb\<rparr>)
         else (\<lparr>send_status = XSAN_OK, iov_bytes = message_wire m,
                cb_status = (if cb \<noteq> NULL then Some 0 else None)\<rparr>, c))"
proof -
  have "(case payload m of
      Some p \<Rightarrow> if payload_length (header m) > 0 then take (unat (payload_length (header m))) p else []
    | NULL \<Rightarrow> []) = payload_bytes m"
    using assms(3) by (auto simp: message_wf_def payload_bytes_def word_gt_0 split: option.splits)
  with assms(1,2) show ?thesis
    by (simp add: xsan_node_comm_send_msg_def message_wire_def Let_def split: writev_result.splits)
qed

text \<open>Messages sent one after the other on a connection; \<open>writevs\<close> is what the socket layer does with each.\<close>

fun send_all :: "byte_order \<Rightarrow> 'h node_comm_ctx \<Rightarrow> 'h ptr \<Rightarrow> (xsan_message \<times> (u8 list \<Rightarrow> writev_result)) list
    \<Rightarrow> 'h xsan_connection_ctx \<Rightarrow> send_result list \<times> 'h xsan_connection_ctx" where
  "send_all bo g cb [] s = ([], s)"
| "send_all bo g cb ((m, writev) # ms) s =
     (let (r, s) = xsan_node_comm_send_msg bo g True True s True (Some m) cb writev;
          (rs, s) = send_all bo g cb ms s
      in (r # rs, s))"

text \<open>The bytes that reach the peer: of each send as many as the socket layer has taken.\<close>

definition bytes_taken :: "(u8 list \<Rightarrow> writev_result) \<Rightarrow> send_result \<Rightarrow> u8 list" where
  "bytes_taken writev r = (case writev (iov_bytes r) of Written k \<Rightarrow> take k (iov_bytes r) | WriteError e \<Rightarrow> [])"

definition bytes_sent :: "(xsan_message \<times> (u8 list \<Rightarrow> writev_result)) list \<Rightarrow> send_result list \<Rightarrow> u8 list" where
  "bytes_sent ms rs = concat (map2 (\<lambda>m r. bytes_taken (snd m) r) ms rs)"

definition taken_whole :: "xsan_message \<times> (u8 list \<Rightarrow> writev_result) \<Rightarrow> bool" where
  "taken_whole mw \<longleftrightarrow> snd mw (message_wire (fst mw)) = Written (length (message_wire (fst mw)))"

definition refused_whole :: "xsan_message \<times> (u8 list \<Rightarrow> writev_result) \<Rightarrow> bool" where
  "refused_whole mw \<longleftrightarrow> (\<exists>e. e \<noteq> 0 \<and> snd mw (message_wire (fst mw)) = WriteError e)"

lemma send_all_results:
  assumes "module_initialized g" "current_send_cb s = NULL"
    and "\<forall>mw\<in>set mws. message_wf (fst mw) \<and> (taken_whole mw \<or> refused_whole mw)"
  shows "\<exists>rs. send_all bo g cb mws s = (rs, s) \<and>
    map (\<lambda>r. send_status r = XSAN_OK) rs = map taken_whole mws \<and>
    bytes_sent mws rs = concat (map (message_wire \<circ> fst) (filter taken_whole mws))"
  using assms(3)
proof (induction mws)
  case (Cons mw mws)
  obtain m writev where mw: "mw = (m, writev)" by (cases mw)
  have "\<forall>mw\<in>set mws. message_wf (fst mw) \<and> (taken_whole mw \<or> refused_whole mw)" using Cons.prems by simp
  from Cons.IH [OF this] obtain rs where rs: "send_all bo g cb mws s = (rs, s)"
      "map (\<lambda>r. send_status r = XSAN_OK) rs = map taken_whole mws"
      "bytes_sent mws rs = concat (map (message_wire \<circ> fst) (filter taken_whole mws))" by blast
  have "message_wf m" "taken_whole mw \<or> refused_whole mw" using Cons.prems mw by simp_all
  then obtain r where "xsan_node_comm_send_msg bo g True True s True (Some m) cb writev = (r, s)"
      "send_status r = XSAN_OK \<longleftrightarrow> taken_whole mw"
      "bytes_taken writev r = (if taken_whole mw then message_wire m else [])"
    using send_admitted [OF assms(1,2), of m bo cb writev] mw
    by (auto simp: taken_whole_def refused_whole_def bytes_taken_def xsan_error_from_errno_OK_iff)
  with rs mw show ?case by (simp add: bytes_sent_def comp_def)
qed (simp add: bytes_sent_def)

lemma select_zip:
  "map P rs = map Q xs \<Longrightarrow> map fst (filter (\<lambda>(x, r). P r) (zip xs rs)) = filter Q xs"
  by (induction xs arbitrary: rs) (auto simp: Cons_eq_map_conv split: if_splits)



end
