(* ===== verification/StringUtils.thy ===== *)
theory StringUtils
  imports Interfaces "HOL-Library.Sublist"
begin

text \<open>
  src/utils/string\_utils.c. A C string is a \<^typ>\<open>string\<close> without the terminating null character;
  a character array that a function writes is a list of characters of the size of the array.
  Functions that allocate take the success of the allocation as their first argument and return a
  null pointer when it fails. The character classes are those of the C locale.
\<close>

section \<open>Characters and arrays\<close>

abbreviation (input) NUL :: char where "NUL \<equiv> CHR 0x00"

definition isspace :: "char \<Rightarrow> bool" where
  "isspace c \<longleftrightarrow> c \<in> {CHR 0x20, CHR 0x09, CHR 0x0A, CHR 0x0B, CHR 0x0C, CHR 0x0D}"

definition isdigit :: "char \<Rightarrow> bool" where
  "isdigit c \<longleftrightarrow> 48 \<le> (of_char c :: nat) \<and> (of_char c :: nat) \<le> 57"

definition tolower :: "char \<Rightarrow> char" where
  "tolower c = (if 65 \<le> (of_char c :: nat) \<and> (of_char c :: nat) \<le> 90
                then char_of (of_char c + 32 :: nat) else c)"

definition toupper :: "char \<Rightarrow> char" where
  "toupper c = (if 97 \<le> (of_char c :: nat) \<and> (of_char c :: nat) \<le> 122
                then char_of (of_char c - 32 :: nat) else c)"

text \<open>The string that an array holds, and \<^verbatim>\<open>memcpy\<close> into an array.\<close>

definition c_string :: "char list \<Rightarrow> string" where
  "c_string arr = takeWhile (\<lambda>c. c \<noteq> NUL) arr"

definition store_at :: "char list \<Rightarrow> nat \<Rightarrow> char list \<Rightarrow> char list" where
  "store_at arr off cs = take off arr @ cs @ drop (off + length cs) arr"

section \<open>Copying\<close>

definition xsan_strcpy_safe ::
  "char list ptr \<Rightarrow> string ptr \<Rightarrow> nat \<Rightarrow> nat \<times> char list ptr" where
  "xsan_strcpy_safe dest src dest_size =
     (case (dest, src) of
        (Some d, Some s) \<Rightarrow>
          if dest_size = 0 then (0, dest)
          else
            (let src_len = length s;
                 copy_len = (if src_len < dest_size - 1 then src_len else dest_size - 1)
             in (copy_len, Some (store_at d 0 (take copy_len s @ [NUL]))))
      | _ \<Rightarrow> (0, dest))"

definition strnlen :: "char list \<Rightarrow> nat \<Rightarrow> nat" where
  "strnlen arr n = length (c_string (take n arr))"

definition xsan_strcat_safe ::
  "char list ptr \<Rightarrow> string ptr \<Rightarrow> nat \<Rightarrow> nat \<times> char list ptr" where
  "xsan_strcat_safe dest src dest_size =
     (case (dest, src) of
        (Some d, Some s) \<Rightarrow>
          if dest_size = 0 then (0, dest)
          else
            (let dest_len = strnlen d dest_size in
             if dest_len \<ge> dest_size then (dest_len, dest)
             else
               (let remaining = dest_size - dest_len;
                    src_len = length s;
                    copy_len = (if src_len < remaining - 1 then src_len else remaining - 1)
                in (dest_len + copy_len, Some (store_at d dest_len (take copy_len s @ [NUL])))))
      | _ \<Rightarrow> (0, dest))"

section \<open>Splitting and trimming\<close>

text \<open>One call of \<^verbatim>\<open>strtok\<close>: the next token, and the string from which the next call goes on.\<close>

definition strtok :: "string \<Rightarrow> string \<Rightarrow> (string \<times> string) option" where
  "strtok delim s =
     (let s = dropWhile (\<lambda>c. c \<in> set delim) s in
      if s = [] then None
      else Some (takeWhile (\<lambda>c. c \<notin> set delim) s, drop 1 (dropWhile (\<lambda>c. c \<notin> set delim) s)))"

lemma strtok_shorter: "strtok delim s = Some (t, s') \<Longrightarrow> length s' < length s"
proof -
  assume a: "strtok delim s = Some (t, s')"
  let ?d = "dropWhile (\<lambda>c. c \<in> set delim) s"
  have "?d \<noteq> []" "s' = drop 1 (dropWhile (\<lambda>c. c \<notin> set delim) ?d)"
    using a by (auto simp: strtok_def Let_def split: if_splits)
  then show ?thesis
    using length_dropWhile_le [of "\<lambda>c. c \<in> set delim" s] length_dropWhile_le [of "\<lambda>c. c \<notin> set delim" ?d]
    by (cases ?d) auto
qed

text \<open>\<open>dup_ok n\<close> is the success of the \<open>n\<close>-th duplication, the copy of the string being the first.
  A failed one frees the tokens made so far, and the result is 0.\<close>

function split_loop ::
  "(nat \<Rightarrow> bool) \<Rightarrow> string \<Rightarrow> nat \<Rightarrow> string \<Rightarrow> string list \<Rightarrow> string list" where
  "split_loop dup_ok delim max_tokens s tokens =
     (case strtok delim s of
        None \<Rightarrow> tokens
      | Some (t, s') \<Rightarrow>
          if length tokens < max_tokens then
            (if dup_ok (length tokens + 1) then split_loop dup_ok delim max_tokens s' (tokens @ [t])
             else [])
          else tokens)"
  by pat_completeness auto

termination
  by (relation "measure (\<lambda>(_, _, _, s, _). length s)") (auto dest: strtok_shorter)

definition xsan_strsplit ::
  "(nat \<Rightarrow> bool) \<Rightarrow> string ptr \<Rightarrow> string ptr \<Rightarrow> bool \<Rightarrow> nat \<Rightarrow> string list" where
  "xsan_strsplit dup_ok str delim has_tokens max_tokens =
     (case (str, delim) of
        (Some s, Some d) \<Rightarrow>
          if \<not> has_tokens \<or> max_tokens = 0 then []
          else if \<not> dup_ok 0 then []
          else split_loop dup_ok d max_tokens s []
      | _ \<Rightarrow> [])"

text \<open>The backward scan from the last character to the first one at \<open>start\<close>, and the string up to
  where it stops. The scan of \<^verbatim>\<open>xsan_strtrim\<close> stops at the first character at the latest, the
  others may pass it.\<close>

definition scan_back :: "string \<Rightarrow> string" where
  "scan_back s = rev (dropWhile isspace (rev s))"

definition xsan_strtrim :: "bool \<Rightarrow> string ptr \<Rightarrow> string ptr" where
  "xsan_strtrim malloc_ok str =
     (case str of
        NULL \<Rightarrow> NULL
      | Some s \<Rightarrow>
          (let s = dropWhile isspace s in
           if \<not> malloc_ok then NULL
           else case s of
             [] \<Rightarrow> Some []
           | c # cs \<Rightarrow> Some (c # scan_back cs)))"

definition xsan_strtrim_left :: "bool \<Rightarrow> string ptr \<Rightarrow> string ptr" where
  "xsan_strtrim_left malloc_ok str =
     (case str of NULL \<Rightarrow> NULL | Some s \<Rightarrow> if malloc_ok then Some (dropWhile isspace s) else NULL)"

definition xsan_strtrim_right :: "bool \<Rightarrow> string ptr \<Rightarrow> string ptr" where
  "xsan_strtrim_right malloc_ok str =
     (case str of
        NULL \<Rightarrow> NULL
      | Some s \<Rightarrow>
          if s = [] then (if malloc_ok then Some [] else NULL)
          else if malloc_ok then Some (scan_back s) else NULL)"

section \<open>Case\<close>

definition xsan_strupper :: "bool \<Rightarrow> string ptr \<Rightarrow> string ptr" where
  "xsan_strupper malloc_ok str =
     (case str of NULL \<Rightarrow> NULL | Some s \<Rightarrow> if malloc_ok then Some (map toupper s) else NULL)"

definition xsan_strlower :: "bool \<Rightarrow> string ptr \<Rightarrow> string ptr" where
  "xsan_strlower malloc_ok str =
     (case str of NULL \<Rightarrow> NULL | Some s \<Rightarrow> if malloc_ok then Some (map tolower s) else NULL)"

text \<open>The value of a character as \<^verbatim>\<open>unsigned char\<close>, lowered; the terminator is 0.\<close>

definition lower_code :: "char \<Rightarrow> int" where
  "lower_code c = int (of_char (tolower c))"

definition first_code :: "string \<Rightarrow> int" where
  "first_code s = (case s of [] \<Rightarrow> 0 | c # _ \<Rightarrow> lower_code c)"

fun casecmp_loop :: "string \<Rightarrow> string \<Rightarrow> int" where
  "casecmp_loop (a # s) (b # t) =
     (if lower_code a \<noteq> lower_code b then lower_code a - lower_code b else casecmp_loop s t)"
| "casecmp_loop s t = first_code s - first_code t"

text \<open>The null pointers compare as the addresses do: equal if both are null.\<close>

definition xsan_strcasecmp :: "string ptr \<Rightarrow> string ptr \<Rightarrow> int" where
  "xsan_strcasecmp s1 s2 =
     (case (s1, s2) of
        (Some a, Some b) \<Rightarrow> casecmp_loop a b
      | (NULL, NULL) \<Rightarrow> 0
      | (Some _, NULL) \<Rightarrow> 1
      | (NULL, Some _) \<Rightarrow> - 1)"

fun ncasecmp_loop :: "nat \<Rightarrow> string \<Rightarrow> string \<Rightarrow> int" where
  "ncasecmp_loop (Suc n) (a # s) (b # t) =
     (if lower_code a \<noteq> lower_code b then lower_code a - lower_code b else ncasecmp_loop n s t)"
| "ncasecmp_loop _ _ _ = 0"

text \<open>\<open>same\<close> says whether the two pointers are the same; it matters for \<open>n = 0\<close> only.\<close>

definition xsan_strncasecmp :: "bool \<Rightarrow> string ptr \<Rightarrow> string ptr \<Rightarrow> nat \<Rightarrow> int" where
  "xsan_strncasecmp same s1 s2 n =
     (case (s1, s2) of
        (Some a, Some b) \<Rightarrow>
          if n = 0 then (if same then 0 else 1) else ncasecmp_loop n a b
      | (NULL, NULL) \<Rightarrow> 0
      | (Some _, NULL) \<Rightarrow> 1
      | (NULL, Some _) \<Rightarrow> - 1)"

section \<open>Searching and replacing\<close>

definition xsan_str_starts_with :: "string ptr \<Rightarrow> string ptr \<Rightarrow> bool" where
  "xsan_str_starts_with str pre =
     (case (str, pre) of
        (Some s, Some p) \<Rightarrow>
          if length p > length s then False else take (length p) s = p
      | _ \<Rightarrow> False)"

definition xsan_str_ends_with :: "string ptr \<Rightarrow> string ptr \<Rightarrow> bool" where
  "xsan_str_ends_with str suf =
     (case (str, suf) of
        (Some s, Some p) \<Rightarrow>
          if length p > length s then False else drop (length s - length p) s = p
      | _ \<Rightarrow> False)"

text \<open>\<^verbatim>\<open>strstr\<close>: the position of the first occurrence.\<close>

fun strstr :: "string \<Rightarrow> string \<Rightarrow> nat option" where
  "strstr sub [] = (if sub = [] then Some 0 else None)"
| "strstr sub (c # s) =
     (if prefix sub (c # s) then Some 0 else map_option Suc (strstr sub s))"

definition xsan_str_contains :: "string ptr \<Rightarrow> string ptr \<Rightarrow> bool" where
  "xsan_str_contains str sub =
     (case (str, sub) of (Some s, Some p) \<Rightarrow> strstr p s \<noteq> None | _ \<Rightarrow> False)"

text \<open>The two loops of \<^verbatim>\<open>xsan_str_replace\<close> over a nonempty pattern: counting the occurrences, and
  writing the result.\<close>

function count_loop :: "string \<Rightarrow> string \<Rightarrow> nat" where
  "count_loop old s =
     (if old = [] then 0
      else case strstr old s of
        None \<Rightarrow> 0
      | Some i \<Rightarrow> 1 + count_loop old (drop (i + length old) s))"
  by pat_completeness auto

lemma strstr_bound: "strstr old s = Some i \<Longrightarrow> i + length old \<le> length s"
proof (induction s arbitrary: i)
  case (Cons c s)
  then show ?case by (auto split: if_splits dest: prefix_length_le)
qed (auto split: if_splits)

lemma strstr_shrinks: "old \<noteq> [] \<Longrightarrow> strstr old s = Some i \<Longrightarrow> length s - (i + length old) < length s"
  using strstr_bound [of old s i] by (cases old) auto

termination count_loop
  by (relation "measure (\<lambda>(_, s). length s)") (auto dest: strstr_shrinks)

function replace_loop :: "string \<Rightarrow> string \<Rightarrow> string \<Rightarrow> string" where
  "replace_loop old new src =
     (if old = [] then src
      else case strstr old src of
        None \<Rightarrow> src
      | Some i \<Rightarrow> take i src @ new @ replace_loop old new (drop (i + length old) src))"
  by pat_completeness auto

termination replace_loop
  by (relation "measure (\<lambda>(_, _, s). length s)") (auto dest: strstr_shrinks)

text \<open>The size computed for the result, in \<^verbatim>\<open>size_t\<close>: the difference of the lengths wraps when the
  new string is the shorter one. The second component is the size given to \<^verbatim>\<open>malloc\<close>.\<close>

definition replace_alloc :: "string \<Rightarrow> string \<Rightarrow> string \<Rightarrow> u64" where
  "replace_alloc s old new =
     (let str_len = of_nat (length s); old_len = of_nat (length old); new_len = of_nat (length new);
          count = of_nat (count_loop old s)
      in str_len + count * (new_len - old_len))"

definition xsan_str_replace ::
  "bool \<Rightarrow> string ptr \<Rightarrow> string ptr \<Rightarrow> string ptr \<Rightarrow> (string \<times> u64 option) ptr" where
  "xsan_str_replace malloc_ok str old_substr new_substr =
     (case (str, old_substr, new_substr) of
        (Some s, Some old, Some new) \<Rightarrow>
          if \<not> malloc_ok then NULL
          else if old = [] then Some (s, None)
          else if count_loop old s = 0 then Some (s, None)
          else Some (replace_loop old new s, Some (replace_alloc s old new + 1))
      | _ \<Rightarrow> NULL)"

definition xsan_str_reverse :: "bool \<Rightarrow> string ptr \<Rightarrow> string ptr" where
  "xsan_str_reverse malloc_ok str =
     (case str of
        NULL \<Rightarrow> NULL
      | Some s \<Rightarrow>
          if malloc_ok then Some (map (\<lambda>i. s ! (length s - 1 - i)) [0..<length s]) else NULL)"

text \<open>The hash adds the characters as signed values.\<close>

fun hash_loop :: "u32 \<Rightarrow> string \<Rightarrow> u32" where
  "hash_loop hash [] = hash"
| "hash_loop hash (c # s) = hash_loop ((push_bit 5 hash + hash) + scast (of_char c :: u8)) s"

definition xsan_str_hash :: "string ptr \<Rightarrow> u32" where
  "xsan_str_hash str = (case str of NULL \<Rightarrow> 0 | Some s \<Rightarrow> hash_loop 5381 s)"

section \<open>Numbers\<close>

definition digit_value :: "char \<Rightarrow> int" where
  "digit_value c = int (of_char c) - 48"

fun digits_value :: "int \<Rightarrow> string \<Rightarrow> int" where
  "digits_value acc [] = acc"
| "digits_value acc (c # cs) = digits_value (acc * 10 + digit_value c) cs"

definition LONG_MIN :: int where "LONG_MIN = - (2 ^ 63)"
definition LONG_MAX :: int where "LONG_MAX = 2 ^ 63 - 1"
definition INT_MIN :: int where "INT_MIN = - (2 ^ 31)"
definition INT_MAX :: int where "INT_MAX = 2 ^ 31 - 1"

text \<open>\<^verbatim>\<open>strtol(str, &endptr, 10)\<close>: the result, whether \<^verbatim>\<open>errno\<close> is \<^verbatim>\<open>ERANGE\<close>, and the string at
  \<open>endptr\<close>; without digits the end is the string itself.\<close>

definition strtol :: "string \<Rightarrow> int \<times> bool \<times> string" where
  "strtol str =
     (let s = dropWhile isspace str;
          (neg, s) = (case s of [] \<Rightarrow> (False, s)
             | c # cs \<Rightarrow> if c = CHR ''-'' then (True, cs) else if c = CHR ''+'' then (False, cs)
                        else (False, s));
          ds = takeWhile isdigit s;
          v = (if neg then - digits_value 0 ds else digits_value 0 ds)
      in if ds = [] then (0, False, str)
         else if v < LONG_MIN then (LONG_MIN, True, dropWhile isdigit s)
         else if v > LONG_MAX then (LONG_MAX, True, dropWhile isdigit s)
         else (v, False, dropWhile isdigit s))"

text \<open>\<open>endptr == str\<close> is a comparison of positions: the rest is as long as the string.\<close>

definition xsan_str_to_int :: "string ptr \<Rightarrow> int option" where
  "xsan_str_to_int str =
     (case str of
        NULL \<Rightarrow> None
      | Some s \<Rightarrow>
          (case strtol s of (result, erange, endptr) \<Rightarrow>
             if erange \<or> endptr \<noteq> [] \<or> length endptr = length s then None
             else if result < INT_MIN \<or> result > INT_MAX then None
             else Some result))"

definition xsan_str_to_long :: "string ptr \<Rightarrow> int option" where
  "xsan_str_to_long str =
     (case str of
        NULL \<Rightarrow> None
      | Some s \<Rightarrow>
          (case strtol s of (result, erange, endptr) \<Rightarrow>
             if erange \<or> endptr \<noteq> [] \<or> length endptr = length s then None
             else Some result))"

text \<open>The length of the longest prefix of a string that \<^verbatim>\<open>strtod\<close> takes for a number, behind the spaces
  and the sign, in the C locale: a decimal or hexadecimal number with an optional exponent, an infinity
  or a NaN; zero if there is none.\<close>

definition isxdigit :: "char \<Rightarrow> bool" where
  "isxdigit c \<longleftrightarrow> isdigit c \<or> tolower c \<in> set ''abcdef''"

definition sign_length :: "string \<Rightarrow> nat" where
  "sign_length s = (case s of [] \<Rightarrow> 0 | c # _ \<Rightarrow> if c = CHR ''-'' \<or> c = CHR ''+'' then 1 else 0)"

definition mantissa_length :: "(char \<Rightarrow> bool) \<Rightarrow> string \<Rightarrow> nat" where
  "mantissa_length dig s =
     (let n = length (takeWhile dig s) in
      case drop n s of
        [] \<Rightarrow> n
      | c # r \<Rightarrow>
          if c = CHR ''.'' then
            (let m = length (takeWhile dig r) in if n + m = 0 then 0 else n + 1 + m)
          else n)"

definition exponent_length :: "char \<Rightarrow> string \<Rightarrow> nat" where
  "exponent_length e s =
     (case s of
        [] \<Rightarrow> 0
      | c # r \<Rightarrow>
          (let g = sign_length r; n = length (takeWhile isdigit (drop g r)) in
           if tolower c = e \<and> n \<noteq> 0 then 1 + g + n else 0))"

definition number_length :: "(char \<Rightarrow> bool) \<Rightarrow> char \<Rightarrow> string \<Rightarrow> nat" where
  "number_length dig e s =
     (let m = mantissa_length dig s in if m = 0 then 0 else m + exponent_length e (drop m s))"

definition has_word :: "string \<Rightarrow> string \<Rightarrow> bool" where
  "has_word w s \<longleftrightarrow> map tolower (take (length w) s) = w"

definition nan_length :: "string \<Rightarrow> nat" where
  "nan_length s =
     (case s of
        [] \<Rightarrow> 0
      | c # r \<Rightarrow>
          (let n = length (takeWhile (\<lambda>c. isdigit c \<or> c = CHR ''_'' \<or> tolower c \<noteq> toupper c) r) in
           if c = CHR ''('' \<and> take 1 (drop n r) = '')'' then n + 2 else 0))"

definition float_length :: "string \<Rightarrow> nat" where
  "float_length s =
     (if has_word ''infinity'' s then 8
      else if has_word ''inf'' s then 3
      else if has_word ''nan'' s then 3 + nan_length (drop 3 s)
      else if has_word ''0x'' s \<and> number_length isxdigit (CHR ''p'') (drop 2 s) \<noteq> 0 then
        2 + number_length isxdigit (CHR ''p'') (drop 2 s)
      else number_length isdigit (CHR ''e'') s)"

text \<open>\<^verbatim>\<open>strtod\<close> as \<^const>\<open>strtol\<close>; \<open>double_of\<close> is the floating point number that such a text stands for,
  and whether it is out of range.\<close>

definition strtod :: "(string \<Rightarrow> 'd \<times> bool) \<Rightarrow> string \<Rightarrow> 'd \<times> bool \<times> string" where
  "strtod double_of str =
     (let s = dropWhile isspace str; g = sign_length s; n = float_length (drop g s) in
      if n = 0 then (fst (double_of []), False, str)
      else (case double_of (take (g + n) s) of (d, erange) \<Rightarrow> (d, erange, drop (g + n) s)))"

definition xsan_str_to_double :: "(string \<Rightarrow> 'd \<times> bool) \<Rightarrow> string ptr \<Rightarrow> 'd option" where
  "xsan_str_to_double double_of str =
     (case str of
        NULL \<Rightarrow> None
      | Some s \<Rightarrow>
          (case strtod double_of s of (result, erange, endptr) \<Rightarrow>
             if erange \<or> endptr \<noteq> [] \<or> length endptr = length s then None
             else Some result))"

definition xsan_str_to_bool :: "bool \<Rightarrow> string ptr \<Rightarrow> bool option" where
  "xsan_str_to_bool malloc_ok str =
     (case xsan_strlower malloc_ok str of
        NULL \<Rightarrow> None
      | Some l \<Rightarrow>
          if l = ''true'' \<or> l = ''yes'' \<or> l = ''on'' \<or> l = ''1'' then Some True
          else if l = ''false'' \<or> l = ''no'' \<or> l = ''off'' \<or> l = ''0'' then Some False
          else None)"

section \<open>Configuration lines\<close>

definition xsan_parse_config_line :: "string ptr \<Rightarrow> nat \<Rightarrow> nat \<Rightarrow> (string \<times> string) option" where
  "xsan_parse_config_line line key_size value_size =
     (case line of
        NULL \<Rightarrow> None
      | Some l \<Rightarrow>
          if key_size = 0 \<or> value_size = 0 then None
          else
            (let l = dropWhile isspace l in
             if l = [] \<or> hd l = CHR ''#'' then None
             else if CHR ''='' \<notin> set l then None
             else
               (let key = scan_back (takeWhile (\<lambda>c. c \<noteq> CHR ''='') l);
                    val = scan_back (dropWhile isspace (tl (dropWhile (\<lambda>c. c \<noteq> CHR ''='') l)))
                in if length key \<ge> key_size then None
                   else if length val \<ge> value_size then None
                   else Some (key, val))))"

section \<open>Escapes\<close>

text \<open>The escape letter of a character that is escaped.\<close>

definition escape_char :: "char \<Rightarrow> char option" where
  "escape_char c =
     (if c = CHR 0x0A then Some (CHR ''n'')
      else if c = CHR 0x0D then Some (CHR ''r'')
      else if c = CHR 0x09 then Some (CHR ''t'')
      else if c = CHR 0x5C then Some (CHR 0x5C)
      else if c = CHR 0x22 then Some (CHR 0x22)
      else if c = CHR 0x27 then Some (CHR 0x27)
      else None)"

definition unescape_char :: "char \<Rightarrow> char option" where
  "unescape_char c =
     (if c = CHR ''n'' then Some (CHR 0x0A)
      else if c = CHR ''r'' then Some (CHR 0x0D)
      else if c = CHR ''t'' then Some (CHR 0x09)
      else if c = CHR 0x5C then Some (CHR 0x5C)
      else if c = CHR 0x22 then Some (CHR 0x22)
      else if c = CHR 0x27 then Some (CHR 0x27)
      else None)"

fun escaped_length :: "string \<Rightarrow> nat" where
  "escaped_length [] = 0"
| "escaped_length (c # s) = (if escape_char c \<noteq> None then 2 else 1) + escaped_length s"

fun escape_loop :: "string \<Rightarrow> string" where
  "escape_loop [] = []"
| "escape_loop (c # s) =
     (case escape_char c of Some e \<Rightarrow> CHR 0x5C # e # escape_loop s | None \<Rightarrow> c # escape_loop s)"

definition xsan_str_escape :: "bool \<Rightarrow> string ptr \<Rightarrow> (string \<times> nat) ptr" where
  "xsan_str_escape malloc_ok str =
     (case str of
        NULL \<Rightarrow> NULL
      | Some s \<Rightarrow> if malloc_ok then Some (escape_loop s, escaped_length s + 1) else NULL)"

fun unescape_loop :: "string \<Rightarrow> string" where
  "unescape_loop [] = []"
| "unescape_loop [c] = [c]"
| "unescape_loop (c # d # s) =
     (if c = CHR 0x5C then
        (case unescape_char d of
           Some u \<Rightarrow> u # unescape_loop s
         | None \<Rightarrow> c # unescape_loop (d # s))
      else c # unescape_loop (d # s))"

definition xsan_str_unescape :: "bool \<Rightarrow> string ptr \<Rightarrow> string ptr" where
  "xsan_str_unescape malloc_ok str =
     (case str of
        NULL \<Rightarrow> NULL
      | Some s \<Rightarrow> if malloc_ok then Some (unescape_loop s) else NULL)"

section \<open>Facts\<close>

declare count_loop.simps [simp del]
declare replace_loop.simps [simp del]
declare split_loop.simps [simp del]

subsection \<open>Arrays\<close>

lemma length_store_at [simp]:
  "off + length cs \<le> length arr \<Longrightarrow> length (store_at arr off cs) = length arr"
  by (simp add: store_at_def)

lemma drop_store_at:
  "off + length cs \<le> n \<Longrightarrow> n \<le> length arr \<Longrightarrow> drop n (store_at arr off cs) = drop n arr"
  by (simp add: store_at_def)

lemma c_string_terminated: "NUL \<notin> set cs \<Longrightarrow> c_string (cs @ NUL # rest) = cs"
  by (induction cs) (auto simp: c_string_def)

lemma c_string_store:
  "NUL \<notin> set (take off arr) \<Longrightarrow> NUL \<notin> set cs \<Longrightarrow>
     c_string (store_at arr off (cs @ [NUL])) = take off arr @ cs"
  using c_string_terminated [of "take off arr @ cs"] by (simp add: store_at_def)

lemma take_min_copy: "take (if length s < n then length s else n) s = take n s"
  by simp

lemma strcpy_safe_result:
  assumes "0 < n" "n \<le> length d" "NUL \<notin> set s"
  shows "\<exists>d'. xsan_strcpy_safe (Some d) (Some s) n = (length (take (n - 1) s), Some d') \<and>
    length d' = length d \<and> drop n d' = drop n d \<and> c_string d' = take (n - 1) s"
proof -
  have "NUL \<notin> set (take (n - 1) s)" using assms(3) by (meson in_set_takeD)
  with assms c_string_store [of 0 d "take (n - 1) s"] drop_store_at [of 0 "take (n - 1) s @ [NUL]" n d]
  show ?thesis
    by (simp add: xsan_strcpy_safe_def Let_def take_min_copy) (auto simp: min_def)
qed

lemma strcat_safe_result:
  assumes "n \<le> length d" "NUL \<in> set (take n d)" "NUL \<notin> set s"
  shows "\<exists>d'. xsan_strcat_safe (Some d) (Some s) n =
      (length (take (n - 1) (c_string d @ s)), Some d') \<and>
    length d' = length d \<and> drop n d' = drop n d \<and> c_string d' = take (n - 1) (c_string d @ s)"
proof -
  obtain pre post where d: "take n d = pre @ NUL # post" "NUL \<notin> set pre"
    using assms(2) by (meson split_list_first)
  have len: "length pre < n" using arg_cong [OF d(1), of length] assms(1) by simp
  have strs: "strnlen d n = length pre" "c_string d = pre" "take (length pre) d = pre"
  proof -
    show "strnlen d n = length pre" using d by (simp add: strnlen_def c_string_terminated)
    have "d = pre @ NUL # post @ drop n d" using d(1) by (metis append.assoc append_Cons append_take_drop_id)
    then show "c_string d = pre" "take (length pre) d = pre"
      using d(2) by (metis c_string_terminated, metis append_eq_conv_conj)
  qed
  let ?c = "take (n - 1 - length pre) s"
  have "NUL \<notin> set ?c" using assms(3) by (meson in_set_takeD)
  moreover have "take (n - 1) (pre @ s) = pre @ ?c" using len by simp
  moreover have "length pre + length (?c @ [NUL]) \<le> n" using len by simp
  ultimately show ?thesis
    using len assms(1) strs d(2) c_string_store [of "length pre" d ?c]
      drop_store_at [of "length pre" "?c @ [NUL]" n d]
    by (simp add: xsan_strcat_safe_def Let_def take_min_copy) (auto simp: min_def)
qed

subsection \<open>Escapes\<close>

lemma escape_pair: "escape_char c = Some e \<Longrightarrow> unescape_char e = Some c"
  by (auto simp: escape_char_def unescape_char_def split: if_splits)

lemma escape_none: "escape_char c = None \<Longrightarrow> c \<noteq> CHR 0x5C"
  by (auto simp: escape_char_def split: if_splits)

lemma unescape_plain: "c \<noteq> CHR 0x5C \<Longrightarrow> unescape_loop (c # s) = c # unescape_loop s"
  by (cases s) auto

lemma unescape_escape: "unescape_loop (escape_loop s) = s"
  by (induction s) (auto simp: escape_pair unescape_plain dest: escape_none split: option.splits)

lemma length_escape: "length (escape_loop s) = escaped_length s"
  by (induction s) (auto split: option.splits)

lemma length_unescape: "length (unescape_loop s) \<le> length s"
  by (induction s rule: unescape_loop.induct) (auto split: option.splits)

interpretation escapes: codec "\<lambda>_. True" escape_loop "\<lambda>s. Some (unescape_loop s)"
  by unfold_locales (simp add: unescape_escape)

subsection \<open>Replacement\<close>

text \<open>The pieces of a string between the occurrences of a pattern, joined by a separator.\<close>

fun join :: "string \<Rightarrow> string list \<Rightarrow> string" where
  "join sep [] = []"
| "join sep [p] = p"
| "join sep (p # q # ps) = p @ sep @ join sep (q # ps)"

lemma join_Cons: "ps \<noteq> [] \<Longrightarrow> join sep (p # ps) = p @ sep @ join sep ps"
  by (cases ps) simp_all

lemma strstr_split: "strstr old s = Some i \<Longrightarrow> s = take i s @ old @ drop (i + length old) s"
proof (induction s arbitrary: i)
  case (Cons c s)
  then show ?case by (auto simp: prefix_def split: if_splits)
qed (auto split: if_splits)

text \<open>Nothing occurs before the first occurrence.\<close>

lemma strstr_mono: "strstr old s = Some i \<Longrightarrow> \<exists>j\<le>i. strstr old (s @ t) = Some j"
proof (induction s arbitrary: i)
  case Nil
  then show ?case by (cases t) (auto split: if_splits)
next
  case (Cons c s)
  then show ?case
    by (auto split: if_splits) (metis Suc_le_mono append_Cons option.simps(9) prefix_append)+
qed

lemma strstr_first: "old \<noteq> [] \<Longrightarrow> strstr old s = Some i \<Longrightarrow> strstr old (take i s) = None"
proof (rule ccontr)
  assume a: "old \<noteq> []" "strstr old s = Some i" "strstr old (take i s) \<noteq> None"
  then obtain j where j: "strstr old (take i s) = Some j" by auto
  then obtain k where "k \<le> j" "strstr old (take i s @ drop i s) = Some k"
    using strstr_mono by blast
  moreover have "j + length old \<le> i" using strstr_bound [OF j] by simp
  ultimately show False using a(1,2) by (cases old) auto
qed

lemma replace_pieces:
  assumes "old \<noteq> []"
  shows "\<exists>ps. s = join old ps \<and> replace_loop old new s = join new ps \<and>
    length ps = count_loop old s + 1 \<and> (\<forall>p\<in>set ps. strstr old p = None)"
proof (induction "length s" arbitrary: s rule: less_induct)
  case less
  show ?case
  proof (cases "strstr old s")
    case None
    with assms show ?thesis
      by (intro exI [of _ "[s]"]) (simp add: replace_loop.simps count_loop.simps)
  next
    case (Some i)
    let ?t = "drop (i + length old) s"
    have "length ?t < length s" using strstr_shrinks [OF assms Some] by simp
    then obtain ps where ps: "?t = join old ps" "replace_loop old new ?t = join new ps"
      "length ps = count_loop old ?t + 1" "\<forall>p\<in>set ps. strstr old p = None"
      using less by blast
    then have "ps \<noteq> []" by auto
    moreover have "s = take i s @ old @ join old ps" using strstr_split [OF Some] ps(1) by simp
    moreover have "strstr old (take i s) = None" using strstr_first [OF assms Some] .
    ultimately show ?thesis
      using assms Some ps
      by (intro exI [of _ "take i s # ps"])
        (simp add: join_Cons replace_loop.simps [of old new s] count_loop.simps [of old s])
  qed
qed

lemma length_join: "ps \<noteq> [] \<Longrightarrow> length (join sep ps) = sum_list (map length ps) + (length ps - 1) * length sep"
  by (induction sep ps rule: join.induct) auto

lemma replace_length:
  assumes "old \<noteq> []"
  shows "length (replace_loop old new s) + count_loop old s * length old =
    length s + count_loop old s * length new"
proof -
  obtain ps where ps: "s = join old ps" "replace_loop old new s = join new ps"
    "length ps = count_loop old s + 1"
    using replace_pieces [OF assms] by blast
  then have "ps \<noteq> []" by auto
  then show ?thesis
    using length_join [of ps old] length_join [of ps new] ps by simp
qed

lemma replace_alloc_exact:
  assumes "old \<noteq> []"
  shows "replace_alloc s old new = of_nat (length (replace_loop old new s))"
proof -
  have "(of_nat (length (replace_loop old new s)) :: u64) + of_nat (count_loop old s) * of_nat (length old) =
      of_nat (length s) + of_nat (count_loop old s) * of_nat (length new)"
    using arg_cong [OF replace_length [OF assms, of new s], of "of_nat :: nat \<Rightarrow> u64"] by simp
  then show ?thesis by (simp add: replace_alloc_def Let_def algebra_simps)
qed

subsection \<open>Numbers\<close>

text \<open>Decimal notation, as \<^verbatim>\<open>printf("%ld")\<close> writes it.\<close>

definition digit_char :: "nat \<Rightarrow> char" where
  "digit_char d = char_of (48 + d)"

fun show_nat :: "nat \<Rightarrow> string" where
  "show_nat n = (if n < 10 then [digit_char n] else show_nat (n div 10) @ [digit_char (n mod 10)])"

definition show_int :: "int \<Rightarrow> string" where
  "show_int v = (if v < 0 then CHR ''-'' # show_nat (nat (- v)) else show_nat (nat v))"

declare show_nat.simps [simp del]

lemma of_char_digit [simp]: "d < 10 \<Longrightarrow> (of_char (digit_char d) :: nat) = 48 + d"
  by (simp add: digit_char_def)

lemma digit_char_props:
  "d < 10 \<Longrightarrow> isdigit (digit_char d)" "d < 10 \<Longrightarrow> digit_value (digit_char d) = int d"
  by (simp_all add: isdigit_def digit_value_def)

lemma show_nat_digits: "\<forall>c\<in>set (show_nat n). isdigit c"
  by (induction n rule: show_nat.induct) (subst show_nat.simps, auto simp: digit_char_props)

lemma show_nat_not_Nil [simp]: "show_nat n \<noteq> []"
  by (subst show_nat.simps) simp

lemma digits_value_append: "digits_value acc (xs @ [c]) = digits_value acc xs * 10 + digit_value c"
  by (induction xs arbitrary: acc) auto

lemma digits_value_show: "digits_value 0 (show_nat n) = int n"
proof (induction n rule: show_nat.induct)
  case (1 n)
  have "int (n div 10) * 10 + int (n mod 10) = int n"
    by (metis div_mult_mod_eq of_nat_add of_nat_mult of_nat_numeral)
  with 1 show ?case
    by (subst show_nat.simps) (auto simp: digits_value_append digit_char_props)
qed

lemma isdigit_not_space: "isdigit c \<Longrightarrow> \<not> isspace c"
  by (auto simp: isdigit_def isspace_def)

lemma isdigit_not_sign: "isdigit c \<Longrightarrow> c \<noteq> CHR ''-'' \<and> c \<noteq> CHR ''+''"
  by (auto simp: isdigit_def)

lemma takeWhile_digits: "takeWhile isdigit (show_nat n) = show_nat n"
  using show_nat_digits by (simp add: takeWhile_eq_all_conv)

lemma dropWhile_digits: "dropWhile isdigit (show_nat n) = []"
  using show_nat_digits by (simp add: dropWhile_eq_Nil_conv)

lemma strtol_show_nat:
  "strtol (show_nat n) = (if int n > LONG_MAX then (LONG_MAX, True, []) else (int n, False, []))"
proof -
  obtain c cs where c: "show_nat n = c # cs" by (cases "show_nat n") auto
  then have d: "isdigit c" "\<forall>x\<in>set cs. isdigit x" using show_nat_digits [of n] by auto
  then have "takeWhile isdigit cs = cs" "dropWhile isdigit cs = []"
    by (simp_all add: takeWhile_eq_all_conv dropWhile_eq_Nil_conv)
  note tw = this
  show ?thesis
    using c d(1) digits_value_show [of n] isdigit_not_space [of c] isdigit_not_sign [of c]
    by (simp add: strtol_def Let_def LONG_MIN_def tw)
qed

lemma strtol_show:
  "strtol (show_int v) =
     (if v < LONG_MIN then (LONG_MIN, True, [])
      else if v > LONG_MAX then (LONG_MAX, True, []) else (v, False, []))"
proof (cases "v < 0")
  case True
  then show ?thesis
    using digits_value_show [of "nat (- v)"]
    by (auto simp: strtol_def show_int_def Let_def isspace_def takeWhile_digits dropWhile_digits
        LONG_MAX_def)
next
  case False
  then show ?thesis
    using strtol_show_nat [of "nat v"] by (auto simp: show_int_def LONG_MIN_def)
qed

lemma show_int_not_Nil [simp]: "show_int v \<noteq> []"
  by (simp add: show_int_def)

subsection \<open>Trimming, tokens and comparison\<close>

lemma scan_back_append_space: "\<forall>c\<in>set t. isspace c \<Longrightarrow> scan_back (s @ t) = scan_back s"
  using dropWhile_append2 [of "rev t" isspace "rev s"] by (simp add: scan_back_def)

lemma scan_back_id: "s = [] \<or> \<not> isspace (last s) \<Longrightarrow> scan_back s = s"
  by (cases s rule: rev_cases) (simp_all add: scan_back_def)

lemma scan_back_last: "scan_back s \<noteq> [] \<Longrightarrow> \<not> isspace (last (scan_back s))"
  using hd_dropWhile [of isspace "rev s"] by (simp add: scan_back_def last_rev)

lemma dropWhile_space_id: "s = [] \<or> \<not> isspace (hd s) \<Longrightarrow> dropWhile isspace s = s"
  by (cases s) auto

lemma dropWhile_space_append: "\<forall>c\<in>set t. isspace c \<Longrightarrow> dropWhile isspace (t @ s) = dropWhile isspace s"
  by (simp add: dropWhile_append2)

text \<open>A string that neither begins nor ends with a space.\<close>

definition trimmed :: "string \<Rightarrow> bool" where
  "trimmed s \<longleftrightarrow> s = [] \<or> \<not> isspace (hd s) \<and> \<not> isspace (last s)"

lemma strtrim_trimmed:
  "\<exists>t. xsan_strtrim True (Some s) = Some t \<and> trimmed t \<and>
     (\<exists>l r. s = l @ t @ r \<and> (\<forall>c\<in>set l. isspace c) \<and> (\<forall>c\<in>set r. isspace c))"
proof (cases "dropWhile isspace s")
  case Nil
  then have "\<forall>c\<in>set s. isspace c" by (simp add: dropWhile_eq_Nil_conv)
  moreover from Nil have "xsan_strtrim True (Some s) = Some []" by (simp del: dropWhile_eq_Nil_conv add: xsan_strtrim_def)
  moreover from calculation(1)
  have "\<exists>l r. s = l @ [] @ r \<and> (\<forall>c\<in>set l. isspace c) \<and> (\<forall>c\<in>set r. isspace c)"
    by (intro exI [of _ "[]"] exI [of _ s]) simp
  ultimately show ?thesis by (auto simp: trimmed_def)
next
  case (Cons c cs)
  have c: "\<not> isspace c" using hd_dropWhile [of isspace s] Cons by simp
  let ?r = "rev (takeWhile isspace (rev cs))"
  have "cs = scan_back cs @ ?r"
    by (metis rev_append rev_rev_ident scan_back_def takeWhile_dropWhile_id)
  then have "s = takeWhile isspace s @ (c # scan_back cs) @ ?r"
    by (metis Cons append_Cons takeWhile_dropWhile_id)
  moreover have "trimmed (c # scan_back cs)"
    using c scan_back_last [of cs] by (cases "scan_back cs = []") (auto simp: trimmed_def)
  moreover have "\<forall>c\<in>set (takeWhile isspace s). isspace c" "\<forall>c\<in>set ?r. isspace c"
    by (auto dest: set_takeWhileD)
  moreover from calculation(1,3,4)
  have "\<exists>l r. s = l @ (c # scan_back cs) @ r \<and> (\<forall>c\<in>set l. isspace c) \<and> (\<forall>c\<in>set r. isspace c)"
    by blast
  ultimately show ?thesis using Cons by (auto simp: xsan_strtrim_def)
qed

lemma lower_code_pos: "c \<noteq> NUL \<Longrightarrow> 0 < lower_code c"
proof -
  assume "c \<noteq> NUL"
  then have "(of_char c :: nat) \<noteq> 0" using of_char_eq_iff [of c NUL] by auto
  then show ?thesis by (auto simp: lower_code_def tolower_def of_char_of)
qed

lemma casecmp_zero:
  "NUL \<notin> set s \<Longrightarrow> NUL \<notin> set t \<Longrightarrow>
   casecmp_loop s t = 0 \<longleftrightarrow> map lower_code s = map lower_code t"
proof (induction s arbitrary: t)
  case Nil
  then show ?case using lower_code_pos [of "hd t"] by (cases t) (auto simp: first_code_def)
next
  case (Cons c s)
  then show ?case using lower_code_pos [of c] by (cases t) (auto simp: first_code_def)
qed

text \<open>The bounded comparison stops at the end of either string, so a proper prefix compares
  equal.\<close>

lemma strncasecmp_prefix: "xsan_strncasecmp False (Some ''abc'') (Some ''abcdef'') 6 = 0"
  by (simp add: xsan_strncasecmp_def eval_nat_numeral)

lemma strtok_token:
  assumes "strtok delim s = Some (t, s')"
  shows "t \<noteq> [] \<and> set t \<inter> set delim = {}"
proof -
  let ?d = "dropWhile (\<lambda>c. c \<in> set delim) s"
  have d: "?d \<noteq> []" "t = takeWhile (\<lambda>c. c \<notin> set delim) ?d"
    using assms by (auto simp: strtok_def Let_def split: if_splits)
  moreover have "hd ?d \<notin> set delim" using hd_dropWhile [of "\<lambda>c. c \<in> set delim" s] d(1) by simp
  ultimately show ?thesis by (cases ?d) (auto dest: set_takeWhileD)
qed

lemma split_loop_tokens:
  assumes "\<forall>t\<in>set ts. t \<noteq> [] \<and> set t \<inter> set delim = {}" "length ts \<le> mx"
  shows "(\<forall>t\<in>set (split_loop ok delim mx s ts). t \<noteq> [] \<and> set t \<inter> set delim = {}) \<and>
    length (split_loop ok delim mx s ts) \<le> mx"
  using assms
proof (induction ok delim mx s ts rule: split_loop.induct)
  case (1 ok delim mx s ts)
  show ?case
  proof (cases "strtok delim s")
    case None
    with "1.prems" show ?thesis by (simp add: split_loop.simps [of ok delim mx s])
  next
    case (Some a)
    then obtain t s' where a: "strtok delim s = Some (t, s')" by (cases a) auto
    then show ?thesis
      using "1.prems" "1.IH" [of "(t, s')" t s'] strtok_token [OF a]
      by (simp add: split_loop.simps [of ok delim mx s])
  qed
qed

subsection \<open>Configuration lines\<close>

lemma scan_back_key: "trimmed k \<Longrightarrow> \<forall>c\<in>set w. isspace c \<Longrightarrow> scan_back (k @ w) = k"
  by (auto simp: scan_back_append_space trimmed_def intro: scan_back_id)

lemma dropWhile_key:
  "trimmed k \<Longrightarrow> k \<noteq> [] \<Longrightarrow> \<forall>c\<in>set w. isspace c \<Longrightarrow> dropWhile isspace (w @ k @ r) = k @ r"
  by (cases k) (auto simp: dropWhile_space_append trimmed_def)

lemma parse_line:
  assumes key: "trimmed k" "k \<noteq> []" "hd k \<noteq> CHR ''#''" "CHR ''='' \<notin> set k"
    and val: "trimmed v"
    and spaces: "\<forall>w\<in>{w1, w2, w3, w4}. \<forall>c\<in>set w. isspace c"
    and sizes: "length k < ks" "length v < vs"
  shows "xsan_parse_config_line (Some (w1 @ k @ w2 @ ''='' @ w3 @ v @ w4)) ks vs = Some (k, v)"
proof -
  let ?r = "w2 @ CHR ''='' # w3 @ v @ w4"
  have sp: "\<forall>c\<in>set w1. isspace c" "\<forall>c\<in>set w2. isspace c" "\<forall>c\<in>set w3. isspace c" "\<forall>c\<in>set w4. isspace c"
    using spaces by auto
  have "\<not> isspace (CHR ''='')" by (simp add: isspace_def)
  then have ne: "CHR ''='' \<notin> set w2" using sp(2) by blast
  have l: "dropWhile isspace (w1 @ k @ ?r) = k @ ?r" using dropWhile_key [OF key(1,2) sp(1)] .
  have "takeWhile (\<lambda>c. c \<noteq> CHR ''='') ((k @ w2) @ CHR ''='' # w3 @ v @ w4) = k @ w2"
    using key(4) ne by (subst takeWhile_append2) auto
  then have tw: "takeWhile (\<lambda>c. c \<noteq> CHR ''='') (k @ ?r) = k @ w2" by simp
  have "dropWhile (\<lambda>c. c \<noteq> CHR ''='') ((k @ w2) @ CHR ''='' # w3 @ v @ w4) = CHR ''='' # w3 @ v @ w4"
    using key(4) ne by (subst dropWhile_append2) auto
  then have dw: "dropWhile (\<lambda>c. c \<noteq> CHR ''='') (k @ ?r) = CHR ''='' # w3 @ v @ w4" by simp
  have v: "scan_back (dropWhile isspace (w3 @ v @ w4)) = v"
  proof (cases "v = []")
    case True
    then have "\<forall>c\<in>set (w3 @ v @ w4). isspace c" using sp(3,4) by auto
    then have "dropWhile isspace (w3 @ v @ w4) = []" by (rule dropWhile_eq_Nil_conv [THEN iffD2])
    then show ?thesis unfolding scan_back_def True by (simp only: append_Nil rev.simps dropWhile.simps)
  next
    case False
    then show ?thesis using dropWhile_key [OF val False sp(3)] scan_back_key [OF val sp(4)] by simp
  qed
  have k: "scan_back (k @ w2) = k" by (rule scan_back_key [OF key(1) sp(2)])
  have h: "k @ ?r \<noteq> []" "hd (k @ ?r) \<noteq> CHR ''#''" "CHR ''='' \<in> set (k @ ?r)"
    using key(2,3) by simp_all
  have "xsan_parse_config_line (Some (w1 @ k @ ?r)) ks vs = Some (k, v)"
    unfolding xsan_parse_config_line_def option.case Let_def l tw dw list.sel k v
    using h sizes by simp
  then show ?thesis by simp
qed

section \<open>Properties\<close>

text \<open>The bounded copy and the bounded concatenation never write past the
  given size of the destination, always leave a terminated string, and that string is the longest
  prefix of the wanted result that fits with its terminator; the value returned is its length. The
  destination of the concatenation holds a terminated string within its size.\<close>

theorem strcpy_strcat_bounded:
  assumes "0 < n" "n \<le> length d" "NUL \<notin> set s"
  shows "(\<exists>d'. xsan_strcpy_safe (Some d) (Some s) n = (length (take (n - 1) s), Some d') \<and>
      length d' = length d \<and> drop n d' = drop n d \<and> c_string d' = take (n - 1) s) \<and>
    (NUL \<in> set (take n d) \<longrightarrow>
      (\<exists>d'. xsan_strcat_safe (Some d) (Some s) n =
          (length (take (n - 1) (c_string d @ s)), Some d') \<and>
        length d' = length d \<and> drop n d' = drop n d \<and>
        c_string d' = take (n - 1) (c_string d @ s)))"
  using strcpy_safe_result [OF assms] strcat_safe_result [of n d s] assms by blast

theorem strcpy_strcat_bounded_witness:
  "(\<exists>d'. xsan_strcpy_safe (Some [CHR ''x'', NUL, CHR ''y'', CHR ''z'']) (Some ''abc'') 3 = (2, Some d') \<and>
      c_string d' = ''ab'') \<and>
   (\<exists>d'. xsan_strcat_safe (Some [CHR ''x'', NUL, CHR ''y'', CHR ''z'']) (Some ''abc'') 3 = (2, Some d') \<and>
      c_string d' = ''xa'')"
  using strcpy_strcat_bounded [of 3 "[CHR ''x'', NUL, CHR ''y'', CHR ''z'']" "''abc''"]
  by (auto simp: c_string_def)

text \<open>C39: For a pattern that occurs, the string is cut at occurrences of the pattern that do not
  overlap into pieces free of the pattern, the result is the same pieces
  joined by the replacement, and the size computed in \<^verbatim>\<open>size_t\<close> arithmetic, which wraps when the
  replacement is shorter, is modulo \<open>2\<^sup>6\<^sup>4\<close> the length of the result and its terminator.\<close>

theorem str_replace_spec:
  assumes "old \<noteq> []" "xsan_str_contains (Some s) (Some old)"
  shows "\<exists>ps. length ps \<ge> 2 \<and> s = join old ps \<and> (\<forall>p\<in>set ps. \<not> xsan_str_contains (Some p) (Some old)) \<and>
    xsan_str_replace True (Some s) (Some old) (Some new) =
      Some (join new ps, Some (of_nat (length (join new ps) + 1)))"
proof -
  obtain ps where ps: "s = join old ps" "replace_loop old new s = join new ps"
    "length ps = count_loop old s + 1" "\<forall>p\<in>set ps. strstr old p = None"
    using replace_pieces [OF assms(1)] by blast
  have "count_loop old s \<noteq> 0"
    using assms by (subst count_loop.simps) (auto simp: xsan_str_contains_def)
  then show ?thesis
    using ps assms(1) replace_alloc_exact [OF assms(1), of s new]
    by (intro exI [of _ ps]) (auto simp: xsan_str_replace_def xsan_str_contains_def)
qed

theorem str_replace_spec_witness:
  "\<exists>ps. ''a--b--c'' = join ''--'' ps \<and>
    xsan_str_replace True (Some ''a--b--c'') (Some ''--'') (Some ''+'') =
      Some (join ''+'' ps, Some (of_nat (length (join ''+'' ps) + 1)))"
  using str_replace_spec [of "''--''" "''a--b--c''" "''+''"]
  by (simp add: xsan_str_contains_def) blast

text \<open>C40: Escaping allocates exactly the bytes it writes, and unescaping the escaped
  string gives the string back, whatever characters it holds.\<close>

theorem escape_round_trip:
  "\<exists>e. xsan_str_escape True (Some s) = Some (e, length e + 1) \<and> xsan_str_unescape True (Some e) = Some s"
  using length_escape [of s] unescape_escape [of s] by (simp add: xsan_str_escape_def xsan_str_unescape_def)

text \<open>The decimal notation of an integer is read back exactly when it is in the
  range of the type and refused otherwise, for \<^verbatim>\<open>int\<close> and for \<^verbatim>\<open>long\<close>.\<close>

theorem str_to_int_exact:
  "xsan_str_to_int (Some (show_int v)) = (if INT_MIN \<le> v \<and> v \<le> INT_MAX then Some v else None) \<and>
   xsan_str_to_long (Some (show_int v)) = (if LONG_MIN \<le> v \<and> v \<le> LONG_MAX then Some v else None)"
  using show_int_not_Nil [of v]
  by (auto simp: xsan_str_to_int_def xsan_str_to_long_def strtol_show INT_MIN_def INT_MAX_def
      LONG_MIN_def LONG_MAX_def)

text \<open>A line \<open>key = value\<close> with any spaces around the two parts gives exactly the
  key and the value, when each fits with its terminator.\<close>

theorem config_line_parse:
  assumes "trimmed k" "k \<noteq> []" "hd k \<noteq> CHR ''#''" "CHR ''='' \<notin> set k" "trimmed v"
    and "\<forall>w\<in>{w1, w2, w3, w4}. \<forall>c\<in>set w. isspace c" "length k < ks" "length v < vs"
  shows "xsan_parse_config_line (Some (w1 @ k @ w2 @ ''='' @ w3 @ v @ w4)) ks vs = Some (k, v)"
  by (rule parse_line [OF assms])

theorem config_line_parse_witness:
  "xsan_parse_config_line (Some '' port = a=b  '') 64 256 = Some (''port'', ''a=b'')"
  using config_line_parse [of "''port''" "''a=b''" "'' ''" "'' ''" "'' ''" "''  ''" 64 256]
  by (simp add: trimmed_def isspace_def)

end
