(* ===== verification/MetadataStore.thy ===== *)
theory MetadataStore
  imports Interfaces "HOL-Library.Char_ord" "HOL-Library.List_Lexorder" "HOL-Library.Multiset"
begin

text \<open>
  The metadata store of src/metadata/xsan\_metadata\_store.c, a wrapper of the RocksDB C interface.

  RocksDB is a parameter: the record \<open>rocksdb\<close> has one function per call the wrapper makes, over a
  type \<open>'db\<close> of database states and a type \<open>'it\<close> of iterators. An error string that a call hands
  out through its last argument is a component of the result. \<open>rocksdb_ok\<close> states the documented
  behaviour that the properties rely on: a database is a map from byte strings to byte strings, a
  write without an error takes effect, a write with an error touches no other key, and an iterator
  walks a snapshot in the bytewise order of the keys. A key or a value is the bytes at the pointer,
  up to the length that goes with it. The results of a sequence of calls determine what a later call
  gives (\<open>kv_note\<close>).
\<close>

section \<open>RocksDB\<close>

record ('db, 'it) rocksdb =
  rocksdb_open :: "bool \<Rightarrow> string \<Rightarrow> 'db ptr \<times> string ptr"
  rocksdb_put :: "'db \<Rightarrow> string \<Rightarrow> string \<Rightarrow> 'db \<times> string ptr"
  rocksdb_get :: "'db \<Rightarrow> string \<Rightarrow> string ptr \<times> string ptr"
  rocksdb_delete :: "'db \<Rightarrow> string \<Rightarrow> 'db \<times> string ptr"
  rocksdb_create_iterator :: "'db \<Rightarrow> 'it ptr"
  rocksdb_iter_seek_to_first :: "'it \<Rightarrow> 'it"
  rocksdb_iter_seek :: "'it \<Rightarrow> string \<Rightarrow> 'it"
  rocksdb_iter_next :: "'it \<Rightarrow> 'it"
  rocksdb_iter_valid :: "'it \<Rightarrow> bool"
  rocksdb_iter_key :: "'it \<Rightarrow> string"
  rocksdb_iter_value :: "'it \<Rightarrow> string"

text \<open>What a database and an iterator stand for: the entries in the order of their keys, the entries
  when the iterator was created, and those from its position on.\<close>

record ('db, 'it) rocksdb_view =
  entries :: "'db \<Rightarrow> (string \<times> string) list"
  snapshot :: "'it \<Rightarrow> (string \<times> string) list"
  upcoming :: "'it \<Rightarrow> (string \<times> string) list"

definition contents :: "('db, 'it) rocksdb_view \<Rightarrow> 'db \<Rightarrow> string \<rightharpoonup> string" where
  "contents W db = map_of (entries W db)"

definition put_law :: "('db, 'it) rocksdb \<Rightarrow> ('db, 'it) rocksdb_view \<Rightarrow> bool" where
  "put_law R W \<longleftrightarrow> (\<forall>db k v. case rocksdb_put R db k v of (db', err) \<Rightarrow>
     (\<forall>k'. k' \<noteq> k \<longrightarrow> contents W db' k' = contents W db k') \<and>
     (err = NULL \<longrightarrow> contents W db' k = Some v) \<and>
     contents W db' k \<in> {contents W db k, Some v})"

definition get_law :: "('db, 'it) rocksdb \<Rightarrow> ('db, 'it) rocksdb_view \<Rightarrow> bool" where
  "get_law R W \<longleftrightarrow> (\<forall>db k. case rocksdb_get R db k of (v, err) \<Rightarrow>
     err = NULL \<longrightarrow> v = contents W db k)"

definition delete_law :: "('db, 'it) rocksdb \<Rightarrow> ('db, 'it) rocksdb_view \<Rightarrow> bool" where
  "delete_law R W \<longleftrightarrow> (\<forall>db k. case rocksdb_delete R db k of (db', err) \<Rightarrow>
     (\<forall>k'. k' \<noteq> k \<longrightarrow> contents W db' k' = contents W db k') \<and>
     (err = NULL \<longrightarrow> contents W db' k = None) \<and>
     contents W db' k \<in> {contents W db k, None})"

definition iterator_law :: "('db, 'it) rocksdb \<Rightarrow> ('db, 'it) rocksdb_view \<Rightarrow> bool" where
  "iterator_law R W \<longleftrightarrow>
     (\<forall>db. sorted_wrt (<) (map fst (entries W db))) \<and>
     (\<forall>db it. rocksdb_create_iterator R db = Some it \<longrightarrow> snapshot W it = entries W db) \<and>
     (\<forall>it. upcoming W (rocksdb_iter_seek_to_first R it) = snapshot W it) \<and>
     (\<forall>it k. upcoming W (rocksdb_iter_seek R it k) = dropWhile (\<lambda>e. fst e < k) (snapshot W it)) \<and>
     (\<forall>it. rocksdb_iter_valid R it \<longleftrightarrow> upcoming W it \<noteq> []) \<and>
     (\<forall>it. upcoming W it \<noteq> [] \<longrightarrow>
        upcoming W (rocksdb_iter_next R it) = tl (upcoming W it) \<and>
        rocksdb_iter_key R it = fst (hd (upcoming W it)) \<and>
        rocksdb_iter_value R it = snd (hd (upcoming W it)))"

definition rocksdb_ok :: "('db, 'it) rocksdb \<Rightarrow> ('db, 'it) rocksdb_view \<Rightarrow> bool" where
  "rocksdb_ok R W \<longleftrightarrow> put_law R W \<and> get_law R W \<and> delete_law R W \<and> iterator_law R W"

section \<open>The store\<close>

record 'db xsan_metadata_store =
  db_handle :: "'db ptr"
  db_options :: bool
  write_options :: bool
  read_options :: bool
  db_path_copy :: "string ptr"

text \<open>What open and close take and give back.\<close>

datatype store_resource = R_store | R_options | R_writeoptions | R_readoptions | R_db | R_path | R_err

text \<open>The calls that can fail in \<^verbatim>\<open>xsan_metadata_store_open\<close>.\<close>

record store_env =
  store_malloc_ok :: bool
  options_ok :: bool
  writeoptions_ok :: bool
  readoptions_ok :: bool
  path_strdup_ok :: bool

definition xsan_metadata_store_open ::
  "('db, 'it) rocksdb \<Rightarrow> store_env \<Rightarrow> string ptr \<Rightarrow> bool
     \<Rightarrow> 'db xsan_metadata_store ptr \<times> store_resource resource_call list" where
  "xsan_metadata_store_open R E db_path create_if_missing =
     (case db_path of
        NULL \<Rightarrow> (NULL, [])
      | Some path \<Rightarrow>
          if \<not> store_malloc_ok E then (NULL, [])
          else if \<not> options_ok E then (NULL, [Take R_store, Give R_store])
          else if \<not> writeoptions_ok E then
            (NULL, [Take R_store, Take R_options, Give R_options, Give R_store])
          else if \<not> readoptions_ok E then
            (NULL, [Take R_store, Take R_options, Take R_writeoptions,
                    Give R_writeoptions, Give R_options, Give R_store])
          else
            (let taken = [Take R_store, Take R_options, Take R_writeoptions, Take R_readoptions];
                 given = [Give R_readoptions, Give R_writeoptions, Give R_options, Give R_store]
             in case rocksdb_open R create_if_missing path of
                  (handle, Some err) \<Rightarrow>
                    (NULL, taken @ (if handle = NULL then [] else [Take R_db]) @
                           [Take R_err, Give R_err] @ given)
                | (NULL, NULL) \<Rightarrow> (NULL, taken @ given)
                | (Some db, NULL) \<Rightarrow>
                    (Some \<lparr>db_handle = Some db, db_options = True, write_options = True,
                           read_options = True,
                           db_path_copy = (if path_strdup_ok E then Some path else NULL)\<rparr>,
                     taken @ [Take R_db] @ (if path_strdup_ok E then [Take R_path] else []))))"

definition xsan_metadata_store_close :: "'db xsan_metadata_store ptr \<Rightarrow> store_resource resource_call list" where
  "xsan_metadata_store_close store =
     (case store of
        NULL \<Rightarrow> []
      | Some s \<Rightarrow>
          (if db_handle s \<noteq> NULL then [Give R_db] else []) @
          (if read_options s then [Give R_readoptions] else []) @
          (if write_options s then [Give R_writeoptions] else []) @
          (if db_options s then [Give R_options] else []) @
          (if db_path_copy s \<noteq> NULL then [Give R_path] else []) @
          [Give R_store])"

definition xsan_metadata_store_put ::
  "('db, 'it) rocksdb \<Rightarrow> 'db xsan_metadata_store ptr \<Rightarrow> string ptr \<Rightarrow> string ptr
     \<Rightarrow> 'db xsan_metadata_store ptr \<times> xsan_error" where
  "xsan_metadata_store_put R store key v =
     (case (store, key, v) of
        (Some s, Some k, Some x) \<Rightarrow>
          (case db_handle s of
             NULL \<Rightarrow> (store, XSAN_ERROR_INVALID_PARAM)
           | Some db \<Rightarrow>
               if k = [] then (store, XSAN_ERROR_INVALID_PARAM)
               else
                 (case rocksdb_put R db k x of
                    (db', err) \<Rightarrow>
                      (Some (s\<lparr>db_handle := Some db'\<rparr>),
                       if err \<noteq> NULL then XSAN_ERROR_IO else XSAN_OK)))
      | _ \<Rightarrow> (store, XSAN_ERROR_INVALID_PARAM))"

text \<open>\<open>outs\<close> says that both places for the results are given.\<close>

definition xsan_metadata_store_get ::
  "('db, 'it) rocksdb \<Rightarrow> bool \<Rightarrow> 'db xsan_metadata_store ptr \<Rightarrow> string ptr \<Rightarrow> bool
     \<Rightarrow> xsan_error \<times> string ptr" where
  "xsan_metadata_store_get R malloc_ok store key outs =
     (case (store, key) of
        (Some s, Some k) \<Rightarrow>
          (case db_handle s of
             NULL \<Rightarrow> (XSAN_ERROR_INVALID_PARAM, NULL)
           | Some db \<Rightarrow>
               if k = [] \<or> \<not> outs then (XSAN_ERROR_INVALID_PARAM, NULL)
               else
                 (case rocksdb_get R db k of
                    (v, err) \<Rightarrow>
                      if err \<noteq> NULL then (XSAN_ERROR_IO, NULL)
                      else
                        (case v of
                           NULL \<Rightarrow> (XSAN_ERROR_NOT_FOUND, NULL)
                         | Some x \<Rightarrow>
                             if \<not> malloc_ok then (XSAN_ERROR_NO_MEMORY, NULL)
                             else (XSAN_OK, Some x))))
      | _ \<Rightarrow> (XSAN_ERROR_INVALID_PARAM, NULL))"

definition xsan_metadata_store_delete ::
  "('db, 'it) rocksdb \<Rightarrow> 'db xsan_metadata_store ptr \<Rightarrow> string ptr
     \<Rightarrow> 'db xsan_metadata_store ptr \<times> xsan_error" where
  "xsan_metadata_store_delete R store key =
     (case (store, key) of
        (Some s, Some k) \<Rightarrow>
          (case db_handle s of
             NULL \<Rightarrow> (store, XSAN_ERROR_INVALID_PARAM)
           | Some db \<Rightarrow>
               if k = [] then (store, XSAN_ERROR_INVALID_PARAM)
               else
                 (case rocksdb_delete R db k of
                    (db', err) \<Rightarrow>
                      (Some (s\<lparr>db_handle := Some db'\<rparr>),
                       if err \<noteq> NULL then XSAN_ERROR_IO else XSAN_OK)))
      | _ \<Rightarrow> (store, XSAN_ERROR_INVALID_PARAM))"

section \<open>The iterator\<close>

record 'it xsan_metadata_iterator =
  rocksdb_iter_handle :: "'it ptr"

definition xsan_metadata_iterator_create ::
  "('db, 'it) rocksdb \<Rightarrow> bool \<Rightarrow> 'db xsan_metadata_store ptr \<Rightarrow> 'it xsan_metadata_iterator ptr" where
  "xsan_metadata_iterator_create R malloc_ok store =
     (case store of
        NULL \<Rightarrow> NULL
      | Some s \<Rightarrow>
          (case db_handle s of
             NULL \<Rightarrow> NULL
           | Some db \<Rightarrow>
               if \<not> malloc_ok then NULL
               else
                 (case rocksdb_create_iterator R db of
                    NULL \<Rightarrow> NULL
                  | Some it \<Rightarrow> Some \<lparr>rocksdb_iter_handle = Some it\<rparr>)))"

definition xsan_metadata_iterator_seek_to_first ::
  "('db, 'it) rocksdb \<Rightarrow> 'it xsan_metadata_iterator ptr \<Rightarrow> 'it xsan_metadata_iterator ptr" where
  "xsan_metadata_iterator_seek_to_first R iter =
     map_option (\<lambda>i. i\<lparr>rocksdb_iter_handle :=
       map_option (rocksdb_iter_seek_to_first R) (rocksdb_iter_handle i)\<rparr>) iter"

definition xsan_metadata_iterator_seek ::
  "('db, 'it) rocksdb \<Rightarrow> 'it xsan_metadata_iterator ptr \<Rightarrow> string ptr \<Rightarrow> 'it xsan_metadata_iterator ptr" where
  "xsan_metadata_iterator_seek R iter seek_key =
     (case seek_key of
        NULL \<Rightarrow> iter
      | Some k \<Rightarrow>
          map_option (\<lambda>i. i\<lparr>rocksdb_iter_handle :=
            map_option (\<lambda>h. rocksdb_iter_seek R h k) (rocksdb_iter_handle i)\<rparr>) iter)"

definition xsan_metadata_iterator_next ::
  "('db, 'it) rocksdb \<Rightarrow> 'it xsan_metadata_iterator ptr \<Rightarrow> 'it xsan_metadata_iterator ptr" where
  "xsan_metadata_iterator_next R iter =
     map_option (\<lambda>i. i\<lparr>rocksdb_iter_handle :=
       map_option (\<lambda>h. if rocksdb_iter_valid R h then rocksdb_iter_next R h else h)
         (rocksdb_iter_handle i)\<rparr>) iter"

definition xsan_metadata_iterator_is_valid ::
  "('db, 'it) rocksdb \<Rightarrow> 'it xsan_metadata_iterator ptr \<Rightarrow> bool" where
  "xsan_metadata_iterator_is_valid R iter =
     (case Option.bind iter rocksdb_iter_handle of
        NULL \<Rightarrow> False
      | Some h \<Rightarrow> rocksdb_iter_valid R h)"

definition xsan_metadata_iterator_key ::
  "('db, 'it) rocksdb \<Rightarrow> 'it xsan_metadata_iterator ptr \<Rightarrow> string ptr" where
  "xsan_metadata_iterator_key R iter =
     (case Option.bind iter rocksdb_iter_handle of
        NULL \<Rightarrow> NULL
      | Some h \<Rightarrow> if rocksdb_iter_valid R h then Some (rocksdb_iter_key R h) else NULL)"

definition xsan_metadata_iterator_value ::
  "('db, 'it) rocksdb \<Rightarrow> 'it xsan_metadata_iterator ptr \<Rightarrow> string ptr" where
  "xsan_metadata_iterator_value R iter =
     (case Option.bind iter rocksdb_iter_handle of
        NULL \<Rightarrow> NULL
      | Some h \<Rightarrow> if rocksdb_iter_valid R h then Some (rocksdb_iter_value R h) else NULL)"

section \<open>Facts\<close>

text \<open>The map that an open store holds.\<close>

definition store_map ::
  "('db, 'it) rocksdb_view \<Rightarrow> 'db xsan_metadata_store ptr \<Rightarrow> string \<rightharpoonup> string" where
  "store_map W store =
     (case Option.bind store db_handle of NULL \<Rightarrow> Map.empty | Some db \<Rightarrow> contents W db)"

definition store_opened :: "'db xsan_metadata_store ptr \<Rightarrow> bool" where
  "store_opened store \<longleftrightarrow> Option.bind store db_handle \<noteq> NULL"

lemma store_openedE:
  assumes "store_opened store"
  obtains s db where "store = Some s" "db_handle s = Some db"
  using assms by (cases store) (auto simp: store_opened_def)

lemma put_opened: "store_opened (fst (xsan_metadata_store_put R store k v)) = store_opened store"
  by (auto simp: xsan_metadata_store_put_def store_opened_def split: option.splits prod.splits)

lemma delete_opened: "store_opened (fst (xsan_metadata_store_delete R store k)) = store_opened store"
  by (auto simp: xsan_metadata_store_delete_def store_opened_def split: option.splits prod.splits)

lemma put_frame:
  assumes "rocksdb_ok R W" "k' \<noteq> k"
  shows "store_map W (fst (xsan_metadata_store_put R store (Some k) v)) k' = store_map W store k'"
  using assms
  by (fastforce simp: xsan_metadata_store_put_def store_map_def rocksdb_ok_def put_law_def
      split: option.splits prod.splits)

lemma put_at:
  assumes "rocksdb_ok R W"
  shows "store_map W (fst (xsan_metadata_store_put R store (Some k) (Some v))) k
    \<in> {store_map W store k, Some v}"
  using assms
  by (fastforce simp: xsan_metadata_store_put_def store_map_def rocksdb_ok_def put_law_def
      split: option.splits prod.splits)

lemma put_ok:
  assumes "rocksdb_ok R W" "snd (xsan_metadata_store_put R store (Some k) (Some v)) = XSAN_OK"
  shows "store_map W (fst (xsan_metadata_store_put R store (Some k) (Some v))) =
    (store_map W store)(k \<mapsto> v)"
proof
  fix k'
  show "store_map W (fst (xsan_metadata_store_put R store (Some k) (Some v))) k' =
    ((store_map W store)(k \<mapsto> v)) k'"
  proof (cases "k' = k")
    case True
    with assms show ?thesis
      by (fastforce simp: xsan_metadata_store_put_def store_map_def rocksdb_ok_def put_law_def
          split: option.splits prod.splits if_splits)
  qed (simp add: put_frame [OF assms(1)])
qed

lemma put_error:
  assumes "store_opened store" "k \<noteq> []"
  shows "snd (xsan_metadata_store_put R store (Some k) (Some v)) \<in> {XSAN_OK, XSAN_ERROR_IO}"
  using assms by (auto simp: xsan_metadata_store_put_def elim!: store_openedE split: prod.splits)

lemma delete_frame:
  assumes "rocksdb_ok R W" "k' \<noteq> k"
  shows "store_map W (fst (xsan_metadata_store_delete R store (Some k))) k' = store_map W store k'"
  using assms
  by (fastforce simp: xsan_metadata_store_delete_def store_map_def rocksdb_ok_def delete_law_def
      split: option.splits prod.splits)

lemma delete_at:
  assumes "rocksdb_ok R W"
  shows "store_map W (fst (xsan_metadata_store_delete R store (Some k))) k \<in> {store_map W store k, None}"
  using assms
  by (fastforce simp: xsan_metadata_store_delete_def store_map_def rocksdb_ok_def delete_law_def
      split: option.splits prod.splits)

lemma delete_ok:
  assumes "rocksdb_ok R W" "snd (xsan_metadata_store_delete R store (Some k)) = XSAN_OK"
  shows "store_map W (fst (xsan_metadata_store_delete R store (Some k))) = (store_map W store)(k := None)"
proof
  fix k'
  show "store_map W (fst (xsan_metadata_store_delete R store (Some k))) k' =
    ((store_map W store)(k := None)) k'"
  proof (cases "k' = k")
    case True
    with assms show ?thesis
      by (fastforce simp: xsan_metadata_store_delete_def store_map_def rocksdb_ok_def delete_law_def
          split: option.splits prod.splits if_splits)
  qed (simp add: delete_frame [OF assms(1)])
qed

lemma delete_error:
  assumes "store_opened store" "k \<noteq> []"
  shows "snd (xsan_metadata_store_delete R store (Some k)) \<in> {XSAN_OK, XSAN_ERROR_IO}"
  using assms by (auto simp: xsan_metadata_store_delete_def elim!: store_openedE split: prod.splits)

lemma get_result:
  assumes "rocksdb_ok R W" "store_opened store" "k \<noteq> []"
  shows "xsan_metadata_store_get R m store (Some k) True =
      (case store_map W store k of
         None \<Rightarrow> (XSAN_ERROR_NOT_FOUND, NULL)
       | Some v \<Rightarrow> if m then (XSAN_OK, Some v) else (XSAN_ERROR_NO_MEMORY, NULL)) \<or>
    xsan_metadata_store_get R m store (Some k) True = (XSAN_ERROR_IO, NULL)"
proof -
  obtain s db where s: "store = Some s" "db_handle s = Some db" using assms(2) by (rule store_openedE)
  obtain v err where g: "rocksdb_get R db k = (v, err)" by force
  have "case rocksdb_get R db k of (v, err) \<Rightarrow> err = NULL \<longrightarrow> v = contents W db k"
    using assms(1) by (simp add: rocksdb_ok_def get_law_def)
  then have "err = NULL \<longrightarrow> v = contents W db k" using g by simp
  with s g assms(3) show ?thesis
    by (auto simp: xsan_metadata_store_get_def store_map_def split: option.splits)
qed

section \<open>A database as a list of its writes\<close>

text \<open>An instance of the parameter that has the documented behaviour: a database is the list of its
  writes, the last one first, and an iterator is a snapshot with a position.\<close>

type_synonym write_log = "(string \<times> string) list"
type_synonym log_iter = "(string \<times> string) list \<times> (string \<times> string) list"

definition log_entries :: "write_log \<Rightarrow> (string \<times> string) list" where
  "log_entries db = map (\<lambda>k. (k, the (map_of db k))) (sorted_list_of_set (fst ` set db))"

definition log_db :: "(write_log, log_iter) rocksdb" where
  "log_db = \<lparr>
     rocksdb_open = (\<lambda>create path. if create then (Some [], NULL) else (NULL, Some ''missing'')),
     rocksdb_put = (\<lambda>db k v. ((k, v) # db, NULL)),
     rocksdb_get = (\<lambda>db k. (map_of db k, NULL)),
     rocksdb_delete = (\<lambda>db k. (filter (\<lambda>e. fst e \<noteq> k) db, NULL)),
     rocksdb_create_iterator = (\<lambda>db. Some (log_entries db, [])),
     rocksdb_iter_seek_to_first = (\<lambda>it. (fst it, fst it)),
     rocksdb_iter_seek = (\<lambda>it k. (fst it, dropWhile (\<lambda>e. fst e < k) (fst it))),
     rocksdb_iter_next = (\<lambda>it. (fst it, tl (snd it))),
     rocksdb_iter_valid = (\<lambda>it. snd it \<noteq> []),
     rocksdb_iter_key = (\<lambda>it. fst (hd (snd it))),
     rocksdb_iter_value = (\<lambda>it. snd (hd (snd it)))\<rparr>"

definition log_view :: "(write_log, log_iter) rocksdb_view" where
  "log_view = \<lparr>entries = log_entries, snapshot = fst, upcoming = snd\<rparr>"

lemma map_of_pairs: "map_of (map (\<lambda>k. (k, f k)) ks) k = (if k \<in> set ks then Some (f k) else None)"
  by (induction ks) auto

lemma log_contents: "contents log_view db = map_of db"
proof
  fix k
  have "map_of db k = None \<longleftrightarrow> k \<notin> fst ` set db" by (rule map_of_eq_None_iff)
  then show "contents log_view db k = map_of db k"
    by (auto simp: contents_def log_view_def log_entries_def map_of_pairs)
qed

lemma log_db_ok: "rocksdb_ok log_db log_view"
  unfolding rocksdb_ok_def put_law_def get_law_def delete_law_def log_contents
  by (auto simp: log_db_def map_of_filter_key iterator_law_def log_view_def log_entries_def comp_def)

section \<open>Histories of calls\<close>

datatype kv_call =
  Kv_put "string ptr" "string ptr"
| Kv_get bool "string ptr" bool
| Kv_delete "string ptr"

fun store_call ::
  "('db, 'it) rocksdb \<Rightarrow> 'db xsan_metadata_store ptr \<Rightarrow> kv_call
     \<Rightarrow> 'db xsan_metadata_store ptr \<times> xsan_error \<times> string ptr" where
  "store_call R store (Kv_put k v) =
     (case xsan_metadata_store_put R store k v of (store', e) \<Rightarrow> (store', e, NULL))"
| "store_call R store (Kv_get malloc_ok k outs) = (store, xsan_metadata_store_get R malloc_ok store k outs)"
| "store_call R store (Kv_delete k) =
     (case xsan_metadata_store_delete R store k of (store', e) \<Rightarrow> (store', e, NULL))"

fun store_calls ::
  "('db, 'it) rocksdb \<Rightarrow> 'db xsan_metadata_store ptr \<Rightarrow> kv_call list
     \<Rightarrow> 'db xsan_metadata_store ptr \<times> (kv_call \<times> xsan_error) list" where
  "store_calls R store [] = (store, [])"
| "store_calls R store (c # cs) =
     (case store_call R store c of (store1, e, out) \<Rightarrow>
        case store_calls R store1 cs of (store', es) \<Rightarrow> (store', (c, e) # es))"

text \<open>The arguments a call needs, and whether RocksDB reports an error for it.\<close>

fun call_valid :: "kv_call \<Rightarrow> bool" where
  "call_valid (Kv_put k v) \<longleftrightarrow> k \<noteq> NULL \<and> k \<noteq> Some [] \<and> v \<noteq> NULL"
| "call_valid (Kv_get malloc_ok k outs) \<longleftrightarrow> k \<noteq> NULL \<and> k \<noteq> Some [] \<and> outs"
| "call_valid (Kv_delete k) \<longleftrightarrow> k \<noteq> NULL \<and> k \<noteq> Some []"

fun db_fails :: "('db, 'it) rocksdb \<Rightarrow> 'db \<Rightarrow> kv_call \<Rightarrow> bool" where
  "db_fails R db (Kv_put k v) \<longleftrightarrow> snd (rocksdb_put R db (the k) (the v)) \<noteq> NULL"
| "db_fails R db (Kv_get malloc_ok k outs) \<longleftrightarrow> snd (rocksdb_get R db (the k)) \<noteq> NULL"
| "db_fails R db (Kv_delete k) \<longleftrightarrow> snd (rocksdb_delete R db (the k)) \<noteq> NULL"

text \<open>What a client that sees only the calls and the reported errors knows of the map: the values of the
  keys, and the keys whose last write ended in an I/O error, of which it knows nothing.\<close>

fun kv_note :: "(string \<rightharpoonup> string) \<times> string set \<Rightarrow> kv_call \<times> xsan_error \<Rightarrow> (string \<rightharpoonup> string) \<times> string set" where
  "kv_note (m, unsure) (Kv_put k v, e) =
     (if e = XSAN_OK then (m(the k := v), unsure - {the k})
      else if e = XSAN_ERROR_IO then (m, insert (the k) unsure) else (m, unsure))"
| "kv_note (m, unsure) (Kv_delete k, e) =
     (if e = XSAN_OK then (m(the k := None), unsure - {the k})
      else if e = XSAN_ERROR_IO then (m, insert (the k) unsure) else (m, unsure))"
| "kv_note (m, unsure) (Kv_get malloc_ok k outs, e) = (m, unsure)"

definition known :: "('db, 'it) rocksdb_view \<Rightarrow> 'db xsan_metadata_store ptr
    \<Rightarrow> (string \<rightharpoonup> string) \<times> string set \<Rightarrow> bool" where
  "known W store mu \<longleftrightarrow> (\<forall>k. k \<notin> snd mu \<longrightarrow> store_map W store k = fst mu k)"

lemma call_opened: "store_opened (fst (store_call R store c)) = store_opened store"
  by (cases c) (simp_all add: put_opened delete_opened split_beta)

lemma call_refused:
  assumes "\<not> (store_opened store \<and> call_valid c)"
  shows "store_call R store c = (store, XSAN_ERROR_INVALID_PARAM, NULL)"
  using assms
  by (cases c) (auto simp: store_opened_def xsan_metadata_store_put_def xsan_metadata_store_get_def
      xsan_metadata_store_delete_def split: option.splits)

lemma call_admitted:
  assumes "rocksdb_ok R W" "Option.bind store db_handle = Some db" "call_valid c"
  shows "snd (store_call R store c) =
     (if db_fails R db c then (XSAN_ERROR_IO, NULL)
      else case c of
        Kv_get malloc_ok k outs \<Rightarrow>
          (case store_map W store (the k) of
             None \<Rightarrow> (XSAN_ERROR_NOT_FOUND, NULL)
           | Some v \<Rightarrow> if malloc_ok then (XSAN_OK, Some v) else (XSAN_ERROR_NO_MEMORY, NULL))
      | _ \<Rightarrow> (XSAN_OK, NULL))"
proof -
  obtain s where s: "store = Some s" "db_handle s = Some db" using assms(2) by (cases store) auto
  have "fst (rocksdb_get R db k) = contents W db k" if "snd (rocksdb_get R db k) = NULL" for k
    using assms(1) that by (auto simp: rocksdb_ok_def get_law_def split_beta)
  with assms(3) s show ?thesis
    by (cases c) (auto simp: xsan_metadata_store_put_def xsan_metadata_store_get_def store_map_def
        xsan_metadata_store_delete_def split_beta split: option.splits)
qed

lemma call_known:
  assumes db: "rocksdb_ok R W" and known: "known W store mu"
  shows "known W (fst (store_call R store c)) (kv_note mu (c, fst (snd (store_call R store c))))"
proof (cases "store_opened store \<and> call_valid c")
  case False
  then show ?thesis using known by (cases mu; cases c) (simp_all only: call_refused, simp_all)
next
  case True
  obtain m unsure where mu: "mu = (m, unsure)" by force
  show ?thesis
  proof (cases c)
    case (Kv_put k v)
    with True obtain k' v' where kv: "k = Some k'" "v = Some v'" "k' \<noteq> []" by auto
    show ?thesis
      using known put_ok [OF db, of store k' v'] put_frame [OF db, of _ k' store v]
        put_error [OF conjunct1 [OF True] kv(3), of R v']
      by (auto simp: known_def Kv_put kv mu split_beta)
  next
    case (Kv_delete k)
    with True obtain k' where kv: "k = Some k'" "k' \<noteq> []" by auto
    show ?thesis
      using known delete_ok [OF db, of store k'] delete_frame [OF db, of _ k' store]
        delete_error [OF conjunct1 [OF True] kv(2), of R]
      by (auto simp: known_def Kv_delete kv mu split_beta)
  qed (use known mu in simp)
qed

lemma calls_known:
  assumes "rocksdb_ok R W"
  shows "known W store mu \<Longrightarrow> store_calls R store cs = (store', es) \<Longrightarrow>
     known W store' (foldl kv_note mu es) \<and> store_opened store' = store_opened store"
proof (induction cs arbitrary: store mu es)
  case (Cons c cs)
  show ?case
    using Cons.IH [OF call_known [OF assms Cons.prems(1), of c], of "tl es"] Cons.prems(2) call_opened [of R store c]
    by (auto simp: split_beta)
qed simp

section \<open>Properties\<close>


definition sample_store :: "write_log xsan_metadata_store ptr" where
  "sample_store = Some \<lparr>db_handle = Some [(''a'', ''1'')], db_options = True, write_options = True,
     read_options = True, db_path_copy = NULL\<rparr>"


text \<open>Whatever call fails, opening a store that reports failure has given back
  everything it took, once; a store that was opened and is closed again leaves nothing behind. The
  hypothesis is that RocksDB hands out no handle together with an error.\<close>

theorem open_close_balanced:
  assumes "\<And>create path. snd (rocksdb_open R create path) \<noteq> NULL \<Longrightarrow> fst (rocksdb_open R create path) = NULL"
  shows "case xsan_metadata_store_open R E db_path create of (store, calls) \<Rightarrow>
    held {#} (calls @ xsan_metadata_store_close store) = Some {#}"
proof (cases db_path)
  case (Some path)
  obtain h e where "rocksdb_open R create path = (h, e)" by force
  with assms [of create path] Some show ?thesis
    by (cases h; cases e)
      (auto simp: xsan_metadata_store_open_def xsan_metadata_store_close_def Let_def)
qed (simp add: xsan_metadata_store_open_def xsan_metadata_store_close_def)

theorem open_close_balanced_witness:
  "case xsan_metadata_store_open log_db
      \<lparr>store_malloc_ok = True, options_ok = True, writeoptions_ok = True, readoptions_ok = True,
       path_strdup_ok = True\<rparr> (Some ''db'') True of
     (store, calls) \<Rightarrow> held {#} (calls @ xsan_metadata_store_close store) = Some {#}"
  by (rule open_close_balanced) (auto simp: log_db_def split: if_splits)

end
