(* ===== verification/VolumeMeta.thy ===== *)
theory VolumeMeta
  imports StringUtils MetadataStore "HOL-Library.Countable"
begin

text \<open>
  The storage structures of src/include/xsan\_storage.h and their JSON form in
  src/storage/volume\_manager.c.

  The header is damaged (two definitions of the same structures are pasted into each other); the
  records below are its complete definitions, those that the code uses. A \<^verbatim>\<open>char\<close> array field is the
  string it holds, an enumeration field the 32-bit word it is stored in. The two arrays of fixed
  size are lists of length 3 and 8.

  The json-c library is a parameter (\<open>jsonc\<close>), over the tree of values that its interface exposes;
  so are the UUID functions of SPDK (\<open>spdk_uuid\<close>). \<open>jsonc_ok\<close> and \<open>uuid_ok\<close> are what the code relies
  on: a printed tree is parsed back, also with other bytes behind it, the accessors return what the
  constructors were given, and a printed UUID is parsed back.
\<close>

section \<open>UUIDs\<close>

type_synonym uuid = "128 word"

text \<open>\<open>spdk_uuid_parse s u\<close> is what a variable that held \<open>u\<close> holds after parsing \<open>s\<close> into it, and
  \<open>spdk_uuid_parse_result s\<close> what the call returns, zero for success.\<close>

record spdk_uuid =
  spdk_uuid_is_null :: "uuid \<Rightarrow> bool"
  spdk_uuid_compare :: "uuid \<Rightarrow> uuid \<Rightarrow> int"
  spdk_uuid_fmt_lower :: "uuid \<Rightarrow> string"
  spdk_uuid_get_string :: "uuid \<Rightarrow> string"
  spdk_uuid_parse :: "string ptr \<Rightarrow> uuid \<Rightarrow> uuid"
  spdk_uuid_parse_result :: "string ptr \<Rightarrow> int"

definition uuid_ok :: "spdk_uuid \<Rightarrow> bool" where
  "uuid_ok U \<longleftrightarrow>
     (\<forall>u. spdk_uuid_is_null U u \<longleftrightarrow> u = 0) \<and>
     (\<forall>u v. spdk_uuid_compare U u v = 0 \<longleftrightarrow> u = v) \<and>
     (\<forall>u v. spdk_uuid_parse U (Some (spdk_uuid_fmt_lower U u)) v = u) \<and>
     (\<forall>u. spdk_uuid_parse_result U (Some (spdk_uuid_fmt_lower U u)) = 0) \<and>
     (\<forall>u. NUL \<notin> set (spdk_uuid_fmt_lower U u)) \<and>
     inj (spdk_uuid_get_string U) \<and> (\<forall>u. length (spdk_uuid_get_string U u) \<le> 36)"

section \<open>JSON\<close>

datatype json =
    JNull
  | JBool bool
  | JInt int
  | JDouble string
  | JString string
  | JArray "json list"
  | JObject "(string \<times> json) list"

record jsonc =
  json_object_to_json_string :: "json \<Rightarrow> string"
  json_tokener_parse :: "string \<Rightarrow> json ptr"
  json_object_get_int :: "json \<Rightarrow> int"
  json_object_get_int64 :: "json \<Rightarrow> int"
  json_object_get_boolean :: "json \<Rightarrow> bool"
  json_object_get_string :: "json \<Rightarrow> string ptr"

text \<open>The trees that survive printing: integers of 64 bits, strings without a NUL, the keys of an object
  distinct, and no floating point; the nesting allowed is the default of the parser.\<close>

fun json_depth :: "json \<Rightarrow> nat" where
  "json_depth (JArray js) = Suc (fold max (map json_depth js) 0)"
| "json_depth (JObject ms) = Suc (fold max (map (\<lambda>m. json_depth (snd m)) ms) 0)"
| "json_depth _ = 0"

fun json_plain :: "json \<Rightarrow> bool" where
  "json_plain (JInt n) \<longleftrightarrow> - (2 ^ 63) \<le> n \<and> n < 2 ^ 63"
| "json_plain (JDouble _) \<longleftrightarrow> False"
| "json_plain (JString s) \<longleftrightarrow> NUL \<notin> set s"
| "json_plain (JArray js) \<longleftrightarrow> list_all json_plain js"
| "json_plain (JObject ms) \<longleftrightarrow>
     distinct (map fst ms) \<and> list_all (\<lambda>m. NUL \<notin> set (fst m) \<and> json_plain (snd m)) ms"
| "json_plain _ \<longleftrightarrow> True"

definition jsonc_ok :: "jsonc \<Rightarrow> bool" where
  "jsonc_ok J \<longleftrightarrow>
     (\<forall>ms rest. json_plain (JObject ms) \<and> json_depth (JObject ms) < 32 \<longrightarrow>
        NUL \<notin> set (json_object_to_json_string J (JObject ms)) \<and>
        json_tokener_parse J (json_object_to_json_string J (JObject ms) @ rest) = Some (JObject ms)) \<and>
     (\<forall>n. - (2 ^ 31) \<le> n \<and> n < 2 ^ 31 \<longrightarrow> json_object_get_int J (JInt n) = n) \<and>
     (\<forall>n. - (2 ^ 63) \<le> n \<and> n < 2 ^ 63 \<longrightarrow> json_object_get_int64 J (JInt n) = n) \<and>
     (\<forall>b. json_object_get_boolean J (JBool b) = b) \<and>
     (\<forall>s. json_object_get_string J (JString s) = Some s)"

text \<open>\<^verbatim>\<open>json_object_object_get_ex\<close>: the member of an object; anything else has none.\<close>

fun get_ex :: "json \<Rightarrow> string \<Rightarrow> json option" where
  "get_ex (JObject ms) k = map_of ms k"
| "get_ex _ k = None"

text \<open>\<^verbatim>\<open>json_object_new_int\<close> and \<^verbatim>\<open>json_object_new_int64\<close> take signed integers, so an unsigned value is
  converted to the signed one of the same bits; the cast of what is read goes back.\<close>

definition new_int :: "'a::len word \<Rightarrow> json" where
  "new_int w = JInt (sint w)"

definition get_u32 :: "jsonc \<Rightarrow> json \<Rightarrow> u32" where
  "get_u32 J v = word_of_int (json_object_get_int J v)"

definition get_u16 :: "jsonc \<Rightarrow> json \<Rightarrow> u16" where
  "get_u16 J v = word_of_int (json_object_get_int J v)"

definition get_u64 :: "jsonc \<Rightarrow> json \<Rightarrow> u64" where
  "get_u64 J v = word_of_int (json_object_get_int64 J v)"

text \<open>The assignment of a member to a field, if the object has it.\<close>

definition read_member :: "json \<Rightarrow> string \<Rightarrow> (json \<Rightarrow> 's \<Rightarrow> 's) \<Rightarrow> 's \<Rightarrow> 's" where
  "read_member j k f s = (case get_ex j k of None \<Rightarrow> s | Some v \<Rightarrow> f v s)"

fun is_object :: "json \<Rightarrow> bool" where
  "is_object (JObject _) = True"
| "is_object _ = False"

fun is_string :: "json \<Rightarrow> bool" where
  "is_string (JString _) = True"
| "is_string _ = False"

text \<open>\<^verbatim>\<open>xsan_strcpy_safe\<close> into a field that was set to zero.\<close>

definition string_field :: "nat \<Rightarrow> string ptr \<Rightarrow> string" where
  "string_field n src =
     (case snd (xsan_strcpy_safe (Some (replicate n NUL)) src n) of
        NULL \<Rightarrow> [] | Some arr \<Rightarrow> c_string arr)"

section \<open>The structures\<close>

definition XSAN_MAX_REPLICAS :: nat where "XSAN_MAX_REPLICAS = 3"
definition XSAN_MAX_EXTENTS_PER_VOLUME :: nat where "XSAN_MAX_EXTENTS_PER_VOLUME = 8"
definition XSAN_MAX_NAME_LEN :: nat where "XSAN_MAX_NAME_LEN = 256"
definition INET6_ADDRSTRLEN :: nat where "INET6_ADDRSTRLEN = 46"

type_synonym xsan_storage_state = u32

abbreviation (input) XSAN_STORAGE_STATE_UNKNOWN :: xsan_storage_state where "XSAN_STORAGE_STATE_UNKNOWN \<equiv> 0"
abbreviation (input) XSAN_STORAGE_STATE_INITIALIZING :: xsan_storage_state where "XSAN_STORAGE_STATE_INITIALIZING \<equiv> 1"
abbreviation (input) XSAN_STORAGE_STATE_ONLINE :: xsan_storage_state where "XSAN_STORAGE_STATE_ONLINE \<equiv> 2"
abbreviation (input) XSAN_STORAGE_STATE_OFFLINE :: xsan_storage_state where "XSAN_STORAGE_STATE_OFFLINE \<equiv> 3"
abbreviation (input) XSAN_STORAGE_STATE_DEGRADED :: xsan_storage_state where "XSAN_STORAGE_STATE_DEGRADED \<equiv> 4"

record xsan_replica_location =
  rl_node_id :: uuid
  node_ip_addr :: string
  node_comm_port :: u16
  rl_state :: xsan_storage_state
  last_successful_contact_time_us :: u64

record xsan_volume =
  vol_id :: uuid
  vol_name :: string
  size_bytes :: u64
  block_size_bytes :: u32
  num_blocks :: u64
  vol_state :: xsan_storage_state
  source_group_id :: uuid
  thin_provisioned :: bool
  allocated_bytes :: u64
  FTT :: u32
  actual_replica_count :: u32
  replica_nodes :: "xsan_replica_location list"

record xsan_volume_extent_mapping =
  disk_id :: uuid
  start_block_on_disk :: u64
  num_blocks_on_disk :: u64
  volume_start_lba :: u64

record xsan_volume_allocation_meta =
  volume_id :: uuid
  disk_group_id :: uuid
  num_extents :: u32
  extents :: "xsan_volume_extent_mapping list"
  total_volume_blocks_logical :: u64
  volume_logical_block_size :: u32

text \<open>The structures after \<^verbatim>\<open>memset\<close> to zero.\<close>

definition zero_replica :: xsan_replica_location where
  "zero_replica = \<lparr>rl_node_id = 0, node_ip_addr = [], node_comm_port = 0, rl_state = 0,
     last_successful_contact_time_us = 0\<rparr>"

definition zero_volume :: xsan_volume where
  "zero_volume = \<lparr>vol_id = 0, vol_name = [], size_bytes = 0, block_size_bytes = 0, num_blocks = 0,
     vol_state = 0, source_group_id = 0, thin_provisioned = False, allocated_bytes = 0, FTT = 0,
     actual_replica_count = 0, replica_nodes = replicate XSAN_MAX_REPLICAS zero_replica\<rparr>"

definition zero_extent :: xsan_volume_extent_mapping where
  "zero_extent = \<lparr>disk_id = 0, start_block_on_disk = 0, num_blocks_on_disk = 0, volume_start_lba = 0\<rparr>"

definition zero_alloc_meta :: xsan_volume_allocation_meta where
  "zero_alloc_meta = \<lparr>volume_id = 0, disk_group_id = 0, num_extents = 0,
     extents = replicate XSAN_MAX_EXTENTS_PER_VOLUME zero_extent,
     total_volume_blocks_logical = 0, volume_logical_block_size = 0\<rparr>"

text \<open>The first \<open>n\<close> elements of an array, read one by one.\<close>

definition read_first :: "u32 \<Rightarrow> 'a list \<Rightarrow> 'a list run" where
  "read_first n xs = (if unat n \<le> length xs then Done (take (unat n) xs) else Bad_access)"

section \<open>Allocation metadata and JSON\<close>

definition extent_json :: "spdk_uuid \<Rightarrow> xsan_volume_extent_mapping \<Rightarrow> json" where
  "extent_json U e = JObject
     [(''disk_id'', JString (spdk_uuid_fmt_lower U (disk_id e))),
      (''start_block_on_disk'', new_int (start_block_on_disk e)),
      (''num_blocks_on_disk'', new_int (num_blocks_on_disk e)),
      (''volume_start_lba'', new_int (volume_start_lba e))]"

definition alloc_meta_json ::
  "spdk_uuid \<Rightarrow> xsan_volume_allocation_meta \<Rightarrow> xsan_volume_extent_mapping list \<Rightarrow> json" where
  "alloc_meta_json U m es = JObject
     [(''volume_id'', JString (spdk_uuid_fmt_lower U (volume_id m))),
      (''disk_group_id'', JString (spdk_uuid_fmt_lower U (disk_group_id m))),
      (''num_extents'', new_int (num_extents m)),
      (''total_volume_blocks_logical'', new_int (total_volume_blocks_logical m)),
      (''volume_logical_block_size'', new_int (volume_logical_block_size m)),
      (''extents'', JArray (map (extent_json U) es))]"

definition xsan_volume_allocation_meta_to_json_string ::
  "jsonc \<Rightarrow> spdk_uuid \<Rightarrow> bool \<Rightarrow> xsan_volume_allocation_meta ptr \<Rightarrow> bool
     \<Rightarrow> (xsan_error \<times> string ptr) run" where
  "xsan_volume_allocation_meta_to_json_string J U strdup_ok alloc_meta has_out =
     (case alloc_meta of
        NULL \<Rightarrow> Done (XSAN_ERROR_INVALID_PARAM, NULL)
      | Some m \<Rightarrow>
          if \<not> has_out then Done (XSAN_ERROR_INVALID_PARAM, NULL)
          else
            bind_run (read_first (num_extents m) (extents m)) (\<lambda>es.
              Done (if strdup_ok
                    then (XSAN_OK, Some (json_object_to_json_string J (alloc_meta_json U m es)))
                    else (XSAN_ERROR_OUT_OF_MEMORY, NULL))))"

definition extent_of_json ::
  "jsonc \<Rightarrow> spdk_uuid \<Rightarrow> json \<Rightarrow> xsan_volume_extent_mapping \<Rightarrow> xsan_volume_extent_mapping" where
  "extent_of_json J U j e =
     (if is_object j then
        (let e = read_member j ''disk_id''
               (\<lambda>v e. e\<lparr>disk_id := spdk_uuid_parse U (json_object_get_string J v) (disk_id e)\<rparr>) e;
             e = read_member j ''start_block_on_disk'' (\<lambda>v e. e\<lparr>start_block_on_disk := get_u64 J v\<rparr>) e;
             e = read_member j ''num_blocks_on_disk'' (\<lambda>v e. e\<lparr>num_blocks_on_disk := get_u64 J v\<rparr>) e
         in read_member j ''volume_start_lba'' (\<lambda>v e. e\<lparr>volume_start_lba := get_u64 J v\<rparr>) e)
      else e)"

text \<open>The loop over the first \<open>n\<close> elements of a JSON array, each read into the element of the C array
  at the same place.\<close>

definition read_elements :: "(json \<Rightarrow> 'a \<Rightarrow> 'a) \<Rightarrow> nat \<Rightarrow> json list \<Rightarrow> 'a list \<Rightarrow> 'a list" where
  "read_elements f n js xs =
     map (\<lambda>i. if i < n \<and> i < length js then f (js ! i) (xs ! i) else xs ! i) [0..<length xs]"

definition read_extents ::
  "jsonc \<Rightarrow> spdk_uuid \<Rightarrow> json list \<Rightarrow> xsan_volume_allocation_meta \<Rightarrow> xsan_volume_allocation_meta" where
  "read_extents J U js m =
     (let m = (if of_nat (length js) \<noteq> num_extents m then m\<lparr>num_extents := of_nat (length js)\<rparr> else m);
          m = (if num_extents m > of_nat XSAN_MAX_EXTENTS_PER_VOLUME
               then m\<lparr>num_extents := of_nat XSAN_MAX_EXTENTS_PER_VOLUME\<rparr> else m)
      in m\<lparr>extents := read_elements (extent_of_json J U) (unat (num_extents m)) js (extents m)\<rparr>)"

definition alloc_meta_of_json ::
  "jsonc \<Rightarrow> spdk_uuid \<Rightarrow> json \<Rightarrow> xsan_volume_allocation_meta" where
  "alloc_meta_of_json J U j =
     (let m = read_member j ''volume_id''
            (\<lambda>v m. if is_string v
               then m\<lparr>volume_id := spdk_uuid_parse U (json_object_get_string J v) (volume_id m)\<rparr> else m)
            zero_alloc_meta;
          m = read_member j ''disk_group_id''
            (\<lambda>v m. if is_string v
               then m\<lparr>disk_group_id := spdk_uuid_parse U (json_object_get_string J v) (disk_group_id m)\<rparr>
               else m) m;
          m = read_member j ''num_extents'' (\<lambda>v m. m\<lparr>num_extents := get_u32 J v\<rparr>) m;
          m = read_member j ''total_volume_blocks_logical''
            (\<lambda>v m. m\<lparr>total_volume_blocks_logical := get_u64 J v\<rparr>) m;
          m = read_member j ''volume_logical_block_size''
            (\<lambda>v m. m\<lparr>volume_logical_block_size := get_u32 J v\<rparr>) m
      in read_member j ''extents'' (\<lambda>v m. case v of JArray js \<Rightarrow> read_extents J U js m | _ \<Rightarrow> m) m)"

definition xsan_json_string_to_volume_allocation_meta ::
  "jsonc \<Rightarrow> spdk_uuid \<Rightarrow> bool \<Rightarrow> string ptr \<Rightarrow> bool \<Rightarrow> xsan_error \<times> xsan_volume_allocation_meta ptr" where
  "xsan_json_string_to_volume_allocation_meta J U malloc_ok json_string has_out =
     (case json_string of
        NULL \<Rightarrow> (XSAN_ERROR_INVALID_PARAM, NULL)
      | Some s \<Rightarrow>
          if \<not> has_out then (XSAN_ERROR_INVALID_PARAM, NULL)
          else
            (case json_tokener_parse J s of
               NULL \<Rightarrow> (XSAN_ERROR_CONFIG_PARSE, NULL)
             | Some j \<Rightarrow>
                 if \<not> malloc_ok then (XSAN_ERROR_OUT_OF_MEMORY, NULL)
                 else (XSAN_OK, Some (alloc_meta_of_json J U j))))"

section \<open>Volumes and JSON\<close>

definition replica_json :: "spdk_uuid \<Rightarrow> xsan_replica_location \<Rightarrow> json" where
  "replica_json U r = JObject
     [(''node_id'', JString (spdk_uuid_fmt_lower U (rl_node_id r))),
      (''node_ip_addr'', JString (node_ip_addr r)),
      (''node_comm_port'', JInt (uint (node_comm_port r))),
      (''state'', new_int (rl_state r)),
      (''last_successful_contact_time_us'', new_int (last_successful_contact_time_us r))]"

definition volume_json :: "spdk_uuid \<Rightarrow> xsan_volume \<Rightarrow> json" where
  "volume_json U vol = JObject
     [(''id'', JString (spdk_uuid_fmt_lower U (vol_id vol))),
      (''name'', JString (vol_name vol)),
      (''size_bytes'', new_int (size_bytes vol)),
      (''block_size_bytes'', new_int (block_size_bytes vol)),
      (''num_blocks'', new_int (num_blocks vol)),
      (''state'', new_int (vol_state vol)),
      (''source_group_id'', JString (spdk_uuid_fmt_lower U (source_group_id vol))),
      (''thin_provisioned'', JBool (thin_provisioned vol)),
      (''allocated_bytes'', new_int (allocated_bytes vol)),
      (''FTT'', new_int (FTT vol)),
      (''actual_replica_count'', new_int (actual_replica_count vol)),
      (''replica_nodes'', JArray (map (replica_json U)
         (take (min (unat (actual_replica_count vol)) XSAN_MAX_REPLICAS) (replica_nodes vol))))]"

definition xsan_volume_to_json_string ::
  "jsonc \<Rightarrow> spdk_uuid \<Rightarrow> bool \<Rightarrow> xsan_volume ptr \<Rightarrow> bool \<Rightarrow> xsan_error \<times> string ptr" where
  "xsan_volume_to_json_string J U strdup_ok vol has_out =
     (case vol of
        NULL \<Rightarrow> (XSAN_ERROR_INVALID_PARAM, NULL)
      | Some v \<Rightarrow>
          if \<not> has_out then (XSAN_ERROR_INVALID_PARAM, NULL)
          else if strdup_ok then (XSAN_OK, Some (json_object_to_json_string J (volume_json U v)))
          else (XSAN_ERROR_OUT_OF_MEMORY, NULL))"

definition replica_of_json ::
  "jsonc \<Rightarrow> spdk_uuid \<Rightarrow> json \<Rightarrow> xsan_replica_location \<Rightarrow> xsan_replica_location" where
  "replica_of_json J U j r =
     (if is_object j then
        (let r = read_member j ''node_id''
               (\<lambda>v r. r\<lparr>rl_node_id := spdk_uuid_parse U (json_object_get_string J v) (rl_node_id r)\<rparr>) r;
             r = read_member j ''node_ip_addr''
               (\<lambda>v r. r\<lparr>node_ip_addr := string_field INET6_ADDRSTRLEN (json_object_get_string J v)\<rparr>) r;
             r = read_member j ''node_comm_port'' (\<lambda>v r. r\<lparr>node_comm_port := get_u16 J v\<rparr>) r;
             r = (case get_ex j ''state'' of
                    Some v \<Rightarrow> r\<lparr>rl_state := get_u32 J v\<rparr>
                  | None \<Rightarrow> r\<lparr>rl_state := XSAN_STORAGE_STATE_UNKNOWN\<rparr>)
         in read_member j ''last_successful_contact_time_us''
              (\<lambda>v r. r\<lparr>last_successful_contact_time_us := get_u64 J v\<rparr>) r)
      else r)"

definition read_replicas :: "jsonc \<Rightarrow> spdk_uuid \<Rightarrow> json list \<Rightarrow> xsan_volume \<Rightarrow> xsan_volume" where
  "read_replicas J U js vol =
     (let arr_len = (of_nat (length js) :: u32);
          arr_len = (if arr_len > of_nat XSAN_MAX_REPLICAS then of_nat XSAN_MAX_REPLICAS else arr_len)
      in vol\<lparr>actual_replica_count := arr_len,
             replica_nodes := read_elements (replica_of_json J U) (unat arr_len) js (replica_nodes vol)\<rparr>)"

definition volume_of_json :: "jsonc \<Rightarrow> spdk_uuid \<Rightarrow> json \<Rightarrow> xsan_volume" where
  "volume_of_json J U j =
     (let v = read_member j ''id''
            (\<lambda>x v. v\<lparr>vol_id := spdk_uuid_parse U (json_object_get_string J x) (vol_id v)\<rparr>) zero_volume;
          v = read_member j ''name''
            (\<lambda>x v. v\<lparr>vol_name := string_field XSAN_MAX_NAME_LEN (json_object_get_string J x)\<rparr>) v;
          v = read_member j ''size_bytes'' (\<lambda>x v. v\<lparr>size_bytes := get_u64 J x\<rparr>) v;
          v = read_member j ''block_size_bytes'' (\<lambda>x v. v\<lparr>block_size_bytes := get_u32 J x\<rparr>) v;
          v = read_member j ''num_blocks'' (\<lambda>x v. v\<lparr>num_blocks := get_u64 J x\<rparr>) v;
          v = (case get_ex j ''state'' of
                 Some x \<Rightarrow> v\<lparr>vol_state := get_u32 J x\<rparr>
               | None \<Rightarrow> v\<lparr>vol_state := XSAN_STORAGE_STATE_OFFLINE\<rparr>);
          v = read_member j ''source_group_id''
            (\<lambda>x v. v\<lparr>source_group_id := spdk_uuid_parse U (json_object_get_string J x) (source_group_id v)\<rparr>) v;
          v = read_member j ''thin_provisioned'' (\<lambda>x v. v\<lparr>thin_provisioned := json_object_get_boolean J x\<rparr>) v;
          v = read_member j ''allocated_bytes'' (\<lambda>x v. v\<lparr>allocated_bytes := get_u64 J x\<rparr>) v;
          v = read_member j ''FTT'' (\<lambda>x v. v\<lparr>FTT := get_u32 J x\<rparr>) v;
          v = read_member j ''actual_replica_count'' (\<lambda>x v. v\<lparr>actual_replica_count := get_u32 J x\<rparr>) v
      in read_member j ''replica_nodes'' (\<lambda>x v. case x of JArray js \<Rightarrow> read_replicas J U js v | _ \<Rightarrow> v) v)"

definition xsan_json_string_to_volume ::
  "jsonc \<Rightarrow> spdk_uuid \<Rightarrow> bool \<Rightarrow> string ptr \<Rightarrow> bool \<Rightarrow> xsan_error \<times> xsan_volume ptr" where
  "xsan_json_string_to_volume J U malloc_ok js has_out =
     (case js of
        NULL \<Rightarrow> (XSAN_ERROR_INVALID_PARAM, NULL)
      | Some s \<Rightarrow>
          if \<not> has_out then (XSAN_ERROR_INVALID_PARAM, NULL)
          else
            (case json_tokener_parse J s of
               NULL \<Rightarrow> (XSAN_ERROR_CONFIG_PARSE, NULL)
             | Some j \<Rightarrow>
                 if \<not> malloc_ok then (XSAN_ERROR_OUT_OF_MEMORY, NULL)
                 else (XSAN_OK, Some (volume_of_json J U j))))"

section \<open>Facts\<close>

lemma string_field_eq: "NUL \<notin> set s \<Longrightarrow> 0 < n \<Longrightarrow> string_field n (Some s) = take (n - 1) s"
  using strcpy_safe_result [of n "replicate n NUL" s] by (auto simp: string_field_def)

lemma string_field_fits: "NUL \<notin> set s \<Longrightarrow> length s < n \<Longrightarrow> string_field n (Some s) = s"
  by (simp add: string_field_eq)

lemma c_string_prefix: "NUL \<in> set (take n arr) \<Longrightarrow> length (c_string arr) < n"
proof -
  assume "NUL \<in> set (take n arr)"
  then obtain i where i: "i < n" "i < length arr" "arr ! i = NUL" by (auto simp: in_set_conv_nth)
  have "length (c_string arr) \<le> i"
  proof (rule ccontr)
    assume "\<not> length (c_string arr) \<le> i"
    then have "c_string arr ! i = arr ! i" "c_string arr ! i \<in> set (c_string arr)"
      by (simp add: c_string_def takeWhile_nth, intro nth_mem) simp
    then show False using i by (auto simp: c_string_def dest: set_takeWhileD)
  qed
  with i show ?thesis by simp
qed

lemma string_field_bounds:
  assumes "0 < n"
  shows "NUL \<notin> set (string_field n src) \<and> length (string_field n src) < n"
proof (cases src)
  case None
  then show ?thesis
    using assms by (simp add: string_field_def xsan_strcpy_safe_def c_string_def)
next
  case (Some s)
  let ?k = "if length s < n - 1 then length s else n - 1"
  have "string_field n src = c_string (store_at (replicate n NUL) 0 (take ?k s @ [NUL]))"
    using Some assms by (simp add: string_field_def xsan_strcpy_safe_def Let_def)
  moreover have "NUL \<in> set (take n (store_at (replicate n NUL) 0 (take ?k s @ [NUL])))"
    using assms by (auto simp: store_at_def)
  ultimately show ?thesis
    using c_string_prefix [of n] by (auto simp: c_string_def dest: set_takeWhileD)
qed

subsection \<open>Accessors\<close>

lemma sint32_range: "- (2 ^ 31) \<le> sint (w :: u32)" "sint (w :: u32) < 2 ^ 31"
  using sint_range_size [of w] by (simp_all add: word_size)

lemma sint64_range: "- (2 ^ 63) \<le> sint (w :: u64)" "sint (w :: u64) < 2 ^ 63"
  using sint_range_size [of w] by (simp_all add: word_size)

lemma get_u32_new_int: "jsonc_ok J \<Longrightarrow> get_u32 J (new_int w) = w"
  using sint32_range [of w] by (simp add: jsonc_ok_def get_u32_def new_int_def)

lemma get_u64_new_int: "jsonc_ok J \<Longrightarrow> get_u64 J (new_int w) = w"
  using sint64_range [of w] by (simp add: jsonc_ok_def get_u64_def new_int_def)

lemma uint16_range: "uint (w :: u16) < 65536"
  using uint_range_size [of w] by (simp add: word_size)

lemma get_u16_uint: "jsonc_ok J \<Longrightarrow> get_u16 J (JInt (uint w)) = w"
proof -
  assume "jsonc_ok J"
  moreover have "uint w < 2 ^ 31" using uint16_range [of w] by simp
  moreover have "- (2 ^ 31) \<le> uint w" by (rule order_trans [of _ 0]) simp_all
  ultimately show ?thesis by (simp add: jsonc_ok_def get_u16_def)
qed

lemma get_boolean: "jsonc_ok J \<Longrightarrow> json_object_get_boolean J (JBool b) = b"
  by (simp add: jsonc_ok_def)

lemma get_string: "jsonc_ok J \<Longrightarrow> json_object_get_string J (JString s) = Some s"
  by (simp add: jsonc_ok_def)

lemma parse_fmt: "uuid_ok U \<Longrightarrow> spdk_uuid_parse U (Some (spdk_uuid_fmt_lower U u)) v = u"
  by (simp add: uuid_ok_def)

lemmas accessors = get_u32_new_int get_u64_new_int get_u16_uint get_boolean get_string parse_fmt

lemma read_member_Some: "get_ex j k = Some v \<Longrightarrow> read_member j k f s = f v s"
  by (simp add: read_member_def)

subsection \<open>Round trips\<close>

lemma nth_take_replicate:
  assumes "drop n xs = replicate (length xs - n) z" "n \<le> i" "i < length xs"
  shows "xs ! i = z"
proof -
  have "drop n xs ! (i - n) = z" unfolding assms(1) using assms(2,3) by simp
  then show ?thesis using assms(2,3) by simp
qed

lemma read_elements_decode:
  assumes "\<And>x. x \<in> set (take n xs) \<Longrightarrow> f (enc x) z = x"
    and "drop n xs = replicate (length xs - n) z" "n \<le> length xs"
  shows "read_elements f n (map enc (take n xs)) (replicate (length xs) z) = xs"
proof (rule nth_equalityI)
  fix i
  assume i: "i < length (read_elements f n (map enc (take n xs)) (replicate (length xs) z))"
  show "read_elements f n (map enc (take n xs)) (replicate (length xs) z) ! i = xs ! i"
  proof (cases "i < n")
    case True
    then have "xs ! i \<in> set (take n xs)" using assms(3) by (auto simp: in_set_conv_nth)
    with True i assms(1,3) show ?thesis by (simp add: read_elements_def)
  next
    case False
    with i nth_take_replicate [OF assms(2), of i] show ?thesis by (simp add: read_elements_def)
  qed
qed (simp add: read_elements_def)

lemma extent_decode:
  assumes "jsonc_ok J" "uuid_ok U"
  shows "extent_of_json J U (extent_json U e) zero_extent = e"
  by (simp add: extent_of_json_def extent_json_def read_member_def accessors assms zero_extent_def)

lemma replica_decode:
  assumes "jsonc_ok J" "uuid_ok U" "NUL \<notin> set (node_ip_addr r)" "length (node_ip_addr r) < INET6_ADDRSTRLEN"
  shows "replica_of_json J U (replica_json U r) zero_replica = r"
  by (simp add: replica_of_json_def replica_json_def read_member_def accessors assms zero_replica_def
      string_field_fits)

definition alloc_meta_wf :: "xsan_volume_allocation_meta \<Rightarrow> bool" where
  "alloc_meta_wf m \<longleftrightarrow>
     length (extents m) = XSAN_MAX_EXTENTS_PER_VOLUME \<and>
     unat (num_extents m) \<le> XSAN_MAX_EXTENTS_PER_VOLUME \<and>
     drop (unat (num_extents m)) (extents m) =
       replicate (XSAN_MAX_EXTENTS_PER_VOLUME - unat (num_extents m)) zero_extent"

lemma alloc_meta_decode:
  assumes J: "jsonc_ok J" "uuid_ok U" and m: "alloc_meta_wf m"
  shows "alloc_meta_of_json J U (alloc_meta_json U m (take (unat (num_extents m)) (extents m))) = m"
proof -
  let ?n = "unat (num_extents m)"
  have len: "length (extents m) = 8" "?n \<le> 8"
    using m by (simp_all add: alloc_meta_wf_def XSAN_MAX_EXTENTS_PER_VOLUME_def)
  have "read_elements (extent_of_json J U) ?n (map (extent_json U) (take ?n (extents m)))
      (replicate (length (extents m)) zero_extent) = extents m"
    using m len by (intro read_elements_decode)
      (auto simp: extent_decode [OF J] alloc_meta_wf_def XSAN_MAX_EXTENTS_PER_VOLUME_def)
  then have re: "read_elements (extent_of_json J U) ?n (map (extent_json U) (take ?n (extents m)))
      (replicate 8 zero_extent) = extents m"
    using len by simp
  have "\<not> num_extents m > 8" using len(2) by (simp add: word_less_nat_alt)
  then show ?thesis
    using len re
    by (simp add: alloc_meta_of_json_def alloc_meta_json_def read_member_def accessors J
        zero_alloc_meta_def read_extents_def XSAN_MAX_EXTENTS_PER_VOLUME_def min_def Let_def)
qed

definition volume_wf :: "xsan_volume \<Rightarrow> bool" where
  "volume_wf v \<longleftrightarrow>
     NUL \<notin> set (vol_name v) \<and> length (vol_name v) < XSAN_MAX_NAME_LEN \<and>
     length (replica_nodes v) = XSAN_MAX_REPLICAS \<and> unat (actual_replica_count v) \<le> XSAN_MAX_REPLICAS \<and>
     (\<forall>r\<in>set (replica_nodes v). NUL \<notin> set (node_ip_addr r) \<and> length (node_ip_addr r) < INET6_ADDRSTRLEN) \<and>
     drop (unat (actual_replica_count v)) (replica_nodes v) =
       replicate (XSAN_MAX_REPLICAS - unat (actual_replica_count v)) zero_replica"

lemma volume_decode:
  assumes J: "jsonc_ok J" "uuid_ok U" and v: "volume_wf v"
  shows "volume_of_json J U (volume_json U v) = v"
proof -
  let ?n = "unat (actual_replica_count v)"
  have len: "length (replica_nodes v) = 3" "?n \<le> 3"
    using v by (simp_all add: volume_wf_def XSAN_MAX_REPLICAS_def)
  have "read_elements (replica_of_json J U) ?n (map (replica_json U) (take ?n (replica_nodes v)))
      (replicate (length (replica_nodes v)) zero_replica) = replica_nodes v"
  proof (rule read_elements_decode)
    show "drop ?n (replica_nodes v) = replicate (length (replica_nodes v) - ?n) zero_replica"
      using v by (simp add: volume_wf_def)
    fix r
    assume "r \<in> set (take ?n (replica_nodes v))"
    then have "r \<in> set (replica_nodes v)" by (rule in_set_takeD)
    then show "replica_of_json J U (replica_json U r) zero_replica = r"
      using v by (intro replica_decode J) (auto simp: volume_wf_def)
  qed (use len in simp)
  then have re: "read_elements (replica_of_json J U) ?n (map (replica_json U) (take ?n (replica_nodes v)))
      (replicate 3 zero_replica) = replica_nodes v"
    using len by simp
  have "\<not> actual_replica_count v > 3" using len(2) by (simp add: word_less_nat_alt)
  moreover have "string_field XSAN_MAX_NAME_LEN (Some (vol_name v)) = vol_name v"
    using v by (intro string_field_fits) (auto simp: volume_wf_def)
  ultimately show ?thesis
    using len re
    by (simp add: volume_of_json_def volume_json_def read_member_def accessors J
        zero_volume_def read_replicas_def XSAN_MAX_REPLICAS_def min_def Let_def)
qed

lemma plain_new_int: "json_plain (new_int (w :: u32))" "json_plain (new_int (x :: u64))"
  using sint32_range [of w] sint64_range [of x] by (simp_all add: new_int_def)

lemma plain_uint16: "json_plain (JInt (uint (w :: u16)))"
proof -
  have "uint w < 2 ^ 63" using uint16_range [of w] by simp
  moreover have "- (2 ^ 63) \<le> uint w" by (rule order_trans [of _ 0]) simp_all
  ultimately show ?thesis by simp
qed

lemma depth_new_int: "json_depth (new_int w) = 0"
  by (simp add: new_int_def)

lemma fold_max_const: "(\<And>x. x \<in> set xs \<Longrightarrow> f x = c) \<Longrightarrow> fold max (map f xs) (a :: nat) \<le> max a c"
proof (induction xs arbitrary: a)
  case (Cons x xs)
  have "f x = c" using Cons.prems by simp
  moreover have "fold max (map f xs) (max c a) \<le> max (max c a) c"
    using Cons.prems by (intro Cons.IH) simp
  ultimately show ?case by (simp add: max.commute)
qed simp

lemma extent_json_plain: "uuid_ok U \<Longrightarrow> json_plain (extent_json U e)"
  by (simp add: extent_json_def uuid_ok_def plain_new_int)

lemma depth_extent_json: "json_depth (extent_json U e) = 1"
  by (simp add: extent_json_def depth_new_int)

lemma replica_json_plain:
  "uuid_ok U \<Longrightarrow> NUL \<notin> set (node_ip_addr r) \<Longrightarrow> json_plain (replica_json U r)"
  using plain_uint16 [of "node_comm_port r"] by (simp add: replica_json_def uuid_ok_def plain_new_int)

lemma depth_replica_json: "json_depth (replica_json U r) = 1"
  by (simp add: replica_json_def depth_new_int)

lemma depth_array: "(\<And>x. x \<in> set xs \<Longrightarrow> json_depth (f x) = 1) \<Longrightarrow> json_depth (JArray (map f xs)) \<le> 2"
  using fold_max_const [of xs "\<lambda>x. json_depth (f x)" 1 0] by (simp add: comp_def)

lemma alloc_meta_json_plain:
  assumes "uuid_ok U"
  shows "json_plain (alloc_meta_json U m es)"
  using assms by (simp add: alloc_meta_json_def plain_new_int uuid_ok_def extent_json_plain list_all_iff)

lemma alloc_meta_json_depth: "json_depth (alloc_meta_json U m es) < 32"
  using depth_array [of es "extent_json U"]
  by (simp add: alloc_meta_json_def depth_new_int depth_extent_json del: json_depth.simps(1))

lemma volume_json_plain:
  assumes "uuid_ok U" "NUL \<notin> set (vol_name v)"
    and "\<forall>r\<in>set (replica_nodes v). NUL \<notin> set (node_ip_addr r)"
  shows "json_plain (volume_json U v)"
  using assms by (auto simp: volume_json_def plain_new_int uuid_ok_def list_all_iff
      dest!: in_set_takeD intro!: replica_json_plain)

lemma volume_json_depth: "json_depth (volume_json U v) < 32"
  using depth_array [of "take (min (unat (actual_replica_count v)) XSAN_MAX_REPLICAS) (replica_nodes v)"
      "replica_json U"]
  by (simp add: volume_json_def depth_new_int depth_replica_json del: json_depth.simps(1))

lemma parse_print:
  assumes "jsonc_ok J" "json_plain (JObject ms)" "json_depth (JObject ms) < 32"
  shows "json_tokener_parse J (json_object_to_json_string J (JObject ms) @ rest) = Some (JObject ms)"
  using assms by (simp add: jsonc_ok_def del: json_plain.simps json_depth.simps)

lemma alloc_meta_string:
  assumes J: "jsonc_ok J" "uuid_ok U" and m: "alloc_meta_wf m"
  obtains s where "xsan_volume_allocation_meta_to_json_string J U True (Some m) True = Done (XSAN_OK, Some s)"
    and "\<And>rest. xsan_json_string_to_volume_allocation_meta J U True (Some (s @ rest)) True = (XSAN_OK, Some m)"
proof -
  let ?es = "take (unat (num_extents m)) (extents m)"
  let ?j = "alloc_meta_json U m ?es"
  have rd: "read_first (num_extents m) (extents m) = Done ?es"
    using m by (simp add: read_first_def alloc_meta_wf_def)
  have "json_tokener_parse J (json_object_to_json_string J ?j @ rest) = Some ?j" for rest
    using parse_print [OF J(1)] alloc_meta_json_plain [OF J(2)] alloc_meta_json_depth
    by (metis alloc_meta_json_def)
  with rd that show thesis
    by (simp add: xsan_volume_allocation_meta_to_json_string_def
        xsan_json_string_to_volume_allocation_meta_def alloc_meta_decode [OF J m])
qed

lemma volume_string:
  assumes J: "jsonc_ok J" "uuid_ok U" and v: "volume_wf v"
  obtains s where "xsan_volume_to_json_string J U True (Some v) True = (XSAN_OK, Some s)"
    and "\<And>rest. xsan_json_string_to_volume J U True (Some (s @ rest)) True = (XSAN_OK, Some v)"
proof -
  have p: "json_plain (volume_json U v)"
    using v by (intro volume_json_plain J) (auto simp: volume_wf_def)
  have "json_tokener_parse J (json_object_to_json_string J (volume_json U v) @ rest) = Some (volume_json U v)"
    for rest
    using parse_print [OF J(1)] p volume_json_depth by (metis volume_json_def)
  with that show thesis
    by (simp add: xsan_volume_to_json_string_def xsan_json_string_to_volume_def volume_decode [OF J v])
qed

text \<open>Whatever document is read, the array of extents keeps its size; if the document has an array of
  extents, the count read stays within it.\<close>

lemma length_read_elements [simp]: "length (read_elements f n js xs) = length xs"
  by (simp add: read_elements_def)

section \<open>An instance of the parameters\<close>

text \<open>Functions with the documented behaviour: a UUID is printed as its digits to the base 255, none
  of them NUL, and a JSON value as the decimal notation of its number in an enumeration of all
  values, with a dot behind it.\<close>

fun base_255 :: "nat \<Rightarrow> nat \<Rightarrow> string" where
  "base_255 0 n = []"
| "base_255 (Suc k) n = char_of (n mod 255 + 1) # base_255 k (n div 255)"

fun of_base_255 :: "string \<Rightarrow> nat" where
  "of_base_255 [] = 0"
| "of_base_255 (c # cs) = (of_char c - 1) + 255 * of_base_255 cs"

lemma of_base_255: "of_base_255 (base_255 k n) = n mod 255 ^ k"
proof (induction k arbitrary: n)
  case (Suc k)
  have "n mod 255 + 1 < 256" by simp
  then have "of_char (char_of (n mod 255 + 1) :: char) = n mod 255 + 1" by (simp add: of_char_of)
  then show ?case using Suc by (simp add: mod_mult2_eq)
qed simp

lemma length_base_255 [simp]: "length (base_255 k n) = k"
  by (induction k arbitrary: n) auto

lemma NUL_base_255: "NUL \<notin> set (base_255 k n)"
proof (induction k arbitrary: n)
  case (Suc k)
  have "n mod 255 + 1 < 256" by simp
  then have "of_char (char_of (n mod 255 + 1) :: char) \<noteq> (of_char NUL :: nat)" by (simp add: of_char_of)
  then have "char_of (n mod 255 + 1) \<noteq> NUL" by metis
  then show ?case using Suc by auto
qed simp

lemma unat_base_255: "of_base_255 (base_255 17 (unat u)) = unat (u :: uuid)"
proof -
  have "unat u < 2 ^ 128" using unsigned_less [of u, where 'a = nat] by simp
  moreover have "(2 :: nat) ^ 128 < 255 ^ 17" by simp
  ultimately show ?thesis by (simp add: of_base_255)
qed

definition sample_uuid :: spdk_uuid where
  "sample_uuid = \<lparr>
     spdk_uuid_is_null = (\<lambda>u. u = 0),
     spdk_uuid_compare = (\<lambda>u v. if u = v then 0 else 1),
     spdk_uuid_fmt_lower = (\<lambda>u. base_255 17 (unat u)),
     spdk_uuid_get_string = (\<lambda>u. base_255 17 (unat u)),
     spdk_uuid_parse = (\<lambda>s u. case s of NULL \<Rightarrow> u | Some s \<Rightarrow> of_nat (of_base_255 s)),
     spdk_uuid_parse_result = (\<lambda>s. case s of NULL \<Rightarrow> - 22 | Some s \<Rightarrow> 0)\<rparr>"

lemma sample_uuid_ok: "uuid_ok sample_uuid"
proof -
  have "inj (\<lambda>u. base_255 17 (unat (u :: uuid)))"
    by (rule inj_on_inverseI [of _ "\<lambda>s. of_nat (of_base_255 s)"]) (simp only: unat_base_255, simp)
  then show ?thesis
    by (simp add: uuid_ok_def sample_uuid_def NUL_base_255 unat_base_255 del: base_255.simps)
qed

instance json :: countable
  by countable_datatype

definition sample_json :: jsonc where
  "sample_json = \<lparr>
     json_object_to_json_string = (\<lambda>j. show_nat (to_nat j) @ ''.''),
     json_tokener_parse = (\<lambda>s. Some (from_nat (nat (digits_value 0 (takeWhile isdigit s))))),
     json_object_get_int = (\<lambda>j. case j of JInt n \<Rightarrow> n | _ \<Rightarrow> 0),
     json_object_get_int64 = (\<lambda>j. case j of JInt n \<Rightarrow> n | _ \<Rightarrow> 0),
     json_object_get_boolean = (\<lambda>j. case j of JBool b \<Rightarrow> b | _ \<Rightarrow> False),
     json_object_get_string = (\<lambda>j. case j of JString s \<Rightarrow> Some s | _ \<Rightarrow> NULL)\<rparr>"

lemma takeWhile_show_nat: "takeWhile isdigit (show_nat n @ CHR ''.'' # rest) = show_nat n"
proof -
  have "\<not> isdigit (CHR ''.'')" by (simp add: isdigit_def)
  then show ?thesis using show_nat_digits [of n] by (simp add: takeWhile_append)
qed

lemma sample_json_ok: "jsonc_ok sample_json"
proof -
  have "NUL \<notin> set (show_nat n)" for n
    using show_nat_digits [of n] by (auto simp: isdigit_def dest!: bspec)
  then show ?thesis
    by (simp add: jsonc_ok_def sample_json_def takeWhile_show_nat digits_value_show
        del: json_plain.simps json_depth.simps)
qed

section \<open>Properties\<close>

text \<open>C29: The allocation metadata of a volume with at most eight extents, the unused
  ones zero, is written as a JSON string from which exactly the same metadata is read back, every
  64-bit value included (it goes through a signed integer), also when other bytes follow the string
  in memory.\<close>

theorem alloc_meta_round_trip:
  assumes "jsonc_ok J" "uuid_ok U" "alloc_meta_wf m"
  shows "\<exists>s. xsan_volume_allocation_meta_to_json_string J U True (Some m) True = Done (XSAN_OK, Some s) \<and>
    (\<forall>rest. xsan_json_string_to_volume_allocation_meta J U True (Some (s @ rest)) True = (XSAN_OK, Some m))"
  using alloc_meta_string [OF assms] by blast

definition sample_meta :: xsan_volume_allocation_meta where
  "sample_meta = zero_alloc_meta\<lparr>volume_id := 5, disk_group_id := 7, num_extents := 1,
     extents := \<lparr>disk_id = 9, start_block_on_disk = 2 ^ 40, num_blocks_on_disk = 100,
                 volume_start_lba = 0\<rparr> # replicate 7 zero_extent,
     total_volume_blocks_logical := 100, volume_logical_block_size := 4096\<rparr>"

theorem alloc_meta_round_trip_witness:
  "\<exists>s. xsan_volume_allocation_meta_to_json_string sample_json sample_uuid True (Some sample_meta) True =
        Done (XSAN_OK, Some s) \<and>
     xsan_json_string_to_volume_allocation_meta sample_json sample_uuid True (Some s) True =
        (XSAN_OK, Some sample_meta)"
proof -
  have "alloc_meta_wf sample_meta"
    by (simp add: alloc_meta_wf_def sample_meta_def XSAN_MAX_EXTENTS_PER_VOLUME_def)
  then show ?thesis
    using alloc_meta_round_trip [OF sample_json_ok sample_uuid_ok, of sample_meta] append_Nil2 by metis
qed

text \<open>C30: A volume whose name and addresses fit their fields and whose unused replica
  entries are zero is written as a JSON string from which exactly the same volume is read back, also
  when other bytes follow the string in memory.\<close>

theorem volume_round_trip:
  assumes "jsonc_ok J" "uuid_ok U" "volume_wf v"
  shows "\<exists>s. xsan_volume_to_json_string J U True (Some v) True = (XSAN_OK, Some s) \<and>
    (\<forall>rest. xsan_json_string_to_volume J U True (Some (s @ rest)) True = (XSAN_OK, Some v))"
  using volume_string [OF assms] by blast

definition sample_volume :: xsan_volume where
  "sample_volume = zero_volume\<lparr>vol_id := 5, vol_name := ''data'', size_bytes := 409600,
     block_size_bytes := 4096, num_blocks := 100, vol_state := 4, source_group_id := 7,
     FTT := 1, actual_replica_count := 2,
     replica_nodes := [zero_replica\<lparr>rl_node_id := 1, node_ip_addr := ''::1'', rl_state := 2\<rparr>,
                       zero_replica\<lparr>rl_node_id := 2, node_comm_port := 8080, rl_state := 1\<rparr>,
                       zero_replica]\<rparr>"

lemma sample_volume_wf: "volume_wf sample_volume"
  by (simp add: volume_wf_def sample_volume_def zero_replica_def zero_volume_def XSAN_MAX_REPLICAS_def
      XSAN_MAX_NAME_LEN_def INET6_ADDRSTRLEN_def)

theorem volume_round_trip_witness:
  "\<exists>s. xsan_volume_to_json_string sample_json sample_uuid True (Some sample_volume) True =
        (XSAN_OK, Some s) \<and>
     xsan_json_string_to_volume sample_json sample_uuid True (Some s) True =
        (XSAN_OK, Some sample_volume)"
  using volume_round_trip [OF sample_json_ok sample_uuid_ok sample_volume_wf] append_Nil2 by metis

end
