(* ===== verification/Config.thy ===== *)
theory Config
  imports VolumeMeta
begin

text \<open>
  The configuration manager of src/utils/config.c and src/include/xsan\_config.h.

  The linked list of items is the list of its keys and values, a new item in front. The tag and the
  union of an item are the datatype \<open>config_value\<close>; a string value is a null pointer after a failed
  duplication. Which allocations of a call succeed is the record \<open>allocs\<close>. Floating point numbers are a
  type parameter with the conversions of the C library (\<open>double_format\<close>); which texts \<^verbatim>\<open>strtod\<close> takes for
  a number is modelled in StringUtils. The files are the record \<open>file_system\<close>. Output to the log, and
  \<^verbatim>\<open>xsan_config_print\<close>, which is nothing else, are left out.

  \<open>typed\<close> facts: a value is only ever read back at the type it was stored with. Saving and loading gives
  back every value, at the type that its text has.
\<close>

section \<open>Items\<close>

datatype 'd config_value =
    String_val "string ptr"
  | Int_val int
  | Long_val int
  | Double_val 'd
  | Bool_val bool

record 'd xsan_config =
  items :: "(string \<times> 'd config_value) list"
  item_count :: u64
  config_file :: "string ptr"
  auto_reload :: bool
  last_modified :: int

record allocs =
  item_ok :: bool
  key_ok :: bool
  val_ok :: bool
  lower_ok :: bool

record 'd double_format =
  double_of :: "string \<Rightarrow> 'd \<times> bool"
  show_double :: "'d \<Rightarrow> string"

record file_system =
  files :: "string \<Rightarrow> string option"
  mtimes :: "string \<Rightarrow> int option"
  can_write :: "string \<Rightarrow> bool"

definition find_config_item :: "'d xsan_config ptr \<Rightarrow> string ptr \<Rightarrow> 'd config_value ptr" where
  "find_config_item config key =
     (case (config, key) of (Some c, Some k) \<Rightarrow> map_of (items c) k | _ \<Rightarrow> NULL)"

fun update_item :: "string \<Rightarrow> 'v \<Rightarrow> (string \<times> 'v) list \<Rightarrow> (string \<times> 'v) list" where
  "update_item k v [] = []"
| "update_item k v ((k', v') # its) = (if k' = k then (k', v) # its else (k', v') # update_item k v its)"

text \<open>The switch over the type: what the item holds afterwards and what the call returns.\<close>

fun stored_value :: "allocs \<Rightarrow> 'd config_value \<Rightarrow> 'd config_value \<times> bool" where
  "stored_value al (String_val (Some s)) = (if val_ok al then (String_val (Some s), True) else (String_val NULL, False))"
| "stored_value al v = (v, True)"

fun null_value :: "'d config_value \<Rightarrow> bool" where
  "null_value (String_val NULL) = True"
| "null_value _ = False"

text \<open>The list with the value at the key: in the place of the old one, or in front.\<close>

definition put_item :: "'d xsan_config \<Rightarrow> string \<Rightarrow> 'd config_value \<Rightarrow> 'd xsan_config" where
  "put_item c k v =
     (case find_config_item (Some c) (Some k) of
        Some _ \<Rightarrow> c\<lparr>items := update_item k v (items c)\<rparr>
      | NULL \<Rightarrow> c\<lparr>items := (k, v) # items c, item_count := item_count c + 1\<rparr>)"

definition set_config_item ::
  "allocs \<Rightarrow> 'd xsan_config ptr \<Rightarrow> string ptr \<Rightarrow> 'd config_value \<Rightarrow> bool \<times> 'd xsan_config ptr" where
  "set_config_item al config key v =
     (case (config, key) of
        (Some c, Some k) \<Rightarrow>
          if null_value v then (False, config)
          else if find_config_item config key = NULL \<and> \<not> item_ok al then (False, config)
          else if find_config_item config key = NULL \<and> \<not> key_ok al then (False, config)
          else (case stored_value al v of (v, ok) \<Rightarrow> (ok, Some (put_item c k v)))
      | _ \<Rightarrow> (False, config))"

section \<open>Access\<close>

definition xsan_config_create :: "bool \<Rightarrow> 'd xsan_config ptr" where
  "xsan_config_create malloc_ok =
     (if \<not> malloc_ok then NULL
      else Some \<lparr>items = [], item_count = 0, config_file = NULL, auto_reload = False, last_modified = 0\<rparr>)"

definition xsan_config_set_string ::
  "allocs \<Rightarrow> 'd xsan_config ptr \<Rightarrow> string ptr \<Rightarrow> string ptr \<Rightarrow> bool \<times> 'd xsan_config ptr" where
  "xsan_config_set_string al config key v = set_config_item al config key (String_val v)"

definition xsan_config_set_int ::
  "allocs \<Rightarrow> 'd xsan_config ptr \<Rightarrow> string ptr \<Rightarrow> int \<Rightarrow> bool \<times> 'd xsan_config ptr" where
  "xsan_config_set_int al config key v = set_config_item al config key (Int_val v)"

definition xsan_config_set_long ::
  "allocs \<Rightarrow> 'd xsan_config ptr \<Rightarrow> string ptr \<Rightarrow> int \<Rightarrow> bool \<times> 'd xsan_config ptr" where
  "xsan_config_set_long al config key v = set_config_item al config key (Long_val v)"

definition xsan_config_set_double ::
  "allocs \<Rightarrow> 'd xsan_config ptr \<Rightarrow> string ptr \<Rightarrow> 'd \<Rightarrow> bool \<times> 'd xsan_config ptr" where
  "xsan_config_set_double al config key v = set_config_item al config key (Double_val v)"

definition xsan_config_set_bool ::
  "allocs \<Rightarrow> 'd xsan_config ptr \<Rightarrow> string ptr \<Rightarrow> bool \<Rightarrow> bool \<times> 'd xsan_config ptr" where
  "xsan_config_set_bool al config key v = set_config_item al config key (Bool_val v)"

definition xsan_config_get_string :: "'d xsan_config ptr \<Rightarrow> string ptr \<Rightarrow> string ptr \<Rightarrow> string ptr" where
  "xsan_config_get_string config key default_value =
     (case find_config_item config key of Some (String_val s) \<Rightarrow> s | _ \<Rightarrow> default_value)"

definition xsan_config_get_int :: "'d xsan_config ptr \<Rightarrow> string ptr \<Rightarrow> int \<Rightarrow> int" where
  "xsan_config_get_int config key default_value =
     (case find_config_item config key of Some (Int_val n) \<Rightarrow> n | _ \<Rightarrow> default_value)"

definition xsan_config_get_long :: "'d xsan_config ptr \<Rightarrow> string ptr \<Rightarrow> int \<Rightarrow> int" where
  "xsan_config_get_long config key default_value =
     (case find_config_item config key of Some (Long_val n) \<Rightarrow> n | _ \<Rightarrow> default_value)"

definition xsan_config_get_double :: "'d xsan_config ptr \<Rightarrow> string ptr \<Rightarrow> 'd \<Rightarrow> 'd" where
  "xsan_config_get_double config key default_value =
     (case find_config_item config key of Some (Double_val d) \<Rightarrow> d | _ \<Rightarrow> default_value)"

definition xsan_config_get_bool :: "'d xsan_config ptr \<Rightarrow> string ptr \<Rightarrow> bool \<Rightarrow> bool" where
  "xsan_config_get_bool config key default_value =
     (case find_config_item config key of Some (Bool_val b) \<Rightarrow> b | _ \<Rightarrow> default_value)"

definition xsan_config_has_key :: "'d xsan_config ptr \<Rightarrow> string ptr \<Rightarrow> bool" where
  "xsan_config_has_key config key \<longleftrightarrow> find_config_item config key \<noteq> NULL"

fun remove_item :: "string \<Rightarrow> (string \<times> 'v) list \<Rightarrow> (string \<times> 'v) list option" where
  "remove_item k [] = None"
| "remove_item k ((k', v) # its) = (if k' = k then Some its else map_option (Cons (k', v)) (remove_item k its))"

definition xsan_config_remove_key :: "'d xsan_config ptr \<Rightarrow> string ptr \<Rightarrow> bool \<times> 'd xsan_config ptr" where
  "xsan_config_remove_key config key =
     (case (config, key) of
        (Some c, Some k) \<Rightarrow>
          (case remove_item k (items c) of
             Some its \<Rightarrow> (True, Some (c\<lparr>items := its, item_count := item_count c - 1\<rparr>))
           | None \<Rightarrow> (False, config))
      | _ \<Rightarrow> (False, config))"

definition xsan_config_clear :: "'d xsan_config ptr \<Rightarrow> 'd xsan_config ptr" where
  "xsan_config_clear config = map_option (\<lambda>c. c\<lparr>items := [], item_count := 0\<rparr>) config"

definition xsan_config_get_item_count :: "'d xsan_config ptr \<Rightarrow> u64" where
  "xsan_config_get_item_count config = (case config of NULL \<Rightarrow> 0 | Some c \<Rightarrow> item_count c)"

definition xsan_config_set_auto_reload :: "'d xsan_config ptr \<Rightarrow> bool \<Rightarrow> 'd xsan_config ptr" where
  "xsan_config_set_auto_reload config b = map_option (\<lambda>c. c\<lparr>auto_reload := b\<rparr>) config"

section \<open>Loading and saving\<close>

text \<open>The type that a text is given: the first of the conversions that takes the whole of it.\<close>

definition typed_value :: "'d double_format \<Rightarrow> allocs \<Rightarrow> string \<Rightarrow> 'd config_value" where
  "typed_value F al v =
     (case xsan_str_to_int (Some v) of
        Some n \<Rightarrow> Int_val n
      | None \<Rightarrow>
     (case xsan_str_to_long (Some v) of
        Some n \<Rightarrow> Long_val n
      | None \<Rightarrow>
     (case xsan_str_to_double (double_of F) (Some v) of
        Some d \<Rightarrow> Double_val d
      | None \<Rightarrow>
     (case xsan_str_to_bool (lower_ok al) (Some v) of
        Some b \<Rightarrow> Bool_val b
      | None \<Rightarrow> String_val (Some v)))))"

definition load_line ::
  "'d double_format \<Rightarrow> allocs \<Rightarrow> string \<Rightarrow> 'd xsan_config ptr \<Rightarrow> 'd xsan_config ptr" where
  "load_line F al line config =
     (case xsan_parse_config_line (Some line) 256 512 of
        None \<Rightarrow> config
      | Some (k, v) \<Rightarrow> snd (set_config_item al config (Some k) (typed_value F al v)))"

text \<open>The loops over the lines; the allocations of the \<open>n\<close>-th line are \<open>al n\<close>.\<close>

fun load_lines ::
  "'d double_format \<Rightarrow> (nat \<Rightarrow> allocs) \<Rightarrow> nat \<Rightarrow> string list \<Rightarrow> 'd xsan_config ptr \<Rightarrow> 'd xsan_config ptr" where
  "load_lines F al n [] config = config"
| "load_lines F al n (l # ls) config = load_lines F al (Suc n) ls (load_line F (al n) l config)"

text \<open>The lines that \<^verbatim>\<open>strtok\<close> finds in a string.\<close>

function token_list :: "string \<Rightarrow> string \<Rightarrow> string list" where
  "token_list delim s = (case strtok delim s of None \<Rightarrow> [] | Some (t, s') \<Rightarrow> t # token_list delim s')"
  by pat_completeness auto

termination
  by (relation "measure (\<lambda>(_, s). length s)") (auto dest: strtok_shorter)

definition xsan_config_load_from_string ::
  "'d double_format \<Rightarrow> (nat \<Rightarrow> allocs) \<Rightarrow> bool \<Rightarrow> 'd xsan_config ptr \<Rightarrow> string ptr \<Rightarrow> bool \<times> 'd xsan_config ptr" where
  "xsan_config_load_from_string F al dup_ok config config_str =
     (case (config, config_str) of
        (Some c, Some s) \<Rightarrow>
          (let config = xsan_config_clear config in
           if \<not> dup_ok then (False, config)
           else (True, load_lines F al 0 (token_list [CHR 0x0A] s) config))
      | _ \<Rightarrow> (False, config))"

text \<open>\<^verbatim>\<open>fgets\<close> into an array of \<open>n\<close> characters: up to the end of the line, and at most \<open>n - 1\<close> characters.\<close>

definition fgets :: "nat \<Rightarrow> string \<Rightarrow> string" where
  "fgets n s = take (min (n - 1) (length (takeWhile (\<lambda>c. c \<noteq> CHR 0x0A) s) + 1)) s"

lemma fgets_not_Nil: "s \<noteq> [] \<Longrightarrow> \<not> n \<le> Suc 0 \<Longrightarrow> fgets n s \<noteq> []"
  by (auto simp: fgets_def)

function file_lines :: "nat \<Rightarrow> string \<Rightarrow> string list" where
  "file_lines n s = (if s = [] \<or> n \<le> 1 then [] else fgets n s # file_lines n (drop (length (fgets n s)) s))"
  by pat_completeness auto

termination
  by (relation "measure (\<lambda>(_, s). length s)") (auto simp: fgets_not_Nil intro!: diff_less)

text \<open>\<open>own\<close> says that the argument is the pointer that the configuration holds itself: it is freed before
  it is duplicated.\<close>

definition xsan_config_load_from_file ::
  "'d double_format \<Rightarrow> (nat \<Rightarrow> allocs) \<Rightarrow> bool \<Rightarrow> file_system \<Rightarrow> bool \<Rightarrow> 'd xsan_config ptr \<Rightarrow> string ptr
     \<Rightarrow> (bool \<times> 'd xsan_config ptr) run" where
  "xsan_config_load_from_file F al dup_ok fs own config file =
     (case (config, file) of
        (Some c, Some f) \<Rightarrow>
          (case files fs f of
             None \<Rightarrow> Done (False, config)
           | Some content \<Rightarrow>
               (let c = (case mtimes fs f of Some t \<Rightarrow> c\<lparr>last_modified := t\<rparr> | None \<Rightarrow> c) in
                if own then Bad_access
                else
                  (let c = c\<lparr>config_file := (if dup_ok then Some f else NULL)\<rparr>;
                       config = xsan_config_clear (Some c)
                   in Done (True, load_lines F al 0 (map c_string (file_lines 1024 content)) config))))
      | _ \<Rightarrow> Done (False, config))"

definition xsan_config_is_modified :: "file_system \<Rightarrow> 'd xsan_config ptr \<Rightarrow> bool" where
  "xsan_config_is_modified fs config =
     (case config of
        NULL \<Rightarrow> False
      | Some c \<Rightarrow>
          (case config_file c of
             NULL \<Rightarrow> False
           | Some f \<Rightarrow> (case mtimes fs f of None \<Rightarrow> False | Some t \<Rightarrow> t > last_modified c)))"

definition xsan_config_reload ::
  "'d double_format \<Rightarrow> (nat \<Rightarrow> allocs) \<Rightarrow> bool \<Rightarrow> file_system \<Rightarrow> 'd xsan_config ptr
     \<Rightarrow> (bool \<times> 'd xsan_config ptr) run" where
  "xsan_config_reload F al dup_ok fs config =
     (case config of
        NULL \<Rightarrow> Done (False, config)
      | Some c \<Rightarrow>
          (case config_file c of
             NULL \<Rightarrow> Done (False, config)
           | Some f \<Rightarrow> xsan_config_load_from_file F al dup_ok fs True config (Some f)))"

text \<open>The text of a value; a null pointer must not be printed.\<close>

fun show_value :: "'d double_format \<Rightarrow> 'd config_value \<Rightarrow> string run" where
  "show_value F (String_val NULL) = Bad_access"
| "show_value F (String_val (Some s)) = Done s"
| "show_value F (Int_val n) = Done (show_int n)"
| "show_value F (Long_val n) = Done (show_int n)"
| "show_value F (Double_val d) = Done (show_double F d)"
| "show_value F (Bool_val b) = Done (if b then ''true'' else ''false'')"

fun show_items :: "'d double_format \<Rightarrow> (string \<times> 'd config_value) list \<Rightarrow> string run" where
  "show_items F [] = Done []"
| "show_items F ((k, v) # its) =
     bind_run (show_value F v) (\<lambda>s. bind_run (show_items F its) (\<lambda>rest.
       Done (k @ '' = '' @ s @ [CHR 0x0A] @ rest)))"

definition file_heading :: "string \<Rightarrow> string" where
  "file_heading time_text =
     ''# XSAN Configuration File'' @ [CHR 0x0A] @ ''# Generated at '' @ time_text @ [CHR 0x0A] @ [CHR 0x0A]"

text \<open>\<open>time_text\<close> is the current time as \<^verbatim>\<open>ctime\<close> writes it, \<open>now\<close> the time that the file gets.\<close>

definition xsan_config_save_to_file ::
  "'d double_format \<Rightarrow> string \<Rightarrow> int \<Rightarrow> file_system \<Rightarrow> 'd xsan_config ptr \<Rightarrow> string ptr
     \<Rightarrow> (bool \<times> file_system) run" where
  "xsan_config_save_to_file F time_text now fs config file =
     (case (config, file) of
        (Some c, Some f) \<Rightarrow>
          if \<not> can_write fs f then Done (False, fs)
          else
            bind_run (show_items F (items c)) (\<lambda>its.
              Done (True, fs\<lparr>files := (files fs)(f \<mapsto> file_heading time_text @ its),
                             mtimes := (mtimes fs)(f \<mapsto> now)\<rparr>))
      | _ \<Rightarrow> Done (False, fs))"

section \<open>Facts\<close>

declare file_lines.simps [simp del]
declare token_list.simps [simp del]

subsection \<open>The table of items\<close>

definition table_inv :: "'d xsan_config \<Rightarrow> bool" where
  "table_inv c \<longleftrightarrow> distinct (map fst (items c)) \<and> item_count c = of_nat (length (items c))"

definition drop_item :: "'d xsan_config \<Rightarrow> string \<Rightarrow> 'd xsan_config" where
  "drop_item c k = (case snd (xsan_config_remove_key (Some c) (Some k)) of Some c' \<Rightarrow> c' | NULL \<Rightarrow> c)"

lemma keys_update [simp]: "map fst (update_item k v its) = map fst its"
  by (induction its) auto

lemma length_update [simp]: "length (update_item k v its) = length its"
  by (induction its) auto

lemma map_of_update:
  "map_of (update_item k v its) k' = (if k' = k \<and> map_of its k \<noteq> None then Some v else map_of its k')"
  by (induction its) auto

lemma remove_item_None: "remove_item k its = None \<longleftrightarrow> map_of its k = None"
  by (induction its) auto

lemma remove_item_Some:
  "distinct (map fst its) \<Longrightarrow> remove_item k its = Some its' \<Longrightarrow>
     its' = filter (\<lambda>kv. fst kv \<noteq> k) its \<and> length its = Suc (length its')"
proof (induction its arbitrary: its')
  case (Cons a its)
  have "fst a \<notin> fst ` set its" using Cons.prems(1) by simp
  then have "filter (\<lambda>kv. fst kv \<noteq> fst a) its = its" by (metis (mono_tags, lifting) filter_True image_eqI)
  with Cons show ?case by (cases a) (auto split: if_splits)
qed simp

lemma table_inv_put: "table_inv c \<Longrightarrow> table_inv (put_item c k v)"
  by (auto simp: table_inv_def put_item_def find_config_item_def map_of_eq_None_iff split: option.splits)

lemma find_put: "map_of (items (put_item c k v)) k' = (if k' = k then Some v else map_of (items c) k')"
  by (auto simp: put_item_def find_config_item_def map_of_update split: option.splits)

lemma drop_item_spec:
  assumes "table_inv c"
  shows "table_inv (drop_item c k)" "items (drop_item c k) = filter (\<lambda>kv. fst kv \<noteq> k) (items c)"
proof -
  have d: "distinct (map fst (items c))" "item_count c = of_nat (length (items c))"
    using assms by (simp_all add: table_inv_def)
  have n: "map_of (items c) k = None \<Longrightarrow> filter (\<lambda>kv. fst kv \<noteq> k) (items c) = items c"
    by (auto simp: filter_id_conv map_of_eq_None_iff)
  show "items (drop_item c k) = filter (\<lambda>kv. fst kv \<noteq> k) (items c)"
    using n remove_item_Some [OF d(1), of k] remove_item_None [of k "items c"]
    by (auto simp: drop_item_def xsan_config_remove_key_def split: option.splits)
  then show "table_inv (drop_item c k)"
    using d remove_item_Some [OF d(1), of k]
    by (auto simp: table_inv_def drop_item_def xsan_config_remove_key_def distinct_map_filter
        split: option.splits)
qed

interpretation cfg: keyed_table table_inv "\<lambda>c. map_of (items c)" put_item drop_item
  by unfold_locales (simp_all add: table_inv_put find_put drop_item_spec map_of_filter_key)

lemma set_item_cases:
  "set_config_item al (Some c) (Some k) v =
     (if null_value v \<or> map_of (items c) k = None \<and> \<not> (item_ok al \<and> key_ok al) then (False, Some c)
      else (snd (stored_value al v), Some (put_item c k (fst (stored_value al v)))))"
  by (simp add: set_config_item_def find_config_item_def split: prod.splits)

lemma remove_key_cases:
  "xsan_config_remove_key (Some c) (Some k) =
     (map_of (items c) k \<noteq> None, Some (drop_item c k))"
  using remove_item_None [of k "items c"]
  by (auto simp: drop_item_def xsan_config_remove_key_def split: option.splits)

subsection \<open>Types\<close>

text \<open>The numbers are in the range of their C types.\<close>

fun value_ok :: "'d config_value \<Rightarrow> bool" where
  "value_ok (Int_val n) \<longleftrightarrow> INT_MIN \<le> n \<and> n \<le> INT_MAX"
| "value_ok (Long_val n) \<longleftrightarrow> LONG_MIN \<le> n \<and> n \<le> LONG_MAX"
| "value_ok _ \<longleftrightarrow> True"

definition config_wf :: "'d xsan_config \<Rightarrow> bool" where
  "config_wf c \<longleftrightarrow> table_inv c \<and> (\<forall>k v. map_of (items c) k = Some v \<longrightarrow> value_ok v)"

text \<open>The configurations that calls of the module lead to.\<close>

inductive cfg_reach :: "'d double_format \<Rightarrow> 'd xsan_config \<Rightarrow> bool" for F where
  cr_create: "xsan_config_create True = Some c \<Longrightarrow> cfg_reach F c"
| cr_set: "cfg_reach F c \<Longrightarrow> value_ok v \<Longrightarrow> set_config_item al (Some c) key v = (b, Some c') \<Longrightarrow> cfg_reach F c'"
| cr_remove: "cfg_reach F c \<Longrightarrow> xsan_config_remove_key (Some c) key = (b, Some c') \<Longrightarrow> cfg_reach F c'"
| cr_clear: "cfg_reach F c \<Longrightarrow> xsan_config_clear (Some c) = Some c' \<Longrightarrow> cfg_reach F c'"
| cr_auto: "cfg_reach F c \<Longrightarrow> xsan_config_set_auto_reload (Some c) b = Some c' \<Longrightarrow> cfg_reach F c'"
| cr_string: "cfg_reach F c \<Longrightarrow>
    xsan_config_load_from_string F als dup_ok (Some c) str = (b, Some c') \<Longrightarrow> cfg_reach F c'"
| cr_file: "cfg_reach F c \<Longrightarrow>
    xsan_config_load_from_file F als dup_ok fs own (Some c) file = Done (b, Some c') \<Longrightarrow> cfg_reach F c'"

lemma str_to_int_range: "xsan_str_to_int s = Some n \<Longrightarrow> INT_MIN \<le> n \<and> n \<le> INT_MAX"
  by (auto simp: xsan_str_to_int_def split: option.splits prod.splits if_splits)

lemma str_to_long_range: "xsan_str_to_long s = Some n \<Longrightarrow> LONG_MIN \<le> n \<and> n \<le> LONG_MAX"
proof -
  have "fst (strtol t) \<in> {LONG_MIN..LONG_MAX}" for t
    by (auto simp: strtol_def Let_def LONG_MIN_def LONG_MAX_def split: prod.splits)
  then show "xsan_str_to_long s = Some n \<Longrightarrow> LONG_MIN \<le> n \<and> n \<le> LONG_MAX"
    by (auto simp: xsan_str_to_long_def split: option.splits prod.splits if_splits) (metis atLeastAtMost_iff fst_conv)+
qed

lemma typed_value_ok: "value_ok (typed_value F al v)" "\<not> null_value (typed_value F al v)"
  by (auto simp: typed_value_def str_to_int_range str_to_long_range split: option.splits)

lemma stored_value_ok: "value_ok v \<Longrightarrow> value_ok (fst (stored_value al v))"
  by (induction al v rule: stored_value.induct) auto

lemma wf_put: "config_wf c \<Longrightarrow> value_ok v \<Longrightarrow> config_wf (put_item c k v)"
  by (simp add: config_wf_def cfg.put_inv find_put)

lemma wf_drop: "config_wf c \<Longrightarrow> config_wf (drop_item c k)"
  by (auto simp: config_wf_def cfg.del_inv cfg.get_del)

lemma wf_empty: "items c = [] \<Longrightarrow> item_count c = 0 \<Longrightarrow> config_wf c"
  by (simp add: config_wf_def table_inv_def)

lemma wf_set:
  assumes "config_wf c" "value_ok v" "set_config_item al (Some c) key v = (b, Some c')"
  shows "config_wf c'"
proof (cases key)
  case None
  with assms show ?thesis by (simp add: set_config_item_def)
next
  case (Some k)
  with assms wf_put [OF assms(1) stored_value_ok [OF assms(2), of al], of k] show ?thesis
    by (auto simp: set_item_cases split: if_splits)
qed

lemma wf_load_line:
  assumes "config_wf c" shows "\<exists>c'. load_line F al l (Some c) = Some c' \<and> config_wf c'"
proof (cases "xsan_parse_config_line (Some l) 256 512")
  case None
  with assms show ?thesis by (simp add: load_line_def)
next
  case (Some kv)
  obtain k v where kv: "kv = (k, v)" by (cases kv)
  show ?thesis
    using assms wf_put [OF assms stored_value_ok [OF typed_value_ok(1), of al F al v], of k]
    by (simp add: load_line_def Some kv set_item_cases)
qed

lemma wf_load_lines: "config_wf c \<Longrightarrow> \<exists>c'. load_lines F al n ls (Some c) = Some c' \<and> config_wf c'"
proof (induction ls arbitrary: n c)
  case (Cons l ls)
  obtain c' where "load_line F (al n) l (Some c) = Some c'" "config_wf c'"
    using wf_load_line [OF Cons.prems] by blast
  with Cons.IH show ?case by simp
qed simp

lemma wf_loaded:
  "load_lines F al n ls (Some c) = Some c' \<Longrightarrow> items c = [] \<Longrightarrow> item_count c = 0 \<Longrightarrow> config_wf c'"
  using wf_load_lines [OF wf_empty, of c F al n ls] by auto

lemma cfg_reach_wf: "cfg_reach F c \<Longrightarrow> config_wf c"
proof (induction rule: cfg_reach.induct)
  case (cr_remove c key b c')
  then show ?case
    by (cases key) (auto simp: remove_key_cases wf_drop xsan_config_remove_key_def [of _ NULL])
next
  case (cr_auto c b c')
  then show ?case by (auto simp: xsan_config_set_auto_reload_def config_wf_def table_inv_def)
next
  case (cr_string c als dup_ok str b c')
  then show ?case
    by (auto simp: xsan_config_load_from_string_def xsan_config_clear_def Let_def wf_empty
        split: option.splits if_splits elim: wf_loaded)
next
  case (cr_file c als dup_ok fs own name b c')
  then show ?case
    by (auto simp: xsan_config_load_from_file_def xsan_config_clear_def Let_def
        split: option.splits if_splits elim: wf_loaded)
qed (auto simp: xsan_config_create_def xsan_config_clear_def wf_empty intro: wf_set)

text \<open>What the five readers return for a key, with their defaults, and what a stored value looks like
  through them.\<close>

type_synonym 'd five = "string ptr \<times> int \<times> int \<times> 'd \<times> bool"

definition observe :: "'d xsan_config ptr \<Rightarrow> string \<Rightarrow> 'd five \<Rightarrow> 'd five" where
  "observe config k d =
     (case d of (ds, di, dl, dd, db) \<Rightarrow>
        (xsan_config_get_string config (Some k) ds, xsan_config_get_int config (Some k) di,
         xsan_config_get_long config (Some k) dl, xsan_config_get_double config (Some k) dd,
         xsan_config_get_bool config (Some k) db))"

fun seen_as :: "'d config_value \<Rightarrow> 'd five \<Rightarrow> 'd five" where
  "seen_as (String_val s) (_, di, dl, dd, db) = (s, di, dl, dd, db)"
| "seen_as (Int_val n) (ds, _, dl, dd, db) = (ds, n, dl, dd, db)"
| "seen_as (Long_val n) (ds, di, _, dd, db) = (ds, di, n, dd, db)"
| "seen_as (Double_val x) (ds, di, dl, _, db) = (ds, di, dl, x, db)"
| "seen_as (Bool_val b) (ds, di, dl, dd, _) = (ds, di, dl, dd, b)"

lemma observe_find:
  "observe (Some c) k d = (case map_of (items c) k of None \<Rightarrow> d | Some v \<Rightarrow> seen_as v d)"
  by (cases d) (auto simp: observe_def find_config_item_def xsan_config_get_string_def xsan_config_get_int_def
      xsan_config_get_long_def xsan_config_get_double_def xsan_config_get_bool_def
      split: option.splits config_value.splits)

lemma stored_true: "snd (stored_value al v) \<Longrightarrow> fst (stored_value al v) = v"
  by (induction al v rule: stored_value.induct) (auto split: if_splits)

lemma stored_false:
  "\<not> snd (stored_value al v) \<Longrightarrow> fst (stored_value al v) = String_val NULL \<and> \<not> val_ok al \<and> (\<exists>s. v = String_val (Some s))"
  by (induction al v rule: stored_value.induct) (auto split: if_splits)

lemma observe_put:
  "observe (Some (put_item c k v)) k' d = (if k' = k then seen_as v d else observe (Some c) k' d)"
  by (simp add: observe_find find_put)

lemma count_put:
  "item_count (put_item c k v) =
     (if xsan_config_has_key (Some c) (Some k) then item_count c else item_count c + 1)"
  by (simp add: put_item_def xsan_config_has_key_def split: option.split)

lemma observe_drop:
  "table_inv c \<Longrightarrow> observe (Some (drop_item c k)) k' d = (if k' = k then d else observe (Some c) k' d)"
  by (simp add: observe_find cfg.get_del)

lemma count_drop:
  "item_count (drop_item c k) =
     (if xsan_config_has_key (Some c) (Some k) then item_count c - 1 else item_count c)"
  using remove_item_None [of k "items c"]
  by (auto simp: drop_item_def xsan_config_remove_key_def xsan_config_has_key_def find_config_item_def
      split: option.splits)

text \<open>C11: values are read back at the type they were stored with. In a configuration
  that calls of the module have built the keys are distinct, the number of items is their number and
  every number is in the range of its type. After a setter has succeeded, the reader of that type
  returns the value and the four others return their defaults, and other keys are unchanged; the number
  of items grows exactly for a new key. A setter that fails changes nothing, except that after a failed
  duplication of a string the key holds a null pointer. Removing a key removes exactly that key.\<close>

theorem config_typed_access:
  assumes "cfg_reach F c"
  shows "config_wf c \<and>
    (\<forall>al k v c' d. set_config_item al (Some c) (Some k) v = (True, Some c') \<longrightarrow>
       (\<forall>k'. observe (Some c') k' d = (if k' = k then seen_as v d else observe (Some c) k' d)) \<and>
       item_count c' = (if xsan_config_has_key (Some c) (Some k) then item_count c else item_count c + 1)) \<and>
    (\<forall>al k v c' d. set_config_item al (Some c) (Some k) v = (False, Some c') \<longrightarrow>
       c' = c \<or> \<not> val_ok al \<and> (\<exists>s. v = String_val (Some s)) \<and>
         (\<forall>k'. observe (Some c') k' d = (if k' = k then seen_as (String_val NULL) d else observe (Some c) k' d))) \<and>
    (\<forall>k b c' d. xsan_config_remove_key (Some c) (Some k) = (b, Some c') \<longrightarrow>
       b = xsan_config_has_key (Some c) (Some k) \<and>
       (\<forall>k'. observe (Some c') k' d = (if k' = k then d else observe (Some c) k' d)) \<and>
       item_count c' = (if b then item_count c - 1 else item_count c))"
proof (intro conjI)
  have wf: "config_wf c" by (rule cfg_reach_wf [OF assms])
  then show "config_wf c" .
  have inv: "table_inv c" using wf by (simp add: config_wf_def)
  show "\<forall>al k v c' d. set_config_item al (Some c) (Some k) v = (True, Some c') \<longrightarrow>
       (\<forall>k'. observe (Some c') k' d = (if k' = k then seen_as v d else observe (Some c) k' d)) \<and>
       item_count c' = (if xsan_config_has_key (Some c) (Some k) then item_count c else item_count c + 1)"
    by (auto simp: set_item_cases observe_put count_put stored_true split: if_splits)
  show "\<forall>al k v c' d. set_config_item al (Some c) (Some k) v = (False, Some c') \<longrightarrow>
       c' = c \<or> \<not> val_ok al \<and> (\<exists>s. v = String_val (Some s)) \<and>
         (\<forall>k'. observe (Some c') k' d = (if k' = k then seen_as (String_val NULL) d else observe (Some c) k' d))"
    by (auto simp: set_item_cases observe_put dest: stored_false split: if_splits)
  show "\<forall>k b c' d. xsan_config_remove_key (Some c) (Some k) = (b, Some c') \<longrightarrow>
       b = xsan_config_has_key (Some c) (Some k) \<and>
       (\<forall>k'. observe (Some c') k' d = (if k' = k then d else observe (Some c) k' d)) \<and>
       item_count c' = (if b then item_count c - 1 else item_count c)"
    by (auto simp: remove_key_cases observe_drop [OF inv] count_drop xsan_config_has_key_def find_config_item_def)
qed

definition all_ok :: allocs where
  "all_ok = \<lparr>item_ok = True, key_ok = True, val_ok = True, lower_ok = True\<rparr>"

theorem config_typed_access_witness:
  "\<exists>c. set_config_item all_ok (xsan_config_create True) (Some ''node.port'') (Int_val 8080) = (True, Some c) \<and>
     observe (Some c) ''node.port'' (Some [], 1, 2, 0 :: nat, False) = (Some [], 8080, 2, 0, False)"
proof -
  obtain c where c: "xsan_config_create True = Some (c :: nat xsan_config)"
    by (simp add: xsan_config_create_def)
  have ok: "snd (stored_value all_ok (Int_val 8080 :: nat config_value))" by simp
  obtain c' where c': "set_config_item all_ok (Some c) (Some ''node.port'') (Int_val 8080) = (True, Some c')"
    by (simp add: set_item_cases all_ok_def)
  have "observe (Some c') ''node.port'' (Some [], 1, 2, 0, False) = seen_as (Int_val 8080) (Some [], 1, 2, 0, False)"
    using config_typed_access [OF cr_create [OF c], THEN conjunct2, THEN conjunct1, rule_format, OF c',
      THEN conjunct1, THEN spec, of "''node.port''"]
    by simp
  with c c' show ?thesis by simp
qed

subsection \<open>Saving and loading\<close>

text \<open>The line of a key or a value: no line breaks, no spaces around, and the sizes of the arrays of the
  loader.\<close>

definition safe_text :: "nat \<Rightarrow> string \<Rightarrow> bool" where
  "safe_text n s \<longleftrightarrow> trimmed s \<and> CHR 0x0A \<notin> set s \<and> NUL \<notin> set s \<and> length s < n"

definition safe_key :: "string \<Rightarrow> bool" where
  "safe_key k \<longleftrightarrow> safe_text 256 k \<and> k \<noteq> [] \<and> hd k \<noteq> CHR ''#'' \<and> CHR ''='' \<notin> set k"

text \<open>The text of a floating point number as \<^verbatim>\<open>%f\<close> writes it.\<close>

definition fixed_text :: "string \<Rightarrow> bool" where
  "fixed_text s \<longleftrightarrow> (\<exists>g a b. s = g @ a @ ''.'' @ b \<and> (g = [] \<or> g = ''-'') \<and> a \<noteq> [] \<and>
     (\<forall>c\<in>set (a @ b). isdigit c))"

fun safe_value :: "'d double_format \<Rightarrow> 'd config_value \<Rightarrow> bool" where
  "safe_value F (String_val NULL) \<longleftrightarrow> False"
| "safe_value F (String_val (Some s)) \<longleftrightarrow> safe_text 512 s"
| "safe_value F (Double_val d) \<longleftrightarrow> fixed_text (show_double F d) \<and> length (show_double F d) < 512 \<and>
     double_of F (show_double F d) = (d, False)"
| "safe_value F v \<longleftrightarrow> value_ok v"

text \<open>The type that a value has when it is loaded again: a \<^verbatim>\<open>long\<close> in the range of \<^verbatim>\<open>int\<close> becomes an
  \<^verbatim>\<open>int\<close>, and a string gets the type that its text has.\<close>

fun retyped :: "'d double_format \<Rightarrow> 'd config_value \<Rightarrow> 'd config_value" where
  "retyped F (Long_val n) = (if INT_MIN \<le> n \<and> n \<le> INT_MAX then Int_val n else Long_val n)"
| "retyped F (String_val (Some s)) = typed_value F all_ok s"
| "retyped F v = v"

lemma file_lines_step:
  assumes "CHR 0x0A \<notin> set l" "length l + 1 < n"
  shows "file_lines n (l @ CHR 0x0A # rest) = (l @ [CHR 0x0A]) # file_lines n rest"
proof -
  have "takeWhile (\<lambda>c. c \<noteq> CHR 0x0A) (l @ CHR 0x0A # rest) = l"
    using assms(1) by (auto simp: takeWhile_tail)
  then have "fgets n (l @ CHR 0x0A # rest) = l @ [CHR 0x0A]"
    using assms(2) by (simp add: fgets_def min_absorb2)
  then show ?thesis using assms(2) by (simp add: file_lines.simps [of n "l @ CHR 0x0A # rest"])
qed

lemma file_lines_Nil [simp]: "file_lines n [] = []"
  by (simp add: file_lines.simps)

lemma file_lines_concat:
  assumes "\<forall>l\<in>set ls. CHR 0x0A \<notin> set l \<and> length l + 1 < n"
  shows "file_lines n (concat (map (\<lambda>l. l @ [CHR 0x0A]) ls)) = map (\<lambda>l. l @ [CHR 0x0A]) ls"
  using assms by (induction ls) (simp_all add: file_lines_step)

lemma c_string_id: "NUL \<notin> set s \<Longrightarrow> c_string s = s"
  by (auto simp: c_string_def takeWhile_eq_all_conv)

subsection \<open>The types of texts\<close>

lemma sign_length_digit: "isdigit c \<Longrightarrow> sign_length (c # s) = 0"
  using isdigit_not_sign by (simp add: sign_length_def)

lemma takeWhile_all_digits: "\<forall>c\<in>set a. isdigit c \<Longrightarrow> takeWhile isdigit (a @ x # r) = (if isdigit x then a @ takeWhile isdigit (x # r) else a)"
  by (induction a) auto

lemma isdigit_facts: "\<not> isdigit (CHR ''.'')" "\<not> isdigit (CHR ''x'')" "isdigit c \<Longrightarrow> c \<noteq> CHR ''i''" "isdigit c \<Longrightarrow> tolower c = c"
  by (auto simp: isdigit_def tolower_def)

lemma has_word_digit:
  assumes "isdigit c" "w = CHR ''i'' # w' \<or> w = CHR ''n'' # w'" shows "\<not> has_word w (c # s)"
proof -
  have "tolower c \<noteq> CHR ''i''" "tolower c \<noteq> CHR ''n''"
    using assms(1) isdigit_facts(4) by (auto simp: isdigit_def)
  then show ?thesis using assms(2) by (auto simp: has_word_def)
qed

lemma float_length_fixed:
  assumes "\<forall>c\<in>set (a @ b). isdigit c" "a \<noteq> []"
  shows "float_length (a @ CHR ''.'' # b) = length a + 1 + length b"
proof -
  obtain c a' where a: "a = c # a'" "isdigit c" using assms by (cases a) auto
  have w: "\<not> has_word ''infinity'' (a @ CHR ''.'' # b)" "\<not> has_word ''inf'' (a @ CHR ''.'' # b)"
    "\<not> has_word ''nan'' (a @ CHR ''.'' # b)"
    using has_word_digit [OF a(2)] a(1) by auto
  have x: "\<not> has_word ''0x'' (a @ CHR ''.'' # b)"
  proof (cases a')
    case Nil
    then show ?thesis using a(1) by (simp add: has_word_def tolower_def)
  next
    case (Cons d a'')
    then have "tolower d \<noteq> CHR ''x''" using assms(1) a isdigit_facts(2,4) by auto
    with Cons a(1) show ?thesis by (simp add: has_word_def)
  qed
  have "takeWhile isdigit b = b" using assms(1) by (intro takeWhile_eq_all_conv [THEN iffD2]) simp
  then have tb: "length (takeWhile isdigit b) = length b" by (rule arg_cong)
  have ta: "length (takeWhile isdigit (a @ CHR ''.'' # b)) = length a"
    using assms(1) takeWhile_all_digits [of a "CHR ''.''" b] isdigit_facts(1) by simp
  have "number_length isdigit (CHR ''e'') (a @ CHR ''.'' # b) = length a + 1 + length b"
    using assms(2) by (simp add: number_length_def mantissa_length_def exponent_length_def Let_def ta tb)
  with w x show ?thesis by (simp add: float_length_def)
qed

lemma fixed_textE:
  assumes "fixed_text s"
  obtains g a b where "s = g @ a @ CHR ''.'' # b" "g = [] \<or> g = ''-''" "a \<noteq> []" "\<forall>c\<in>set (a @ b). isdigit c"
    "isdigit (hd a)" "dropWhile isspace s = s" "sign_length s = length g"
proof -
  obtain g a b where s: "s = g @ a @ CHR ''.'' # b" "g = [] \<or> g = ''-''" "a \<noteq> []" "\<forall>c\<in>set (a @ b). isdigit c"
    using assms by (auto simp: fixed_text_def)
  obtain c a' where a: "a = c # a'" "isdigit c" using s(3,4) by (cases a) auto
  have "\<not> isspace (CHR ''-'')" by (simp add: isspace_def)
  then have "\<not> isspace (hd s)"
    using s(2) isdigit_not_space [OF a(2)] by (elim disjE) (simp_all add: s(1) a(1))
  then have d: "dropWhile isspace s = s" by (rule dropWhile_space_id [OF disjI2])
  have g: "sign_length s = length g"
    using s(2) sign_length_digit [OF a(2)] by (elim disjE) (simp_all add: s(1) a(1) sign_length_def)
  have "isdigit (hd a)" using a by simp
  then show ?thesis by (rule that [OF s _ d g])
qed

lemma strtod_fixed:
  assumes "fixed_text s" shows "strtod dbl s = (fst (dbl s), snd (dbl s), [])"
  using assms
proof (rule fixed_textE)
  fix g a b
  assume s: "s = g @ a @ CHR ''.'' # b" "g = [] \<or> g = ''-''" "a \<noteq> []" "\<forall>c\<in>set (a @ b). isdigit c"
    and d: "dropWhile isspace s = s" and g: "sign_length s = length g"
  have "drop (sign_length s) s = a @ CHR ''.'' # b" unfolding g by (subst s(1)) simp
  then have f: "float_length (drop (sign_length s) s) = length a + 1 + length b"
    using float_length_fixed [OF s(4,3)] by simp
  have "sign_length s + (length a + 1 + length b) = length s" unfolding g by (subst s(1)) simp
  with f show ?thesis by (simp add: strtod_def Let_def d split: prod.splits)
qed

lemma strtol_fixed:
  assumes "fixed_text s" shows "snd (snd (strtol s)) \<noteq> []"
  using assms
proof (rule fixed_textE)
  fix g a b
  assume s: "s = g @ a @ CHR ''.'' # b" "g = [] \<or> g = ''-''" "a \<noteq> []" "\<forall>c\<in>set (a @ b). isdigit c"
    and h: "isdigit (hd a)" and d: "dropWhile isspace s = s"
  have w: "takeWhile isdigit (a @ CHR ''.'' # b) = a" using s(4) takeWhile_all_digits [of a "CHR ''.''" b] isdigit_facts(1) by simp
  then have w': "dropWhile isdigit (a @ CHR ''.'' # b) = CHR ''.'' # b"
    using takeWhile_dropWhile_id [of isdigit "a @ CHR ''.'' # b"] by simp
  obtain c a' where a: "a = c # a'" using s(3) by (cases a) auto
  have c: "c \<noteq> CHR ''-''" "c \<noteq> CHR ''+''" using h isdigit_not_sign [of c] by (simp_all add: a)
  from s(2) show ?thesis
  proof
    assume "g = []"
    with d w w' c show ?thesis by (simp add: strtol_def Let_def s(1) a)
  next
    assume "g = ''-''"
    with d w w' s(3) show ?thesis by (simp add: strtol_def Let_def s(1))
  qed
qed

lemma typed_show_int:
  "value_ok (Long_val n :: 'd config_value) \<Longrightarrow> typed_value F al (show_int n) = retyped F (Long_val n)"
  by (simp add: typed_value_def xsan_str_to_int_def xsan_str_to_long_def strtol_show)

lemma str_to_double_none:
  assumes "float_length (drop (sign_length (dropWhile isspace s)) (dropWhile isspace s)) = 0"
  shows "xsan_str_to_double dbl (Some s) = None"
  using assms by (simp add: xsan_str_to_double_def strtod_def Let_def)

lemma bool_texts:
  "xsan_str_to_int (Some ''true'') = None" "xsan_str_to_int (Some ''false'') = None"
  "xsan_str_to_long (Some ''true'') = None" "xsan_str_to_long (Some ''false'') = None"
  "xsan_str_to_bool True (Some ''true'') = Some True" "xsan_str_to_bool True (Some ''false'') = Some False"
  by code_simp+

lemma bool_texts_double: "xsan_str_to_double dbl (Some ''true'') = None" "xsan_str_to_double dbl (Some ''false'') = None"
  by (rule str_to_double_none, code_simp)+

lemma typed_bool: "typed_value F all_ok (if b then ''true'' else ''false'') = Bool_val b"
  by (simp add: typed_value_def bool_texts bool_texts_double all_ok_def)

lemma typed_double:
  assumes "fixed_text s" "dbl = double_of F" "dbl s = (d, False)"
  shows "typed_value F al s = Double_val d"
proof -
  have ne: "s \<noteq> []" using assms(1) by (auto simp: fixed_text_def)
  have "xsan_str_to_int (Some s) = None" "xsan_str_to_long (Some s) = None"
    using strtol_fixed [OF assms(1)]
    by (auto simp: xsan_str_to_int_def xsan_str_to_long_def split: prod.splits)
  moreover have "xsan_str_to_double (double_of F) (Some s) = Some d"
    using strtod_fixed [OF assms(1), of dbl] assms(2,3) ne by (simp add: xsan_str_to_double_def)
  ultimately show ?thesis by (simp add: typed_value_def)
qed

lemma all_ok_simps [simp]: "item_ok all_ok" "key_ok all_ok" "val_ok all_ok" "lower_ok all_ok"
  by (simp_all add: all_ok_def)

lemma stored_all_ok: "stored_value all_ok v = (v, True)"
proof (cases v)
  case (String_val p)
  then show ?thesis by (cases p) simp_all
qed simp_all

lemma stored_typed [simp]: "stored_value all_ok (typed_value F al s) = (typed_value F al s, True)"
  by (rule stored_all_ok)

lemma load_all_ok: "load_line F all_ok l (Some c) =
    (case xsan_parse_config_line (Some l) 256 512 of None \<Rightarrow> Some c | Some (k, v) \<Rightarrow> Some (put_item c k (typed_value F all_ok v)))"
  by (simp add: load_line_def set_item_cases typed_value_ok split: option.splits)

definition plain_char :: "char \<Rightarrow> bool" where
  "plain_char c \<longleftrightarrow> isdigit c \<or> c = CHR ''-'' \<or> c = CHR ''.''"

lemma plain_char_safe: "plain_char c \<Longrightarrow> \<not> isspace c \<and> c \<noteq> CHR 0x0A \<and> c \<noteq> NUL"
  by (auto simp: plain_char_def isdigit_def isspace_def)

lemma plain_text_safe:
  assumes "\<forall>c\<in>set s. plain_char c" "length s < n" shows "safe_text n s"
proof (cases "s = []")
  case False
  then have "plain_char (hd s)" "plain_char (last s)" using assms(1) by auto
  with assms plain_char_safe show ?thesis by (auto simp: safe_text_def trimmed_def)
qed (use assms in \<open>simp add: safe_text_def trimmed_def\<close>)

lemma length_show_nat: "n < 10 ^ k \<Longrightarrow> 0 < k \<Longrightarrow> length (show_nat n) \<le> k"
proof (induction n arbitrary: k rule: show_nat.induct)
  case (1 n)
  show ?case
  proof (cases "n < 10")
    case True
    with 1 show ?thesis by (simp add: show_nat.simps [of n])
  next
    case False
    with 1(2) have "k \<noteq> 1" by auto
    with 1(3) obtain j where j: "k = Suc j" "0 < j" by (cases k) auto
    then have "n div 10 < 10 ^ j" using 1(2) by (simp add: less_mult_imp_div_less mult.commute)
    with 1(1) False j show ?thesis by (simp add: show_nat.simps [of n])
  qed
qed

lemma show_int_safe:
  assumes "value_ok (Long_val n :: 'd config_value)" shows "safe_text 512 (show_int n)"
proof (rule plain_text_safe)
  show "\<forall>c\<in>set (show_int n). plain_char c"
    using show_nat_digits by (auto simp: show_int_def plain_char_def)
  have "nat \<bar>n\<bar> < 10 ^ 19" using assms by (auto simp: LONG_MIN_def LONG_MAX_def)
  then have "length (show_nat (nat \<bar>n\<bar>)) \<le> 19" by (rule length_show_nat) simp
  then show "length (show_int n) < 512" by (auto simp: show_int_def split: if_splits)
qed

lemma fixed_text_safe: "fixed_text s \<Longrightarrow> length s < n \<Longrightarrow> safe_text n s"
  by (rule plain_text_safe) (auto simp: fixed_text_def plain_char_def)

lemma retyped_shown:
  fixes F :: "'d double_format"
  assumes "safe_value F v"
  shows "\<exists>s. show_value F v = Done s \<and> safe_text 512 s \<and> typed_value F all_ok s = retyped F v"
proof (cases v)
  case (String_val p)
  with assms show ?thesis by (cases p) auto
next
  case (Int_val n)
  then have l: "value_ok (Long_val n :: 'd config_value)" "retyped F (Long_val n :: 'd config_value) = Int_val n"
    using assms by (auto simp: INT_MIN_def INT_MAX_def LONG_MIN_def LONG_MAX_def)
  with typed_show_int [OF l(1), of F all_ok] show_int_safe [OF l(1)] Int_val show ?thesis by simp
next
  case (Long_val n)
  then have l: "value_ok (Long_val n :: 'd config_value)" using assms by simp
  with typed_show_int [OF l, of F all_ok] show_int_safe [OF l] Long_val show ?thesis by simp
next
  case (Double_val d)
  with assms typed_double [of "show_double F d" "double_of F" F d all_ok] fixed_text_safe show ?thesis by simp
next
  case (Bool_val b)
  have "safe_text 512 ''true''" "safe_text 512 ''false''" by code_simp+
  with typed_bool [of F b] Bool_val show ?thesis by (cases b) simp_all
qed

definition shown :: "'d double_format \<Rightarrow> 'd config_value \<Rightarrow> string" where
  "shown F v = (case show_value F v of Done s \<Rightarrow> s | _ \<Rightarrow> [])"

definition item_line :: "'d double_format \<Rightarrow> string \<times> 'd config_value \<Rightarrow> string" where
  "item_line F kv = fst kv @ '' = '' @ shown F (snd kv)"

definition safe_items :: "'d double_format \<Rightarrow> (string \<times> 'd config_value) list \<Rightarrow> bool" where
  "safe_items F its \<longleftrightarrow> (\<forall>(k, v)\<in>set its. safe_key k \<and> safe_value F v)"

lemma shown_safe:
  assumes "safe_value F v"
  shows "show_value F v = Done (shown F v)" "safe_text 512 (shown F v)" "typed_value F all_ok (shown F v) = retyped F v"
  using retyped_shown [OF assms] by (auto simp: shown_def)

lemma show_items_lines:
  "safe_items F its \<Longrightarrow> show_items F its = Done (concat (map (\<lambda>l. l @ [CHR 0x0A]) (map (item_line F) its)))"
  by (induction its) (auto simp: safe_items_def shown_safe(1) item_line_def)

lemma item_line_safe:
  assumes "safe_key k" "safe_value F v"
  shows "CHR 0x0A \<notin> set (item_line F (k, v))" "NUL \<notin> set (item_line F (k, v))" "length (item_line F (k, v)) + 1 < 1024"
  using assms(1) shown_safe(2) [OF assms(2)] by (auto simp: item_line_def safe_key_def safe_text_def)

lemma item_line_loaded:
  assumes "safe_key k" "safe_value F v"
  shows "load_line F all_ok (c_string (item_line F (k, v) @ [CHR 0x0A])) (Some c) = Some (put_item c k (retyped F v))"
proof -
  have "c_string (item_line F (k, v) @ [CHR 0x0A]) = [] @ k @ '' '' @ ''='' @ '' '' @ shown F v @ [CHR 0x0A]"
    using item_line_safe(2) [OF assms] by (subst c_string_id) (auto simp: item_line_def)
  moreover have "xsan_parse_config_line (Some ([] @ k @ '' '' @ ''='' @ '' '' @ shown F v @ [CHR 0x0A])) 256 512 = Some (k, shown F v)"
    using assms(1) shown_safe(2) [OF assms(2)]
    by (intro parse_line) (auto simp: safe_key_def safe_text_def isspace_def)
  ultimately show ?thesis using shown_safe(3) [OF assms(2)] by (simp only: load_all_ok option.case prod.case)
qed

lemma item_lines_loaded:
  "safe_items F its \<Longrightarrow>
     load_lines F (\<lambda>_. all_ok) n (map (\<lambda>l. c_string (l @ [CHR 0x0A])) (map (item_line F) its)) (Some c) =
       Some (fold (\<lambda>(k, v) c. put_item c k v) (map (\<lambda>(k, v). (k, retyped F v)) its) c)"
  by (induction its arbitrary: n c) (auto simp: safe_items_def item_line_loaded)

lemma fold_put_new:
  assumes "distinct (map fst its)" "fst ` set its \<inter> fst ` set (items c) = {}"
  shows "fold (\<lambda>(k, v) c. put_item c k v) its c =
    c\<lparr>items := rev its @ items c, item_count := item_count c + of_nat (length its)\<rparr>"
  using assms
proof (induction its arbitrary: c)
  case (Cons a its)
  obtain k v where a: "a = (k, v)" by (cases a)
  have "map_of (items c) k = None" using Cons.prems(2) a by (auto simp: map_of_eq_None_iff)
  then have p: "put_item c k v = c\<lparr>items := (k, v) # items c, item_count := item_count c + 1\<rparr>"
    by (simp add: put_item_def find_config_item_def)
  have "fold (\<lambda>(k, v) c. put_item c k v) its (put_item c k v) =
    (put_item c k v)\<lparr>items := rev its @ items (put_item c k v), item_count := item_count (put_item c k v) + of_nat (length its)\<rparr>"
    using Cons.prems a p by (intro Cons.IH) auto
  then show ?case by (simp add: a p add.assoc)
qed simp

text \<open>The comments and empty lines in front.\<close>

definition heading_lines :: "string \<Rightarrow> string list" where
  "heading_lines t = [''# XSAN Configuration File'', ''# Generated at '' @ t, [], []]"

lemma heading_text: "file_heading (t @ [CHR 0x0A]) = concat (map (\<lambda>l. l @ [CHR 0x0A]) (heading_lines t))"
  by (simp add: file_heading_def heading_lines_def)

lemma comment_ignored: "l = [] \<or> hd l = CHR ''#'' \<Longrightarrow> NUL \<notin> set l \<Longrightarrow> load_line F al (c_string (l @ [CHR 0x0A])) config = config"
  by (cases l) (auto simp: c_string_id load_line_def xsan_parse_config_line_def isspace_def)

lemma comments_ignored:
  "\<forall>l\<in>set hs. (l = [] \<or> hd l = CHR ''#'') \<and> NUL \<notin> set l \<Longrightarrow>
     load_lines F al n (map (\<lambda>l. c_string (l @ [CHR 0x0A])) hs @ ls) config = load_lines F al (n + length hs) ls config"
  by (induction hs arbitrary: n) (auto simp: comment_ignored)

lemma heading_safe:
  assumes "NUL \<notin> set t" "CHR 0x0A \<notin> set t" "length t < 1000"
  shows "\<forall>l\<in>set (heading_lines t). (l = [] \<or> hd l = CHR ''#'') \<and> NUL \<notin> set l"
    "\<forall>l\<in>set (heading_lines t). CHR 0x0A \<notin> set l \<and> length l + 1 < 1024"
  using assms by (auto simp: heading_lines_def)

lemma saved_loaded:
  assumes its: "safe_items F its" "distinct (map fst its)" and t: "NUL \<notin> set t" "CHR 0x0A \<notin> set t" "length t < 1000"
    and c: "items c = []" "item_count c = 0"
  shows "load_lines F (\<lambda>_. all_ok) 0 (map c_string (file_lines 1024 (file_heading (t @ [CHR 0x0A]) @
      concat (map (\<lambda>l. l @ [CHR 0x0A]) (map (item_line F) its))))) (Some c) =
    Some (c\<lparr>items := rev (map (\<lambda>(k, v). (k, retyped F v)) its), item_count := of_nat (length its)\<rparr>)"
proof -
  let ?ls = "heading_lines t @ map (item_line F) its"
  let ?its = "map (\<lambda>(k, v). (k, retyped F v)) its"
  have "\<forall>l\<in>set ?ls. CHR 0x0A \<notin> set l \<and> length l + 1 < 1024"
    using heading_safe(2) [OF t] its(1) item_line_safe by (fastforce simp: safe_items_def)
  then have "file_lines 1024 (concat (map (\<lambda>l. l @ [CHR 0x0A]) ?ls)) = map (\<lambda>l. l @ [CHR 0x0A]) ?ls"
    by (rule file_lines_concat)
  moreover have "load_lines F (\<lambda>_. all_ok) 0 (map (\<lambda>l. c_string (l @ [CHR 0x0A])) ?ls) (Some c) =
      Some (fold (\<lambda>(k, v) c. put_item c k v) ?its c)"
    unfolding map_append [of _ "heading_lines t"] comments_ignored [OF heading_safe(1) [OF t]]
    by (rule item_lines_loaded [OF its(1)])
  moreover have "fold (\<lambda>(k, v) c. put_item c k v) ?its c =
      c\<lparr>items := rev ?its @ items c, item_count := item_count c + of_nat (length ?its)\<rparr>"
    using its(2) c(1) by (intro fold_put_new) (simp_all add: comp_def case_prod_unfold)
  ultimately show ?thesis using c by (simp add: heading_text comp_def)
qed

text \<open>C12: a configuration that is saved to a file and loaded again holds the same keys, in
  the opposite order, and every value at the type that its text has: whole numbers in the range of \<^verbatim>\<open>int\<close>
  become \<^verbatim>\<open>int\<close> even if they were \<^verbatim>\<open>long\<close>, and a string that reads as a number or a truth value becomes
  one; every other value comes back unchanged. Whatever the configuration held before that it is loaded
  into is dropped, and it does not count as modified. The keys and strings are without line breaks and
  surrounding spaces and fit the line buffers, and the text of a floating point number stands for that
  number.\<close>

theorem config_save_load:
  assumes "config_wf c" "safe_items F (items c)" "can_write fs f"
    and "NUL \<notin> set t" "CHR 0x0A \<notin> set t" "length t < 1000"
  shows "\<exists>fs' c'. xsan_config_save_to_file F (t @ [CHR 0x0A]) now fs (Some c) (Some f) = Done (True, fs') \<and>
    xsan_config_load_from_file F (\<lambda>_. all_ok) True fs' False (Some old) (Some f) = Done (True, Some c') \<and>
    items c' = rev (map (\<lambda>(k, v). (k, retyped F v)) (items c)) \<and>
    (\<forall>k. find_config_item (Some c') (Some k) = map_option (retyped F) (find_config_item (Some c) (Some k))) \<and>
    xsan_config_get_item_count (Some c') = xsan_config_get_item_count (Some c) \<and>
    config_file c' = Some f \<and> \<not> xsan_config_is_modified fs' (Some c')"
proof -
  have inv: "distinct (map fst (items c))" "item_count c = of_nat (length (items c))"
    using assms(1) by (simp_all add: config_wf_def table_inv_def)
  define body where "body = concat (map (\<lambda>l. l @ [CHR 0x0A]) (map (item_line F) (items c)))"
  define fs' where "fs' = fs\<lparr>files := (files fs)(f \<mapsto> file_heading (t @ [CHR 0x0A]) @ body), mtimes := (mtimes fs)(f \<mapsto> now)\<rparr>"
  define c' where "c' = old\<lparr>last_modified := now, config_file := Some f,
    items := rev (map (\<lambda>(k, v). (k, retyped F v)) (items c)), item_count := of_nat (length (items c))\<rparr>"
  have s: "xsan_config_save_to_file F (t @ [CHR 0x0A]) now fs (Some c) (Some f) = Done (True, fs')"
    using assms(3) show_items_lines [OF assms(2)] by (simp add: xsan_config_save_to_file_def fs'_def body_def)
  have l: "xsan_config_load_from_file F (\<lambda>_. all_ok) True fs' False (Some old) (Some f) = Done (True, Some c')"
    using saved_loaded [OF assms(2) inv(1) assms(4-6), of "old\<lparr>last_modified := now, config_file := Some f, items := [], item_count := 0\<rparr>"]
    by (simp add: xsan_config_load_from_file_def fs'_def c'_def body_def xsan_config_clear_def Let_def)
  have "distinct (map fst (map (\<lambda>(k, v). (k, retyped F v)) (items c)))" using inv(1) by (simp add: comp_def case_prod_unfold)
  then have "map_of (rev (map (\<lambda>(k, v). (k, retyped F v)) (items c))) = map_option (retyped F) \<circ> map_of (items c)"
    by (simp only: map_of_rev_distinct map_of_map)
  with s l show ?thesis
    by (intro exI [of _ fs'] exI [of _ c'])
      (simp add: c'_def find_config_item_def inv(2) xsan_config_get_item_count_def xsan_config_is_modified_def fs'_def)
qed

text \<open>Numbers as their texts, a configuration and a file system.\<close>

definition sample_format :: "string double_format" where
  "sample_format = \<lparr>double_of = \<lambda>s. (s, False), show_double = \<lambda>s. s\<rparr>"

definition sample_config :: "string xsan_config" where
  "sample_config = \<lparr>items = [(''node.port'', Int_val 8080), (''storage.cache_size'', Long_val 5000000000),
     (''node.name'', String_val (Some ''n 1'')), (''ratio'', Double_val ''1.5''), (''node.ssl'', Bool_val True)],
     item_count = 5, config_file = NULL, auto_reload = False, last_modified = 3\<rparr>"

definition sample_fs :: file_system where
  "sample_fs = \<lparr>files = \<lambda>_. None, mtimes = \<lambda>_. None, can_write = \<lambda>_. True\<rparr>"

lemma sample_config_safe: "safe_items sample_format (items sample_config)"
proof -
  have "safe_key ''node.port''" "safe_key ''storage.cache_size''" "safe_key ''node.name''" "safe_key ''ratio''"
    "safe_key ''node.ssl''" "safe_text 512 ''n 1''"
    by code_simp+
  moreover have "fixed_text ''1.5''"
    unfolding fixed_text_def by (rule exI [of _ "[]"], rule exI [of _ "''1''"], rule exI [of _ "''5''"]) (simp add: isdigit_def)
  moreover have "value_ok (Int_val 8080 :: string config_value)" "value_ok (Long_val 5000000000 :: string config_value)"
    by code_simp+
  ultimately show ?thesis by (simp add: safe_items_def sample_config_def sample_format_def)
qed

theorem config_save_load_witness:
  "\<exists>fs' c'. xsan_config_save_to_file sample_format (''Mon'' @ [CHR 0x0A]) 7 sample_fs (Some sample_config) (Some ''f'') = Done (True, fs') \<and>
    xsan_config_load_from_file sample_format (\<lambda>_. all_ok) True fs' False (Some sample_config) (Some ''f'') = Done (True, Some c') \<and>
    xsan_config_get_item_count (Some c') = 5"
proof -
  have "config_wf sample_config"
    by (auto simp: config_wf_def table_inv_def sample_config_def INT_MIN_def INT_MAX_def LONG_MIN_def LONG_MAX_def split: if_splits)
  moreover have "can_write sample_fs ''f''" by (simp add: sample_fs_def)
  moreover have "xsan_config_get_item_count (Some sample_config) = 5"
    by (simp add: xsan_config_get_item_count_def sample_config_def)
  ultimately show ?thesis
    using config_save_load [of sample_config sample_format sample_fs "''f''" "''Mon''" 7 sample_config] sample_config_safe
    by force
qed

subsection \<open>Reloading and numbers\<close>

text \<open>Reloading frees the name of the file before it duplicates it: it reads freed memory whenever the file
  can be opened.\<close>

lemma reload_bad:
  "config_file c = Some f \<Longrightarrow> files fs f = Some content \<Longrightarrow> xsan_config_reload F al dup_ok fs (Some c) = Bad_access"
  by (simp add: xsan_config_reload_def xsan_config_load_from_file_def Let_def)

text \<open>A number in the range of \<^verbatim>\<open>int\<close> is stored as \<^verbatim>\<open>int\<close>, so that a setting that is read as \<^verbatim>\<open>long\<close> or as
  a string ignores it and stays at its default.\<close>

lemma small_number_ignored:
  assumes "INT_MIN \<le> n" "n \<le> INT_MAX" "safe_key k"
    and "load_line F all_ok (c_string (k @ '' = '' @ show_int n @ [CHR 0x0A])) (Some c) = Some c'"
  shows "xsan_config_get_long (Some c') (Some k) d = d \<and> xsan_config_get_string (Some c') (Some k) s = s"
proof -
  have v: "safe_value F (Int_val n)" using assms(1,2) by simp
  have "item_line F (k, Int_val n) @ [CHR 0x0A] = k @ '' = '' @ show_int n @ [CHR 0x0A]"
    by (simp add: item_line_def shown_def)
  with item_line_loaded [OF assms(3) v, of c] assms(4) have "c' = put_item c k (Int_val n)" by simp
  then show ?thesis by (simp add: xsan_config_get_long_def xsan_config_get_string_def find_config_item_def find_put)
qed

end
