(* ===== verification/NodeConfig.thy ===== *)
theory NodeConfig
  imports Config
begin

text \<open>
  The node, storage and cluster settings that src/utils/config.c takes from a configuration, with the list
  of seed nodes, and the validation of a configuration. The structures are those of
  src/include/xsan\_config.h; of \<^verbatim>\<open>xsan_node_t\<close>, whose declaration is not part of the sources, the record
  has the fields that the code uses. The functions of SPDK for UUIDs are the parameter \<open>spdk_uuid\<close>.

  The list of seed nodes is read back from its notation, and a validated configuration gives settings
  within their bounds.
\<close>

section \<open>The structures\<close>

definition XSAN_MAX_SEED_NODES :: nat where "XSAN_MAX_SEED_NODES = 16"
definition INET_ADDRSTRLEN :: nat where "INET_ADDRSTRLEN = 16"

record xsan_node =
  xn_id :: uuid
  hostname :: string
  storage_ip :: string
  storage_port :: u16
  mgmt_ip :: string
  mgmt_port :: u16

definition zero_node :: xsan_node where
  "zero_node = \<lparr>xn_id = 0, hostname = [], storage_ip = [], storage_port = 0, mgmt_ip = [], mgmt_port = 0\<rparr>"

record xsan_node_config =
  cfg_node_id :: string
  cfg_node_name :: string
  cfg_bind_address :: string
  cfg_port :: u16
  cfg_data_dir :: string
  cfg_log_file :: string
  cfg_log_level :: string
  cfg_max_connections :: u64
  cfg_heartbeat_interval :: u64
  cfg_election_timeout :: u64
  cfg_enable_ssl :: bool
  cfg_ssl_cert_file :: string
  cfg_ssl_key_file :: string
  cfg_nvmf_target_nqn :: string
  cfg_nvmf_listen_port :: string

record xsan_storage_config =
  cfg_storage_dir :: string
  cfg_block_size :: u64
  cfg_max_file_size :: u64
  cfg_cache_size :: u64
  cfg_io_threads :: u64
  cfg_sync_interval :: u64
  cfg_enable_compression :: bool
  cfg_compression_algorithm :: string
  cfg_replication_factor :: u64
  cfg_enable_checksums :: bool

record xsan_cluster_config =
  cfg_cluster_name :: string
  cfg_seed_nodes :: "xsan_node list"
  cfg_seed_node_count :: u64
  cfg_min_nodes :: u64
  cfg_max_nodes :: u64
  cfg_quorum_size :: u64
  cfg_network_timeout :: u64
  cfg_reconnect_interval :: u64
  cfg_enable_auto_failover :: bool
  cfg_failover_timeout :: u64

definition zero_node_config :: xsan_node_config where
  "zero_node_config = \<lparr>cfg_node_id = [], cfg_node_name = [], cfg_bind_address = [], cfg_port = 0, cfg_data_dir = [],
     cfg_log_file = [], cfg_log_level = [], cfg_max_connections = 0, cfg_heartbeat_interval = 0,
     cfg_election_timeout = 0, cfg_enable_ssl = False, cfg_ssl_cert_file = [], cfg_ssl_key_file = [],
     cfg_nvmf_target_nqn = [], cfg_nvmf_listen_port = []\<rparr>"

definition zero_cluster_config :: xsan_cluster_config where
  "zero_cluster_config = \<lparr>cfg_cluster_name = [], cfg_seed_nodes = replicate XSAN_MAX_SEED_NODES zero_node,
     cfg_seed_node_count = 0, cfg_min_nodes = 0, cfg_max_nodes = 0, cfg_quorum_size = 0, cfg_network_timeout = 0,
     cfg_reconnect_interval = 0, cfg_enable_auto_failover = False, cfg_failover_timeout = 0\<rparr>"

section \<open>Loading\<close>

text \<open>A setting copied into a character array of size \<open>n\<close> that is zeroed before, and an \<^verbatim>\<open>int\<close> or \<^verbatim>\<open>long\<close>
  assigned to a \<^verbatim>\<open>size_t\<close>.\<close>

definition text_setting :: "'d xsan_config ptr \<Rightarrow> nat \<Rightarrow> string \<Rightarrow> string \<Rightarrow> string" where
  "text_setting config n key default_value =
     string_field n (xsan_config_get_string config (Some key) (Some default_value))"

definition int_setting :: "'d xsan_config ptr \<Rightarrow> string \<Rightarrow> int \<Rightarrow> u64" where
  "int_setting config key default_value = word_of_int (xsan_config_get_int config (Some key) default_value)"

definition long_setting :: "'d xsan_config ptr \<Rightarrow> string \<Rightarrow> int \<Rightarrow> u64" where
  "long_setting config key default_value = word_of_int (xsan_config_get_long config (Some key) default_value)"

text \<open>\<open>out\<close> says that a place for the result is given; without one, or without a configuration, the call
  returns false.\<close>

definition xsan_config_load_node_config :: "'d xsan_config ptr \<Rightarrow> bool \<Rightarrow> xsan_node_config ptr" where
  "xsan_config_load_node_config config out =
     (if config = NULL \<or> \<not> out then NULL
      else Some \<lparr>
        cfg_node_id = text_setting config 64 ''node.id'' [],
        cfg_node_name = text_setting config 128 ''node.name'' [],
        cfg_bind_address = text_setting config 64 ''node.bind_address'' ''0.0.0.0'',
        cfg_port = word_of_int (xsan_config_get_int config (Some ''node.port'') 8080),
        cfg_data_dir = text_setting config 256 ''node.data_dir'' ''/var/lib/xsan'',
        cfg_log_file = text_setting config 256 ''node.log_file'' ''/var/log/xsan/xsan.log'',
        cfg_log_level = text_setting config 16 ''node.log_level'' ''INFO'',
        cfg_max_connections = int_setting config ''node.max_connections'' 1000,
        cfg_heartbeat_interval = int_setting config ''node.heartbeat_interval'' 30,
        cfg_election_timeout = int_setting config ''node.election_timeout'' 150,
        cfg_enable_ssl = xsan_config_get_bool config (Some ''node.enable_ssl'') False,
        cfg_ssl_cert_file = text_setting config 256 ''node.ssl_cert_file'' [],
        cfg_ssl_key_file = text_setting config 256 ''node.ssl_key_file'' [],
        cfg_nvmf_target_nqn = text_setting config XSAN_MAX_NAME_LEN ''nvmf.target_nqn'' [],
        cfg_nvmf_listen_port = text_setting config 16 ''nvmf.listen_port'' ''4420''\<rparr>)"

definition xsan_config_load_storage_config :: "'d xsan_config ptr \<Rightarrow> bool \<Rightarrow> xsan_storage_config ptr" where
  "xsan_config_load_storage_config config out =
     (if config = NULL \<or> \<not> out then NULL
      else Some \<lparr>
        cfg_storage_dir = text_setting config 256 ''storage.dir'' ''/var/lib/xsan/storage'',
        cfg_block_size = int_setting config ''storage.block_size'' (4 * 1024),
        cfg_max_file_size = long_setting config ''storage.max_file_size'' (1024 * 1024 * 1024),
        cfg_cache_size = long_setting config ''storage.cache_size'' (100 * 1024 * 1024),
        cfg_io_threads = int_setting config ''storage.io_threads'' 4,
        cfg_sync_interval = int_setting config ''storage.sync_interval'' 60,
        cfg_enable_compression = xsan_config_get_bool config (Some ''storage.enable_compression'') False,
        cfg_compression_algorithm = text_setting config 32 ''storage.compression_algorithm'' ''lz4'',
        cfg_replication_factor = int_setting config ''storage.replication_factor'' 3,
        cfg_enable_checksums = xsan_config_get_bool config (Some ''storage.enable_checksums'') True\<rparr>)"

text \<open>An entry \<open>uuid@address:port\<close>: the first at sign and the last colon behind it count.\<close>

definition seed_entry :: "string \<Rightarrow> (string \<times> string \<times> u16) option" where
  "seed_entry token =
     (if CHR ''@'' \<notin> set token then None
      else
        (let uuid_part = takeWhile (\<lambda>c. c \<noteq> CHR ''@'') token;
             ip_part = tl (dropWhile (\<lambda>c. c \<noteq> CHR ''@'') token)
         in if CHR '':'' \<notin> set ip_part then None
            else
              (let port_str = rev (takeWhile (\<lambda>c. c \<noteq> CHR '':'') (rev ip_part));
                   ip = rev (tl (dropWhile (\<lambda>c. c \<noteq> CHR '':'') (rev ip_part)))
               in case xsan_str_to_long (Some port_str) of
                    None \<Rightarrow> None
                  | Some p \<Rightarrow> if p > 0 \<and> p \<le> 65535 then Some (uuid_part, ip, word_of_int p) else None)))"

definition seed_node :: "uuid \<Rightarrow> string \<Rightarrow> u16 \<Rightarrow> xsan_node" where
  "seed_node u ip port =
     \<lparr>xn_id = u, hostname = string_field XSAN_MAX_NAME_LEN (Some ip),
      storage_ip = string_field INET_ADDRSTRLEN (Some ip), storage_port = port,
      mgmt_ip = string_field INET_ADDRSTRLEN (Some ip), mgmt_port = port\<rparr>"

definition add_seed_entry :: "spdk_uuid \<Rightarrow> string \<Rightarrow> xsan_cluster_config \<Rightarrow> xsan_cluster_config" where
  "add_seed_entry U token cc =
     (case seed_entry token of
        None \<Rightarrow> cc
      | Some (uuid_part, ip, port) \<Rightarrow>
          (let i = unat (cfg_seed_node_count cc); u = spdk_uuid_parse U (Some uuid_part) 0 in
           if spdk_uuid_parse_result U (Some uuid_part) \<noteq> 0
           then cc\<lparr>cfg_seed_nodes := (cfg_seed_nodes cc)[i := zero_node\<lparr>xn_id := u\<rparr>]\<rparr>
           else cc\<lparr>cfg_seed_nodes := (cfg_seed_nodes cc)[i := seed_node u ip port],
                   cfg_seed_node_count := cfg_seed_node_count cc + 1\<rparr>))"

definition seed_delimiters :: string where
  "seed_delimiters = [CHR '','', CHR 0x20, CHR 0x09, CHR 0x0A]"

function seed_loop :: "spdk_uuid \<Rightarrow> string \<Rightarrow> xsan_cluster_config \<Rightarrow> xsan_cluster_config" where
  "seed_loop U s cc =
     (case strtok seed_delimiters s of
        None \<Rightarrow> cc
      | Some (token, s') \<Rightarrow>
          if unat (cfg_seed_node_count cc) < XSAN_MAX_SEED_NODES
          then seed_loop U s' (add_seed_entry U token cc)
          else cc)"
  by pat_completeness auto

termination
  by (relation "measure (\<lambda>(_, s, _). length s)") (auto dest: strtok_shorter)

text \<open>A failed duplication leaves the structure with nothing but the name. A null pointer as the value of
  the seed nodes is read.\<close>

definition xsan_config_load_cluster_config ::
  "spdk_uuid \<Rightarrow> bool \<Rightarrow> 'd xsan_config ptr \<Rightarrow> bool \<Rightarrow> (bool \<times> xsan_cluster_config ptr) run" where
  "xsan_config_load_cluster_config U dup_ok config out =
     (if config = NULL \<or> \<not> out then Done (False, NULL)
      else
        (let cc = zero_cluster_config\<lparr>cfg_cluster_name := text_setting config 128 ''cluster.name'' ''xsan-cluster''\<rparr> in
         case xsan_config_get_string config (Some ''cluster.seed_nodes'') (Some []) of
           NULL \<Rightarrow> Bad_access
         | Some s \<Rightarrow>
             if s \<noteq> [] \<and> \<not> dup_ok then Done (False, Some cc)
             else
               (let cc = (if s \<noteq> [] then seed_loop U s cc else cc) in
                Done (True, Some (cc\<lparr>
                  cfg_min_nodes := int_setting config ''cluster.min_nodes'' 3,
                  cfg_max_nodes := int_setting config ''cluster.max_nodes'' 64,
                  cfg_quorum_size := int_setting config ''cluster.quorum_size'' 2,
                  cfg_network_timeout := int_setting config ''cluster.network_timeout'' 30,
                  cfg_reconnect_interval := int_setting config ''cluster.reconnect_interval'' 5,
                  cfg_enable_auto_failover := xsan_config_get_bool config (Some ''cluster.enable_auto_failover'') True,
                  cfg_failover_timeout := int_setting config ''cluster.failover_timeout'' 300\<rparr>)))))"

definition xsan_config_validate :: "'d xsan_config ptr \<Rightarrow> bool" where
  "xsan_config_validate config =
     (if config = NULL then False
      else
        (let valid = True;
             valid = (if \<not> xsan_config_has_key config (Some ''node.id'') then False else valid);
             valid = (if \<not> xsan_config_has_key config (Some ''node.name'') then False else valid);
             port = xsan_config_get_int config (Some ''node.port'') 0;
             valid = (if port < 1024 \<or> port > 65535 then False else valid);
             replication_factor = xsan_config_get_int config (Some ''storage.replication_factor'') 0;
             valid = (if replication_factor < 1 \<or> replication_factor > 10 then False else valid);
             quorum_size = xsan_config_get_int config (Some ''cluster.quorum_size'') 0;
             valid = (if quorum_size < 1 then False else valid)
         in valid))"

section \<open>Facts\<close>

declare seed_loop.simps [simp del]

subsection \<open>Seed nodes\<close>

definition seeds_inv :: "xsan_cluster_config \<Rightarrow> bool" where
  "seeds_inv cc \<longleftrightarrow> length (cfg_seed_nodes cc) = XSAN_MAX_SEED_NODES \<and>
     unat (cfg_seed_node_count cc) \<le> XSAN_MAX_SEED_NODES \<and>
     (\<forall>n\<in>set (take (unat (cfg_seed_node_count cc)) (cfg_seed_nodes cc)). storage_port n \<noteq> 0 \<and> length (storage_ip n) < INET_ADDRSTRLEN)"

abbreviation (input) config_seeds :: "xsan_cluster_config \<Rightarrow> xsan_node list" where
  "config_seeds cc \<equiv> take (unat (cfg_seed_node_count cc)) (cfg_seed_nodes cc)"

lemma port_nonzero: "0 < p \<Longrightarrow> p \<le> 65535 \<Longrightarrow> (word_of_int p :: u16) \<noteq> 0"
proof -
  assume p: "0 < p" "p \<le> 65535"
  have "uint (word_of_int p :: u16) = p" using p by (simp add: unsigned_of_int take_bit_eq_mod)
  with p show ?thesis by auto
qed

lemma count_next:
  "unat (n :: u64) < XSAN_MAX_SEED_NODES \<Longrightarrow> unat (n + 1) = Suc (unat n)"
  by (simp add: XSAN_MAX_SEED_NODES_def unat_word_ariths)

lemma seed_entry_port: "seed_entry token = Some (u, ip, port) \<Longrightarrow> port \<noteq> 0"
  by (auto simp: seed_entry_def Let_def port_nonzero split: if_splits option.splits)

lemma add_seed_entry_inv:
  assumes "seeds_inv cc" "unat (cfg_seed_node_count cc) < XSAN_MAX_SEED_NODES"
  shows "seeds_inv (add_seed_entry U token cc)"
proof (cases "seed_entry token")
  case None
  with assms show ?thesis by (simp add: add_seed_entry_def)
next
  case (Some e)
  obtain u ip port where e: "e = (u, ip, port)" by (cases e) auto
  let ?i = "unat (cfg_seed_node_count cc)"
  have i: "?i < length (cfg_seed_nodes cc)" using assms by (simp add: seeds_inv_def)
  have t: "take (Suc ?i) ((cfg_seed_nodes cc)[?i := n]) = config_seeds cc @ [n]" for n
    using i by (simp add: take_Suc_conv_app_nth)
  have "storage_port (seed_node v ip port) \<noteq> 0 \<and> length (storage_ip (seed_node v ip port)) < INET_ADDRSTRLEN" for v
    using seed_entry_port [OF Some [unfolded e]] string_field_bounds [of INET_ADDRSTRLEN]
    by (simp add: seed_node_def INET_ADDRSTRLEN_def)
  with assms i show ?thesis
    by (auto simp: add_seed_entry_def Some e seeds_inv_def Let_def count_next t)
qed

lemma seed_loop_inv: "seeds_inv cc \<Longrightarrow> seeds_inv (seed_loop U s cc)"
proof (induction U s cc rule: seed_loop.induct)
  case (1 U s cc)
  show ?case
  proof (cases "strtok seed_delimiters s")
    case (Some a)
    then obtain token s' where a: "strtok seed_delimiters s = Some (token, s')" by (cases a) auto
    then show ?thesis
      using "1.prems" "1.IH" [OF a refl] add_seed_entry_inv [OF "1.prems"] by (simp add: seed_loop.simps [of U s])
  qed (use "1.prems" in \<open>simp add: seed_loop.simps [of U s]\<close>)
qed

text \<open>The notation of a seed node, and what is kept of it.\<close>

definition seed_text :: "spdk_uuid \<Rightarrow> xsan_node \<Rightarrow> string" where
  "seed_text U n = spdk_uuid_fmt_lower U (xn_id n) @ ''@'' @ storage_ip n @ '':'' @ show_nat (unat (storage_port n))"

definition seed_ok :: "spdk_uuid \<Rightarrow> xsan_node \<Rightarrow> bool" where
  "seed_ok U n \<longleftrightarrow> storage_port n \<noteq> 0 \<and> CHR ''@'' \<notin> set (spdk_uuid_fmt_lower U (xn_id n)) \<and>
     set (spdk_uuid_fmt_lower U (xn_id n) @ storage_ip n) \<inter> set seed_delimiters = {} \<and> NUL \<notin> set (storage_ip n)"

definition kept_seed :: "xsan_node \<Rightarrow> xsan_node" where
  "kept_seed n = \<lparr>xn_id = xn_id n, hostname = take 255 (storage_ip n), storage_ip = take 15 (storage_ip n),
     storage_port = storage_port n, mgmt_ip = take 15 (storage_ip n), mgmt_port = storage_port n\<rparr>"

lemma digits_plain: "CHR '':'' \<notin> set (show_nat n)" "set (show_nat n) \<inter> set seed_delimiters = {}"
  using show_nat_digits [of n] by (auto simp: isdigit_def seed_delimiters_def)

lemma long_port: "xsan_str_to_long (Some (show_nat (unat (p :: u16)))) = Some (uint p)" "uint p \<le> 65535"
proof -
  have b: "0 \<le> uint p" "uint p < 65536" using uint_lt2p [of p] by simp_all
  have "show_nat (unat p) = show_int (uint p)" by (simp add: show_int_def)
  moreover have "LONG_MIN \<le> 0" "65536 \<le> LONG_MAX" by (simp_all add: LONG_MIN_def LONG_MAX_def)
  then have "\<not> uint p < LONG_MIN" "\<not> uint p > LONG_MAX" using b by linarith+
  ultimately show "xsan_str_to_long (Some (show_nat (unat p))) = Some (uint p)"
    by (simp add: xsan_str_to_long_def strtol_show)
  from b show "uint p \<le> 65535" by simp
qed

lemma split_at:
  "x \<notin> set xs \<Longrightarrow> takeWhile (\<lambda>c. c \<noteq> x) (xs @ x # r) = xs" "x \<notin> set xs \<Longrightarrow> dropWhile (\<lambda>c. c \<noteq> x) (xs @ x # r) = x # r"
  by (induction xs) auto

lemma seed_entry_text:
  assumes "seed_ok U n"
  shows "seed_entry (seed_text U n) = Some (spdk_uuid_fmt_lower U (xn_id n), storage_ip n, storage_port n)"
proof -
  let ?u = "spdk_uuid_fmt_lower U (xn_id n)" and ?p = "show_nat (unat (storage_port n))"
  have u: "CHR ''@'' \<notin> set ?u" using assms by (simp add: seed_ok_def)
  have p: "CHR '':'' \<notin> set (rev ?p)" using digits_plain(1) by simp
  have "0 < uint (storage_port n)" using assms by (simp add: seed_ok_def word_neq_0_conv word_less_def)
  then show ?thesis
    using long_port [of "storage_port n"] by (simp add: seed_entry_def seed_text_def Let_def split_at [OF u] split_at [OF p])
qed

lemma strtok_word:
  assumes "t \<noteq> []" "set t \<inter> set delim = {}"
  shows "strtok delim t = Some (t, [])" "d \<in> set delim \<Longrightarrow> strtok delim (t @ d # r) = Some (t, r)"
proof -
  have h: "hd t \<notin> set delim" using assms by (cases t) auto
  have n: "\<forall>c\<in>set t. c \<notin> set delim" using assms(2) by auto
  have d: "dropWhile (\<lambda>c. c \<in> set delim) (t @ u) = t @ u" for u using h assms(1) by (cases t) auto
  have w: "takeWhile (\<lambda>c. c \<notin> set delim) (t @ u) = t @ takeWhile (\<lambda>c. c \<notin> set delim) u"
    "dropWhile (\<lambda>c. c \<notin> set delim) (t @ u) = dropWhile (\<lambda>c. c \<notin> set delim) u" for u
    using n by (simp_all add: takeWhile_append2 dropWhile_append2)
  show "strtok delim t = Some (t, [])"
    unfolding strtok_def Let_def using d [of "[]", unfolded append_Nil2] w [of "[]", unfolded append_Nil2] assms(1)
    by (simp only: if_False takeWhile.simps dropWhile.simps append_Nil2 drop_Nil)
  show "d \<in> set delim \<Longrightarrow> strtok delim (t @ d # r) = Some (t, r)"
    using d [of "d # r"] w [of "d # r"] assms(1) by (simp add: strtok_def Let_def)
qed

lemma seed_text_word:
  "seed_ok U n \<Longrightarrow> seed_text U n \<noteq> [] \<and> set (seed_text U n) \<inter> set seed_delimiters = {}"
  using digits_plain(2) [of "unat (storage_port n)"]
  by (auto simp: seed_ok_def seed_text_def) (auto simp: seed_delimiters_def)

lemma add_seed_text:
  assumes "seed_ok U n" "uuid_ok U"
  shows "add_seed_entry U (seed_text U n) cc =
    cc\<lparr>cfg_seed_nodes := (cfg_seed_nodes cc)[unat (cfg_seed_node_count cc) := kept_seed n],
       cfg_seed_node_count := cfg_seed_node_count cc + 1\<rparr>"
proof -
  have "spdk_uuid_parse_result U (Some (spdk_uuid_fmt_lower U (xn_id n))) = 0"
    "spdk_uuid_parse U (Some (spdk_uuid_fmt_lower U (xn_id n))) 0 = xn_id n"
    using assms(2) by (simp_all add: uuid_ok_def)
  moreover have "seed_node (xn_id n) (storage_ip n) (storage_port n) = kept_seed n"
    using assms(1) by (simp add: seed_node_def kept_seed_def seed_ok_def string_field_eq XSAN_MAX_NAME_LEN_def INET_ADDRSTRLEN_def)
  ultimately show ?thesis by (simp add: add_seed_entry_def seed_entry_text [OF assms(1)] Let_def)
qed

lemma seed_loop_step:
  assumes "seed_ok U n" "uuid_ok U"
  shows "seed_loop U (seed_text U n @ CHR '','' # s) cc =
    (if unat (cfg_seed_node_count cc) < XSAN_MAX_SEED_NODES
     then seed_loop U s (cc\<lparr>cfg_seed_nodes := (cfg_seed_nodes cc)[unat (cfg_seed_node_count cc) := kept_seed n],
       cfg_seed_node_count := cfg_seed_node_count cc + 1\<rparr>) else cc)"
proof -
  have "strtok seed_delimiters (seed_text U n @ CHR '','' # s) = Some (seed_text U n, s)"
    using seed_text_word [OF assms(1)] by (intro strtok_word(2)) (simp_all add: seed_delimiters_def)
  then show ?thesis by (simp add: seed_loop.simps [of U "seed_text U n @ CHR '','' # s"] add_seed_text [OF assms])
qed

text \<open>A comma behind the last entry makes no difference.\<close>

lemma seed_loop_end:
  assumes "seed_ok U n" shows "seed_loop U (seed_text U n) cc = seed_loop U (seed_text U n @ '','') cc"
proof -
  have d: "CHR '','' \<in> set seed_delimiters" by (simp add: seed_delimiters_def)
  note w = strtok_word [of "seed_text U n" seed_delimiters, OF seed_text_word [OF assms, THEN conjunct1] seed_text_word [OF assms, THEN conjunct2]]
  show ?thesis by (simp add: seed_loop.simps [of U "seed_text U n"] seed_loop.simps [of U "seed_text U n @ '',''"] w(1) w(2) [OF d])
qed

lemma seed_loop_first:
  assumes "seed_ok U n"
  shows "seed_loop U (join '','' (map (seed_text U) (n # ns))) cc =
    seed_loop U (seed_text U n @ CHR '','' # join '','' (map (seed_text U) ns)) cc"
  using seed_loop_end [OF assms, of cc] by (cases ns) simp_all

lemma seed_loop_text:
  assumes "\<forall>n\<in>set ns. seed_ok U n" "uuid_ok U" "length (cfg_seed_nodes cc) = XSAN_MAX_SEED_NODES"
    "unat (cfg_seed_node_count cc) \<le> XSAN_MAX_SEED_NODES"
  shows "config_seeds (seed_loop U (join '','' (map (seed_text U) ns)) cc) =
    config_seeds cc @ map kept_seed (take (XSAN_MAX_SEED_NODES - unat (cfg_seed_node_count cc)) ns)"
  using assms
proof (induction ns arbitrary: cc)
  case Nil
  then show ?case by (simp add: seed_loop.simps strtok_def)
next
  case (Cons n ns)
  let ?i = "unat (cfg_seed_node_count cc)"
  let ?cc = "cc\<lparr>cfg_seed_nodes := (cfg_seed_nodes cc)[?i := kept_seed n], cfg_seed_node_count := cfg_seed_node_count cc + 1\<rparr>"
  have n: "seed_ok U n" using Cons.prems(1) by simp
  note first = seed_loop_first [OF n] seed_loop_step [OF n Cons.prems(2)]
  show ?case
  proof (cases "?i < XSAN_MAX_SEED_NODES")
    case True
    have t: "take (Suc ?i) ((cfg_seed_nodes cc)[?i := kept_seed n]) = config_seeds cc @ [kept_seed n]"
      using True Cons.prems(3) by (simp add: take_Suc_conv_app_nth)
    have d: "XSAN_MAX_SEED_NODES - ?i = Suc (XSAN_MAX_SEED_NODES - Suc ?i)" using True by simp
    have "config_seeds (seed_loop U (join '','' (map (seed_text U) ns)) ?cc) =
        config_seeds ?cc @ map kept_seed (take (XSAN_MAX_SEED_NODES - unat (cfg_seed_node_count ?cc)) ns)"
      using Cons.prems True by (intro Cons.IH) (simp_all add: count_next)
    then show ?thesis
      using True by (simp add: first count_next t d list.map(2) [of kept_seed] del: list.map)
  next
    case False
    then show ?thesis by (simp add: first del: list.map)
  qed
qed

lemma zero_seeds: "seeds_inv zero_cluster_config" "config_seeds zero_cluster_config = []"
  by (simp_all add: seeds_inv_def zero_cluster_config_def XSAN_MAX_SEED_NODES_def)

lemma seeds_inv_eq:
  "cfg_seed_nodes cc = cfg_seed_nodes cc' \<Longrightarrow> cfg_seed_node_count cc = cfg_seed_node_count cc' \<Longrightarrow> seeds_inv cc' \<Longrightarrow> seeds_inv cc"
  by (simp add: seeds_inv_def)

text \<open>The structure after the name and the seed nodes.\<close>

definition seeded :: "spdk_uuid \<Rightarrow> 'd xsan_config \<Rightarrow> string \<Rightarrow> xsan_cluster_config" where
  "seeded U c s =
     (let cc = zero_cluster_config\<lparr>cfg_cluster_name := text_setting (Some c) 128 ''cluster.name'' ''xsan-cluster''\<rparr>
      in if s \<noteq> [] then seed_loop U s cc else cc)"

lemma seeded_inv: "seeds_inv (seeded U c s)"
proof -
  have "seeds_inv (zero_cluster_config\<lparr>cfg_cluster_name := n\<rparr>)" for n
    by (rule seeds_inv_eq [OF _ _ zero_seeds(1)]) simp_all
  then show ?thesis by (simp add: seeded_def Let_def seed_loop_inv)
qed

lemma cluster_config_cases:
  assumes "xsan_config_load_cluster_config U dup_ok (Some c) True = Done (True, Some cc)"
  obtains s where "xsan_config_get_string (Some c) (Some ''cluster.seed_nodes'') (Some []) = Some s"
    "cfg_seed_nodes cc = cfg_seed_nodes (seeded U c s)" "cfg_seed_node_count cc = cfg_seed_node_count (seeded U c s)"
    "cfg_quorum_size cc = int_setting (Some c) ''cluster.quorum_size'' 2"
  using assms unfolding xsan_config_load_cluster_config_def seeded_def [symmetric] Let_def
  by (cases "xsan_config_get_string (Some c) (Some ''cluster.seed_nodes'') (Some [])")
    (auto simp: seeded_def Let_def split: if_splits)

lemma cluster_config_loaded:
  assumes "xsan_config_get_string (Some c) (Some ''cluster.seed_nodes'') (Some []) = Some s"
  shows "\<exists>cc. xsan_config_load_cluster_config U True (Some c) True = Done (True, Some cc)"
  by (simp add: xsan_config_load_cluster_config_def assms Let_def)

text \<open>C13: a list of seed nodes in the notation \<open>uuid@address:port\<close>, separated by commas, is read
  back as exactly those nodes, in order and up to the maximum of sixteen, with the address cut to the
  length of an IPv4 address. The address may contain colons, the last one separates the port.\<close>

theorem seed_nodes_parsed:
  assumes "uuid_ok U" "\<forall>n\<in>set ns. seed_ok U n"
    and "xsan_config_get_string (Some c) (Some ''cluster.seed_nodes'') (Some []) = Some (join '','' (map (seed_text U) ns))"
  shows "\<exists>cc. xsan_config_load_cluster_config U True (Some c) True = Done (True, Some cc) \<and>
    take (unat (cfg_seed_node_count cc)) (cfg_seed_nodes cc) = map kept_seed (take XSAN_MAX_SEED_NODES ns) \<and>
    unat (cfg_seed_node_count cc) = min XSAN_MAX_SEED_NODES (length ns)"
proof -
  let ?s = "join '','' (map (seed_text U) ns)"
  let ?z = "zero_cluster_config\<lparr>cfg_cluster_name := text_setting (Some c) 128 ''cluster.name'' ''xsan-cluster''\<rparr>"
  obtain cc where cc: "xsan_config_load_cluster_config U True (Some c) True = Done (True, Some cc)"
    using cluster_config_loaded [OF assms(3)] by blast
  from cc obtain s where "xsan_config_get_string (Some c) (Some ''cluster.seed_nodes'') (Some []) = Some s"
    and f: "cfg_seed_nodes cc = cfg_seed_nodes (seeded U c s)" "cfg_seed_node_count cc = cfg_seed_node_count (seeded U c s)"
    by (rule cluster_config_cases)
  then have s: "s = ?s" using assms(3) by simp
  have "seeded U c ?s = seed_loop U ?s ?z" 
    by (cases "?s = []") (simp_all add: seeded_def Let_def seed_loop.simps [of U "[]"] strtok_def)
  moreover have "config_seeds (seed_loop U ?s ?z) = config_seeds ?z @ map kept_seed (take (XSAN_MAX_SEED_NODES - unat (cfg_seed_node_count ?z)) ns)"
    using assms(1,2) zero_seeds(1) by (intro seed_loop_text) (simp_all add: seeds_inv_def)
  ultimately have r: "config_seeds cc = map kept_seed (take XSAN_MAX_SEED_NODES ns)"
    using zero_seeds(2) f s by (simp add: zero_cluster_config_def)
  have "unat (cfg_seed_node_count cc) \<le> length (cfg_seed_nodes cc)"
    using seeds_inv_eq [OF f seeded_inv] by (simp add: seeds_inv_def)
  then have "unat (cfg_seed_node_count cc) = length (config_seeds cc)" by simp
  with r cc show ?thesis by (auto simp: min.commute)
qed

lemma get_int_default:
  "xsan_config_get_int config key 0 \<noteq> 0 \<Longrightarrow> xsan_config_get_int config key d = xsan_config_get_int config key 0"
  by (auto simp: xsan_config_get_int_def split: option.splits config_value.splits)

lemma get_int_range:
  fixes c :: "'d xsan_config"
  assumes "config_wf c" "INT_MIN \<le> d" "d \<le> INT_MAX"
  shows "INT_MIN \<le> xsan_config_get_int (Some c) (Some k) d \<and> xsan_config_get_int (Some c) (Some k) d \<le> INT_MAX"
proof (cases "\<exists>n. map_of (items c) k = Some (Int_val n)")
  case True
  then obtain n where n: "map_of (items c) k = Some (Int_val n)" by blast
  with assms(1) have "value_ok (Int_val n :: 'd config_value)" unfolding config_wf_def by blast
  with n show ?thesis by (simp add: xsan_config_get_int_def find_config_item_def)
next
  case False
  then have "xsan_config_get_int (Some c) (Some k) d = d"
    by (auto simp: xsan_config_get_int_def find_config_item_def split: option.splits config_value.splits)
  with assms(2,3) show ?thesis by simp
qed

lemma validate_facts:
  assumes "xsan_config_validate (Some c)"
  shows "1024 \<le> xsan_config_get_int (Some c) (Some ''node.port'') 0" "xsan_config_get_int (Some c) (Some ''node.port'') 0 \<le> 65535"
    "1 \<le> xsan_config_get_int (Some c) (Some ''storage.replication_factor'') 0"
    "xsan_config_get_int (Some c) (Some ''storage.replication_factor'') 0 \<le> 10"
    "1 \<le> xsan_config_get_int (Some c) (Some ''cluster.quorum_size'') 0"
  using assms by (auto simp: xsan_config_validate_def Let_def split: if_splits)

lemma uint_small: "0 \<le> n \<Longrightarrow> n < 2 ^ 64 \<Longrightarrow> uint (word_of_int n :: u64) = n"
  by (simp add: unsigned_of_int take_bit_eq_mod)

text \<open>C14: a configuration that passes the validation can be loaded, and the settings
  are within the bounds that were checked: the port, which is assigned to sixteen bits, is the configured
  one and between 1024 and 65535, the replication factor is between one and ten and the quorum is
  positive and as configured, not a negative number turned into a huge one. The number of seed nodes is
  within the array, each has a port, and every address fits its field.\<close>

theorem validated_config_loads:
  assumes "cfg_reach F c" "xsan_config_validate (Some c)"
  shows "\<exists>nc sc. xsan_config_load_node_config (Some c) True = Some nc \<and> xsan_config_load_storage_config (Some c) True = Some sc \<and>
    uint (cfg_port nc) = xsan_config_get_int (Some c) (Some ''node.port'') 0 \<and> 1024 \<le> unat (cfg_port nc) \<and>
    uint (cfg_replication_factor sc) = xsan_config_get_int (Some c) (Some ''storage.replication_factor'') 0 \<and>
    cfg_replication_factor sc \<in> {1..10} \<and>
    (\<forall>U dup_ok cc. xsan_config_load_cluster_config U dup_ok (Some c) True = Done (True, Some cc) \<longrightarrow>
       uint (cfg_quorum_size cc) = xsan_config_get_int (Some c) (Some ''cluster.quorum_size'') 0 \<and> 0 < cfg_quorum_size cc \<and>
       unat (cfg_seed_node_count cc) \<le> length (cfg_seed_nodes cc) \<and>
       (\<forall>n\<in>set (take (unat (cfg_seed_node_count cc)) (cfg_seed_nodes cc)).
          storage_port n \<noteq> 0 \<and> length (storage_ip n) < INET_ADDRSTRLEN))"
proof -
  have wf: "config_wf c" by (rule cfg_reach_wf [OF assms(1)])
  note v = validate_facts [OF assms(2)]
  define p where "p = xsan_config_get_int (Some c) (Some ''node.port'') 0"
  define r where "r = xsan_config_get_int (Some c) (Some ''storage.replication_factor'') 0"
  define q where "q = xsan_config_get_int (Some c) (Some ''cluster.quorum_size'') 0"
  have b: "1024 \<le> p" "p \<le> 65535" "1 \<le> r" "r \<le> 10" "1 \<le> q" using v by (simp_all add: p_def r_def q_def)
  have q: "q \<le> INT_MAX" unfolding q_def
    by (rule get_int_range [OF wf, THEN conjunct2]) (simp_all add: INT_MIN_def INT_MAX_def)
  have d: "xsan_config_get_int (Some c) (Some ''node.port'') 8080 = p"
    "xsan_config_get_int (Some c) (Some ''storage.replication_factor'') 3 = r"
    "xsan_config_get_int (Some c) (Some ''cluster.quorum_size'') 2 = q"
    using b by (auto simp: p_def r_def q_def intro!: get_int_default)
  obtain nc where nc: "xsan_config_load_node_config (Some c) True = Some nc" "cfg_port nc = word_of_int p"
    using d(1) by (simp add: xsan_config_load_node_config_def)
  obtain sc where sc: "xsan_config_load_storage_config (Some c) True = Some sc" "cfg_replication_factor sc = word_of_int r"
    using d(2) by (simp add: xsan_config_load_storage_config_def int_setting_def)
  have p: "uint (cfg_port nc) = p" using nc(2) b by (simp add: unsigned_of_int take_bit_eq_mod)
  then have "1024 \<le> unat (cfg_port nc)" using b(1) by (simp add: unat_eq_nat_uint le_nat_iff del: nat_uint_eq)
  moreover have r: "uint (cfg_replication_factor sc) = r" using sc(2) b uint_small [of r] by simp
  moreover have "cfg_replication_factor sc \<in> {1..10}" using r b(3,4) by (simp add: word_le_def)
  moreover have "uint (cfg_quorum_size cc) = q \<and> 0 < cfg_quorum_size cc \<and>
       unat (cfg_seed_node_count cc) \<le> length (cfg_seed_nodes cc) \<and>
       (\<forall>n\<in>set (config_seeds cc). storage_port n \<noteq> 0 \<and> length (storage_ip n) < INET_ADDRSTRLEN)"
    if cc: "xsan_config_load_cluster_config U dup_ok (Some c) True = Done (True, Some cc)" for U dup_ok cc
  proof -
    from cc obtain s where "cfg_seed_nodes cc = cfg_seed_nodes (seeded U c s)" "cfg_seed_node_count cc = cfg_seed_node_count (seeded U c s)"
      and k: "cfg_quorum_size cc = int_setting (Some c) ''cluster.quorum_size'' 2"
      by (rule cluster_config_cases)
    then have "seeds_inv cc" by (intro seeds_inv_eq [OF _ _ seeded_inv])
    moreover have "uint (cfg_quorum_size cc) = q" using k d(3) b(5) q uint_small [of q] by (simp add: int_setting_def INT_MAX_def)
    moreover from this have "0 < cfg_quorum_size cc" using b(5) by (simp add: word_less_def)
    ultimately show ?thesis by (simp add: seeds_inv_def)
  qed
  ultimately show ?thesis using nc(1) sc(1) p unfolding p_def r_def q_def by blast
qed

section \<open>Examples\<close>

definition sample_seed :: xsan_node where
  "sample_seed = zero_node\<lparr>xn_id := 1, storage_ip := ''10.0.0.2'', storage_port := 8080\<rparr>"

definition sample_seed_config :: "string xsan_config" where
  "sample_seed_config = \<lparr>items = [(''cluster.seed_nodes'', String_val (Some (join '','' (map (seed_text sample_uuid) [sample_seed]))))],
     item_count = 1, config_file = NULL, auto_reload = False, last_modified = 0\<rparr>"

theorem seed_nodes_parsed_witness:
  "\<exists>cc. xsan_config_load_cluster_config sample_uuid True (Some sample_seed_config) True = Done (True, Some cc) \<and>
    take (unat (cfg_seed_node_count cc)) (cfg_seed_nodes cc) = [kept_seed sample_seed] \<and> unat (cfg_seed_node_count cc) = 1"
proof -
  have "base_255 17 1 = CHR 0x02 # replicate 16 (CHR 0x01)" by code_simp
  then have "spdk_uuid_fmt_lower sample_uuid (xn_id sample_seed) = CHR 0x02 # replicate 16 (CHR 0x01)"
    by (simp add: sample_uuid_def sample_seed_def del: base_255.simps)
  then have "seed_ok sample_uuid sample_seed"
    by (simp add: seed_ok_def) (simp add: sample_seed_def seed_delimiters_def)
  moreover have "xsan_config_get_string (Some sample_seed_config) (Some ''cluster.seed_nodes'') (Some []) =
      Some (join '','' (map (seed_text sample_uuid) [sample_seed]))"
    by (simp add: xsan_config_get_string_def find_config_item_def sample_seed_config_def)
  ultimately show ?thesis
    using seed_nodes_parsed [OF sample_uuid_ok, of "[sample_seed]" sample_seed_config]
    by (simp add: XSAN_MAX_SEED_NODES_def)
qed

lemma reach_put:
  "cfg_reach F c \<Longrightarrow> value_ok v \<Longrightarrow> \<not> null_value v \<Longrightarrow> cfg_reach F (put_item c k v)"
  by (rule cr_set [of F c v all_ok "Some k" True]) (simp_all add: set_item_cases stored_all_ok)

definition valid_config :: "string xsan_config" where
  "valid_config = put_item (put_item (put_item (put_item (put_item (the (xsan_config_create True))
     ''node.id'' (String_val (Some ''1''))) ''node.name'' (String_val (Some ''n1''))) ''node.port'' (Int_val 9000))
     ''storage.replication_factor'' (Int_val 2)) ''cluster.quorum_size'' (Int_val 3)"

theorem validated_config_loads_witness:
  "\<exists>nc. xsan_config_load_node_config (Some valid_config) True = Some nc \<and> uint (cfg_port nc) = 9000"
proof -
  have "cfg_reach sample_format (the (xsan_config_create True))"
    by (rule cr_create) (simp add: xsan_config_create_def)
  then have r: "cfg_reach sample_format valid_config"
    unfolding valid_config_def by (intro reach_put) (simp_all add: INT_MIN_def INT_MAX_def)
  have f: "xsan_config_get_int (Some valid_config) (Some ''node.port'') 0 = 9000"
    by (simp add: valid_config_def xsan_config_get_int_def find_config_item_def find_put)
  have "xsan_config_validate (Some valid_config)"
    by (simp add: valid_config_def xsan_config_validate_def xsan_config_has_key_def xsan_config_get_int_def
        find_config_item_def find_put Let_def)
  from validated_config_loads [OF r this] f show ?thesis by auto
qed

end
