(* ===== verification/Cluster.thy ===== *)
theory Cluster
  imports NodeConfig
begin

text \<open>
  The cluster membership of src/cluster/xsan\_cluster.c: the identity of the local node and the list
  of known nodes.

  The static variables of the file are the record \<open>cluster_state\<close>, the variables it takes from the
  main program the record \<open>node_globals\<close>. The body of \<^verbatim>\<open>xsan_cluster_init\<close> ends before the statements
  that fill the list from the seed nodes: those stand outside any function. \<open>load_seed_nodes\<close> models
  them on their own, and \<open>xsan_cluster_init\<close> is the function as it is, without them. The remaining
  functions of the file are stubs that return a constant.
\<close>

definition XSAN_INTERNAL_MAX_KNOWN_NODES :: nat where "XSAN_INTERNAL_MAX_KNOWN_NODES = 16"

record node_globals =
  g_xsan_config :: bool
  g_local_node_config :: xsan_node_config
  g_cluster_config :: xsan_cluster_config

record cluster_state =
  g_known_cluster_nodes :: "xsan_node list"
  g_known_node_count :: u64
  g_cluster_initialized :: bool

definition initial_cluster_state :: cluster_state where
  "initial_cluster_state = \<lparr>g_known_cluster_nodes = replicate XSAN_INTERNAL_MAX_KNOWN_NODES zero_node,
     g_known_node_count = 0, g_cluster_initialized = False\<rparr>"

text \<open>The local node: the error, and what the three results hold if the call wrote them. \<open>outs\<close> says that
  the places for the results are given.\<close>

definition xsan_get_local_node_info ::
  "spdk_uuid \<Rightarrow> node_globals \<Rightarrow> bool \<Rightarrow> nat \<Rightarrow> xsan_error \<times> uuid \<times> string \<times> u16" where
  "xsan_get_local_node_info U G outs ip_buf_len =
     (let cfg = g_local_node_config G in
      if \<not> outs \<or> ip_buf_len = 0 then (XSAN_ERROR_INVALID_PARAM, 0, [], 0)
      else if \<not> g_xsan_config G \<or> cfg_node_id cfg = [] then (XSAN_ERROR_NOT_INITIALIZED, 0, [], 0)
      else if spdk_uuid_parse_result U (Some (cfg_node_id cfg)) \<noteq> 0 then (XSAN_ERROR_CONFIG_PARSE, 0, [], 0)
      else
        (let node_id = spdk_uuid_parse U (Some (cfg_node_id cfg)) 0;
             ip = string_field ip_buf_len (Some (cfg_bind_address cfg));
             port = cfg_port cfg
         in if ip = [] then (XSAN_ERROR_CONFIG_INVALID, node_id, ip, port)
            else (XSAN_OK, node_id, ip, port)))"

definition xsan_cluster_init :: "node_globals \<Rightarrow> cluster_state \<Rightarrow> cluster_state \<times> xsan_error" where
  "xsan_cluster_init G cs =
     (if g_cluster_initialized cs then (cs, XSAN_OK)
      else if \<not> g_xsan_config G \<or> cfg_cluster_name (g_cluster_config G) = [] then
        (cs, XSAN_ERROR_NOT_INITIALIZED)
      else (cs\<lparr>g_cluster_initialized := True\<rparr>, XSAN_OK))"

text \<open>The statements behind it: the valid seed nodes are copied one after the other.\<close>

definition seed_valid :: "spdk_uuid \<Rightarrow> xsan_node \<Rightarrow> bool" where
  "seed_valid U n \<longleftrightarrow>
     \<not> spdk_uuid_is_null U (xn_id n) \<and> \<not> (storage_ip n = [] \<or> storage_port n = 0)"

definition add_seed :: "spdk_uuid \<Rightarrow> xsan_node \<Rightarrow> cluster_state \<Rightarrow> cluster_state" where
  "add_seed U n cs =
     (if seed_valid U n then
        cs\<lparr>g_known_cluster_nodes := (g_known_cluster_nodes cs)[unat (g_known_node_count cs) := n],
           g_known_node_count := g_known_node_count cs + 1\<rparr>
      else cs)"

definition load_seed_nodes :: "spdk_uuid \<Rightarrow> node_globals \<Rightarrow> cluster_state \<Rightarrow> cluster_state" where
  "load_seed_nodes U G cs =
     (let cfg = g_cluster_config G;
          seeds = take (min (unat (cfg_seed_node_count cfg)) XSAN_INTERNAL_MAX_KNOWN_NODES) (cfg_seed_nodes cfg)
      in (fold (add_seed U) seeds (cs\<lparr>g_known_node_count := 0\<rparr>))\<lparr>g_cluster_initialized := True\<rparr>)"

definition xsan_cluster_shutdown :: "cluster_state \<Rightarrow> cluster_state" where
  "xsan_cluster_shutdown cs =
     (if \<not> g_cluster_initialized cs then cs
      else cs\<lparr>g_known_node_count := 0, g_cluster_initialized := False\<rparr>)"

definition xsan_cluster_get_all_known_nodes ::
  "bool \<Rightarrow> cluster_state \<Rightarrow> bool \<Rightarrow> xsan_error \<times> xsan_node list" where
  "xsan_cluster_get_all_known_nodes malloc_ok cs outs =
     (if \<not> outs then (XSAN_ERROR_INVALID_PARAM, [])
      else if \<not> g_cluster_initialized cs then (XSAN_ERROR_NOT_INITIALIZED, [])
      else if g_known_node_count cs = 0 then (XSAN_OK, [])
      else if \<not> malloc_ok then (XSAN_ERROR_OUT_OF_MEMORY, [])
      else (XSAN_OK, take (unat (g_known_node_count cs)) (g_known_cluster_nodes cs)))"

definition xsan_cluster_get_node_by_id ::
  "spdk_uuid \<Rightarrow> cluster_state \<Rightarrow> uuid \<Rightarrow> bool \<Rightarrow> xsan_error \<times> xsan_node ptr" where
  "xsan_cluster_get_node_by_id U cs node_id out =
     (if \<not> out \<or> spdk_uuid_is_null U node_id then (XSAN_ERROR_INVALID_PARAM, NULL)
      else if \<not> g_cluster_initialized cs then (XSAN_ERROR_NOT_INITIALIZED, NULL)
      else
        (case find (\<lambda>n. spdk_uuid_compare U (xn_id n) node_id = 0)
                (take (unat (g_known_node_count cs)) (g_known_cluster_nodes cs)) of
           Some n \<Rightarrow> (XSAN_OK, Some n)
         | None \<Rightarrow> (XSAN_ERROR_NOT_FOUND, NULL)))"

definition xsan_cluster_get_node ::
  "spdk_uuid \<Rightarrow> cluster_state \<Rightarrow> uuid \<Rightarrow> bool \<Rightarrow> xsan_error \<times> xsan_node ptr" where
  "xsan_cluster_get_node U cs node_id out = xsan_cluster_get_node_by_id U cs node_id out"

definition xsan_cluster_get_master ::
  "spdk_uuid \<Rightarrow> node_globals \<Rightarrow> bool \<Rightarrow> xsan_error \<times> uuid" where
  "xsan_cluster_get_master U G out =
     (if \<not> out then (XSAN_ERROR_INVALID_PARAM, 0)
      else
        (case xsan_get_local_node_info U G True INET6_ADDRSTRLEN of (err, node_id, _, _) \<Rightarrow> (err, node_id)))"

text \<open>The steps of a cluster module over its life.\<close>

datatype cluster_op = Cluster_init | Cluster_shutdown

fun cluster_step :: "node_globals \<Rightarrow> cluster_op \<Rightarrow> cluster_state \<Rightarrow> cluster_state" where
  "cluster_step G Cluster_init cs = fst (xsan_cluster_init G cs)"
| "cluster_step G Cluster_shutdown cs = xsan_cluster_shutdown cs"

section \<open>Facts\<close>

definition known_nodes :: "cluster_state \<Rightarrow> xsan_node list" where
  "known_nodes cs = take (unat (g_known_node_count cs)) (g_known_cluster_nodes cs)"

definition cluster_inv :: "cluster_state \<Rightarrow> bool" where
  "cluster_inv cs \<longleftrightarrow> length (g_known_cluster_nodes cs) = XSAN_INTERNAL_MAX_KNOWN_NODES \<and>
     unat (g_known_node_count cs) \<le> XSAN_INTERNAL_MAX_KNOWN_NODES"

lemma take_Suc_update: "n < length xs \<Longrightarrow> take (Suc n) (xs[n := x]) = take n xs @ [x]"
  by (simp add: take_Suc_conv_app_nth)

lemma add_seed_known:
  assumes "cluster_inv cs" "unat (g_known_node_count cs) < XSAN_INTERNAL_MAX_KNOWN_NODES"
  shows "cluster_inv (add_seed U n cs) \<and>
    known_nodes (add_seed U n cs) = known_nodes cs @ (if seed_valid U n then [n] else []) \<and>
    unat (g_known_node_count (add_seed U n cs)) \<le> Suc (unat (g_known_node_count cs))"
proof -
  have "unat (g_known_node_count cs + 1) = Suc (unat (g_known_node_count cs))"
    using assms(2) by (simp add: XSAN_INTERNAL_MAX_KNOWN_NODES_def unat_word_ariths)
  then show ?thesis
    using assms by (simp add: add_seed_def cluster_inv_def known_nodes_def take_Suc_update)
qed

lemma add_seeds_known:
  assumes "cluster_inv cs" "unat (g_known_node_count cs) + length seeds \<le> XSAN_INTERNAL_MAX_KNOWN_NODES"
  shows "cluster_inv (fold (add_seed U) seeds cs) \<and>
    known_nodes (fold (add_seed U) seeds cs) = known_nodes cs @ filter (seed_valid U) seeds"
  using assms
proof (induction seeds arbitrary: cs)
  case (Cons n seeds)
  have a: "cluster_inv (add_seed U n cs)"
    "known_nodes (add_seed U n cs) = known_nodes cs @ (if seed_valid U n then [n] else [])"
    "unat (g_known_node_count (add_seed U n cs)) \<le> Suc (unat (g_known_node_count cs))"
    using add_seed_known [of cs U n] Cons.prems by simp_all
  then show ?case using Cons.IH [of "add_seed U n cs"] Cons.prems by simp
qed simp

lemma load_seed_nodes_known:
  assumes "cluster_inv cs"
  shows "cluster_inv (load_seed_nodes U G cs) \<and>
    known_nodes (load_seed_nodes U G cs) =
      filter (seed_valid U) (take (min (unat (cfg_seed_node_count (g_cluster_config G)))
        XSAN_INTERNAL_MAX_KNOWN_NODES) (cfg_seed_nodes (g_cluster_config G)))"
proof -
  let ?seeds = "take (min (unat (cfg_seed_node_count (g_cluster_config G)))
    XSAN_INTERNAL_MAX_KNOWN_NODES) (cfg_seed_nodes (g_cluster_config G))"
  have "cluster_inv (cs\<lparr>g_known_node_count := 0\<rparr>)" using assms by (simp add: cluster_inv_def)
  then have "cluster_inv (fold (add_seed U) ?seeds (cs\<lparr>g_known_node_count := 0\<rparr>)) \<and>
    known_nodes (fold (add_seed U) ?seeds (cs\<lparr>g_known_node_count := 0\<rparr>)) =
      known_nodes (cs\<lparr>g_known_node_count := 0\<rparr>) @ filter (seed_valid U) ?seeds"
    by (rule add_seeds_known) simp
  then show ?thesis by (simp add: load_seed_nodes_def Let_def cluster_inv_def known_nodes_def)
qed

text \<open>As the module is written, no sequence of its calls makes a node known.\<close>

lemma cluster_never_knows_nodes:
  "g_known_node_count cs = 0 \<Longrightarrow> g_known_node_count (fold (cluster_step G) ops cs) = 0"
proof (induction ops arbitrary: cs)
  case (Cons op ops)
  have "g_known_node_count (cluster_step G op cs) = 0"
    using Cons.prems by (cases op) (simp_all add: xsan_cluster_init_def xsan_cluster_shutdown_def)
  then show ?case using Cons.IH by simp
qed simp

lemma get_all_known_nodes_result:
  "g_cluster_initialized cs \<Longrightarrow>
   xsan_cluster_get_all_known_nodes True cs True = (XSAN_OK, known_nodes cs)"
  by (simp add: xsan_cluster_get_all_known_nodes_def known_nodes_def)

end
