(* ===== verification/VolumeManager.thy ===== *)
theory VolumeManager
  imports Cluster
begin

text \<open>
  The volume manager of src/storage/volume\_manager.c: its state, creation and deletion of volumes with
  their metadata, the map from logical to physical blocks, the overall state of a volume, and loading
  at start.

  The list of volumes is its sequence of values; \<open>DList\<close> shows that the linked list implements it. The
  mutex is a flag, and locking it while it is held ends in \<open>Deadlock\<close>: it is created with default
  attributes and the code never unlocks it in between. The disk manager is a parameter: its
  source file breaks off in the middle, and the functions that the volume manager calls are declared
  but not defined; the same holds for \<^verbatim>\<open>xsan_volume_get_by_id\<close>, and for the code at a label that the creation
  jumps to (\<open>missing_cleanup\<close>). What a call gets from outside is in the
  record \<open>vm_env\<close>. A null manager is refused by every function before anything else, so the functions
  below take the manager itself.
\<close>

section \<open>State\<close>

record ('db, 'dm) xsan_volume_manager =
  managed_volumes :: "xsan_volume list"
  disk_manager :: 'dm
  vm_lock :: bool
  vm_initialized :: bool
  md_store :: "'db xsan_metadata_store ptr"

text \<open>The fields of a disk group and of a disk that the volume manager reads.\<close>

record xsan_disk_group =
  dg_state :: xsan_storage_state
  dg_disk_ids :: "uuid list"

record xsan_disk =
  disk_block_size_bytes :: u32
  disk_uuid :: uuid
  disk_bdev_name :: string
  bdev_descriptor :: bool

record ('db, 'it, 'dm) vm_env =
  rdb :: "('db, 'it) rocksdb"
  jc :: jsonc
  uu :: spdk_uuid
  find_disk_group_by_id :: "'dm \<Rightarrow> uuid \<Rightarrow> xsan_disk_group ptr"
  find_disk_by_id :: "'dm \<Rightarrow> uuid \<Rightarrow> xsan_disk ptr"
  allocate_extents :: "'dm \<Rightarrow> uuid \<Rightarrow> u64 \<Rightarrow> u32 \<Rightarrow> 'dm \<times> xsan_error \<times> xsan_volume_extent_mapping list ptr"
  free_extents :: "'dm \<Rightarrow> uuid \<Rightarrow> xsan_volume_extent_mapping list \<Rightarrow> 'dm \<times> xsan_error"
  volume_get_by_id :: "('db, 'dm) xsan_volume_manager \<Rightarrow> uuid \<Rightarrow> xsan_volume ptr"
  globals :: node_globals
  cluster :: cluster_state
  new_uuid :: uuid
  current_time_us :: u64
  volume_malloc_ok :: bool
  meta_malloc_ok :: bool
  meta_strdup_ok :: bool
  volume_strdup_ok :: bool
  nodes_malloc_ok :: bool
  list_append_ok :: bool
  value_malloc_ok :: bool
  iter_malloc_ok :: bool
  behind :: "string \<Rightarrow> string"
  missing_cleanup :: "uuid \<Rightarrow> xsan_volume_extent_mapping list \<Rightarrow> ('db, 'dm) xsan_volume_manager
     \<Rightarrow> ('db, 'dm) xsan_volume_manager"

section \<open>Locking\<close>

definition lock :: "('db, 'dm) xsan_volume_manager \<Rightarrow> ('db, 'dm) xsan_volume_manager run" where
  "lock vm = (if vm_lock vm then Deadlock else Done (vm\<lparr>vm_lock := True\<rparr>))"

definition unlock :: "('db, 'dm) xsan_volume_manager \<Rightarrow> ('db, 'dm) xsan_volume_manager" where
  "unlock vm = vm\<lparr>vm_lock := False\<rparr>"

section \<open>Keys\<close>

text \<open>\<^verbatim>\<open>snprintf\<close> into a buffer of \<^verbatim>\<open>XSAN_MAX_NAME_LEN + SPDK_UUID_STRING_LEN\<close> bytes.\<close>

definition volume_key :: "spdk_uuid \<Rightarrow> uuid \<Rightarrow> string" where
  "volume_key U u = take (XSAN_MAX_NAME_LEN + 37 - 1) (''v:'' @ spdk_uuid_get_string U u)"

definition alloc_key :: "spdk_uuid \<Rightarrow> uuid \<Rightarrow> string" where
  "alloc_key U u = take (XSAN_MAX_NAME_LEN + 37 - 1) (''volalloc:'' @ spdk_uuid_get_string U u)"

section \<open>Metadata of a volume\<close>

definition xsan_volume_manager_save_volume_meta ::
  "('db, 'it, 'dm) vm_env \<Rightarrow> ('db, 'dm) xsan_volume_manager \<Rightarrow> xsan_volume ptr
     \<Rightarrow> ('db, 'dm) xsan_volume_manager \<times> xsan_error" where
  "xsan_volume_manager_save_volume_meta E vm vol =
     (case (md_store vm, vol) of
        (Some _, Some v) \<Rightarrow>
          (case xsan_volume_to_json_string (jc E) (uu E) (volume_strdup_ok E) vol True of
             (err, json_string) \<Rightarrow>
               if err \<noteq> XSAN_OK then (vm, err)
               else
                 (case xsan_metadata_store_put (rdb E) (md_store vm) (Some (volume_key (uu E) (vol_id v))) json_string of
                    (store, err) \<Rightarrow> (vm\<lparr>md_store := store\<rparr>, err)))
      | _ \<Rightarrow> (vm, XSAN_ERROR_INVALID_PARAM))"

definition xsan_volume_manager_delete_volume_meta ::
  "('db, 'it, 'dm) vm_env \<Rightarrow> ('db, 'dm) xsan_volume_manager \<Rightarrow> uuid
     \<Rightarrow> ('db, 'dm) xsan_volume_manager \<times> xsan_error" where
  "xsan_volume_manager_delete_volume_meta E vm vid =
     (if md_store vm = NULL \<or> spdk_uuid_is_null (uu E) vid then (vm, XSAN_ERROR_INVALID_PARAM)
      else
        (case xsan_metadata_store_delete (rdb E) (md_store vm) (Some (volume_key (uu E) vid)) of
           (store, err) \<Rightarrow>
             (vm\<lparr>md_store := store\<rparr>, if err = XSAN_ERROR_NOT_FOUND then XSAN_OK else err)))"

text \<open>The state that the replicas of a volume give it, and its update; the volume is the element of the
  list at the place given.\<close>

definition overall_state :: "xsan_volume \<Rightarrow> xsan_storage_state run" where
  "overall_state vol =
     bind_run (read_first (actual_replica_count vol) (replica_nodes vol)) (\<lambda>rs.
       let online_replicas = (of_nat (length (filter (\<lambda>r. rl_state r = XSAN_STORAGE_STATE_ONLINE) rs)) :: u32);
           required_online_for_ok = FTT vol + 1;
           required_online_for_ok =
             (if required_online_for_ok > actual_replica_count vol \<and> actual_replica_count vol > 0
              then actual_replica_count vol else required_online_for_ok)
       in Done (if online_replicas \<ge> required_online_for_ok then XSAN_STORAGE_STATE_ONLINE
                else if online_replicas > 0 then XSAN_STORAGE_STATE_DEGRADED
                else XSAN_STORAGE_STATE_OFFLINE))"

definition xsan_volume_update_overall_state ::
  "('db, 'it, 'dm) vm_env \<Rightarrow> ('db, 'dm) xsan_volume_manager \<Rightarrow> nat ptr
     \<Rightarrow> ('db, 'dm) xsan_volume_manager run" where
  "xsan_volume_update_overall_state E vm vol =
     (case vol of
        NULL \<Rightarrow> Done vm
      | Some i \<Rightarrow>
          bind_run (lock vm) (\<lambda>vm.
          bind_run (overall_state (managed_volumes vm ! i)) (\<lambda>state.
            let old = vol_state (managed_volumes vm ! i);
                v = (managed_volumes vm ! i)\<lparr>vol_state := state\<rparr>;
                vm = unlock (vm\<lparr>managed_volumes := (managed_volumes vm)[i := v]\<rparr>)
            in if state \<noteq> old
               then Done (fst (xsan_volume_manager_save_volume_meta E vm (Some v)))
               else Done vm)))"

section \<open>Loading\<close>

text \<open>One entry of the database; its value is not terminated, so the parser sees what lies behind it.\<close>

definition load_entry ::
  "('db, 'it, 'dm) vm_env \<Rightarrow> ('db, 'dm) xsan_volume_manager \<Rightarrow> string ptr
     \<Rightarrow> ('db, 'dm) xsan_volume_manager run" where
  "load_entry E vm value_str =
     (case value_str of
        NULL \<Rightarrow> Done vm
      | Some s \<Rightarrow>
          (case xsan_json_string_to_volume (jc E) (uu E) (volume_malloc_ok E) (Some (s @ behind E s)) True of
             (deser_err, vol) \<Rightarrow>
               (case vol of
                  Some v \<Rightarrow>
                    if deser_err = XSAN_OK then
                      (if list_append_ok E then
                         xsan_volume_update_overall_state E
                           (vm\<lparr>managed_volumes := managed_volumes vm @ [v]\<rparr>)
                           (Some (length (managed_volumes vm)))
                       else Done vm)
                    else Done vm
                | NULL \<Rightarrow> Done vm)))"

text \<open>The loop over the iterator; \<^const>\<open>None\<close> is a loop that does not end.\<close>

partial_function (option) load_loop ::
  "('db, 'it, 'dm) vm_env \<Rightarrow> ('db, 'dm) xsan_volume_manager \<Rightarrow> 'it xsan_metadata_iterator ptr
     \<Rightarrow> ('db, 'dm) xsan_volume_manager run option" where
  "load_loop E vm iter =
     (if \<not> xsan_metadata_iterator_is_valid (rdb E) iter then Some (Done vm)
      else
        (case xsan_metadata_iterator_key (rdb E) iter of
           NULL \<Rightarrow> Some (Done vm)
         | Some key \<Rightarrow>
             if take 2 key \<noteq> ''v:'' then Some (Done vm)
             else
               (case load_entry E vm (xsan_metadata_iterator_value (rdb E) iter) of
                  Done vm' \<Rightarrow> load_loop E vm' (xsan_metadata_iterator_next (rdb E) iter)
                | Deadlock \<Rightarrow> Some Deadlock
                | Bad_access \<Rightarrow> Some Bad_access)))"

definition xsan_volume_manager_load_metadata ::
  "('db, 'it, 'dm) vm_env \<Rightarrow> ('db, 'dm) xsan_volume_manager
     \<Rightarrow> (('db, 'dm) xsan_volume_manager \<times> xsan_error) run option" where
  "xsan_volume_manager_load_metadata E vm =
     (if \<not> vm_initialized vm \<or> md_store vm = NULL then Some (Done (vm, XSAN_ERROR_INVALID_PARAM))
      else
        (case lock vm of
           Done vm \<Rightarrow>
             (case xsan_metadata_iterator_create (rdb E) (iter_malloc_ok E) (md_store vm) of
                NULL \<Rightarrow> Some (Done (unlock vm, XSAN_ERROR_STORAGE_GENERIC))
              | Some it \<Rightarrow>
                  map_option (\<lambda>r. bind_run r (\<lambda>vm. Done (unlock vm, XSAN_OK)))
                    (load_loop E vm (xsan_metadata_iterator_seek (rdb E) (Some it) (Some ''v:''))))
         | Deadlock \<Rightarrow> Some Deadlock
         | Bad_access \<Rightarrow> Some Bad_access))"

section \<open>Creation\<close>

definition new_volume ::
  "('db, 'it, 'dm) vm_env \<Rightarrow> string \<Rightarrow> u64 \<Rightarrow> uuid \<Rightarrow> u32 \<Rightarrow> bool \<Rightarrow> u32 \<Rightarrow> xsan_volume" where
  "new_volume E name req_size gid lbs thin ftt =
     (let blocks = (req_size + ucast lbs - 1) div ucast lbs;
          capped = ftt + 1 > of_nat XSAN_MAX_REPLICAS;
          count = (if capped then of_nat XSAN_MAX_REPLICAS else ftt + 1)
      in zero_volume\<lparr>vol_id := new_uuid E, vol_name := string_field XSAN_MAX_NAME_LEN (Some name),
           block_size_bytes := lbs, num_blocks := blocks, size_bytes := blocks * ucast lbs,
           source_group_id := gid, thin_provisioned := thin, allocated_bytes := 0,
           FTT := (if capped then (if count > 0 then count - 1 else 0) else ftt),
           actual_replica_count := count\<rparr>)"

definition set_local_replica ::
  "('db, 'it, 'dm) vm_env \<Rightarrow> uuid \<Rightarrow> string \<Rightarrow> u16 \<Rightarrow> xsan_volume \<Rightarrow> xsan_volume" where
  "set_local_replica E local_id ip port vol =
     vol\<lparr>replica_nodes := (replica_nodes vol)[0 := (replica_nodes vol ! 0)
       \<lparr>rl_node_id := local_id, node_ip_addr := string_field INET6_ADDRSTRLEN (Some ip),
        node_comm_port := port, rl_state := XSAN_STORAGE_STATE_ONLINE,
        last_successful_contact_time_us := current_time_us E\<rparr>]\<rparr>"

text \<open>The loop over the known nodes: the number of remote replicas assigned, and the array.\<close>

fun place_loop ::
  "spdk_uuid \<Rightarrow> uuid \<Rightarrow> u32 \<Rightarrow> xsan_node list \<Rightarrow> u32 \<Rightarrow> xsan_replica_location list
     \<Rightarrow> u32 \<times> xsan_replica_location list" where
  "place_loop U local_id ftt [] remote_assigned reps = (remote_assigned, reps)"
| "place_loop U local_id ftt (n # ns) remote_assigned reps =
     (if \<not> remote_assigned < ftt then (remote_assigned, reps)
      else if spdk_uuid_compare U (xn_id n) local_id \<noteq> 0 then
        (let repl_idx = remote_assigned + 1 in
         if repl_idx < of_nat XSAN_MAX_REPLICAS then
           place_loop U local_id ftt ns (remote_assigned + 1)
             (reps[unat repl_idx := (reps ! unat repl_idx)
               \<lparr>rl_node_id := xn_id n, node_ip_addr := string_field INET6_ADDRSTRLEN (Some (storage_ip n)),
                node_comm_port := storage_port n, rl_state := XSAN_STORAGE_STATE_INITIALIZING\<rparr>])
         else place_loop U local_id ftt ns remote_assigned reps)
      else place_loop U local_id ftt ns remote_assigned reps)"

definition place_replicas :: "('db, 'it, 'dm) vm_env \<Rightarrow> uuid \<Rightarrow> xsan_volume \<Rightarrow> xsan_volume" where
  "place_replicas E local_id vol =
     (if actual_replica_count vol > 1 then
        (case xsan_cluster_get_all_known_nodes (nodes_malloc_ok E) (cluster E) True of
           (err, nodes) \<Rightarrow>
             if err \<noteq> XSAN_OK then vol\<lparr>actual_replica_count := 1, FTT := 0\<rparr>
             else
               (case place_loop (uu E) local_id (FTT vol) nodes 0 (replica_nodes vol) of
                  (remote_assigned, reps) \<Rightarrow>
                    (let vol = vol\<lparr>replica_nodes := reps\<rparr> in
                     if remote_assigned < FTT vol
                     then vol\<lparr>actual_replica_count := remote_assigned + 1, FTT := remote_assigned\<rparr>
                     else vol)))
      else vol)"

text \<open>The extents of a thick volume; a thin volume has none.\<close>

definition allocate_volume ::
  "('db, 'it, 'dm) vm_env \<Rightarrow> ('db, 'dm) xsan_volume_manager \<Rightarrow> uuid \<Rightarrow> bool \<Rightarrow> xsan_volume
     \<Rightarrow> ('db, 'dm) xsan_volume_manager \<times> xsan_error \<times> xsan_volume_extent_mapping list \<times> xsan_volume" where
  "allocate_volume E vm gid thin vol =
     (if thin then (vm, XSAN_OK, [], vol)
      else
        (case allocate_extents E (disk_manager vm) gid (num_blocks vol) (block_size_bytes vol) of
           (dm, err, es) \<Rightarrow>
             (let vm = vm\<lparr>disk_manager := dm\<rparr> in
              if err \<noteq> XSAN_OK then (vm, err, [], vol)
              else
                (case es of
                   NULL \<Rightarrow> (vm, XSAN_ERROR_INTERNAL, [], vol)
                 | Some es \<Rightarrow>
                     if (of_nat (length es) :: u32) = 0 then (vm, XSAN_ERROR_INTERNAL, [], vol)
                     else (vm, XSAN_OK, take (unat (of_nat (length es) :: u32)) es,
                           vol\<lparr>allocated_bytes := size_bytes vol\<rparr>)))))"

definition new_alloc_meta ::
  "xsan_volume \<Rightarrow> uuid \<Rightarrow> xsan_volume_extent_mapping list \<Rightarrow> xsan_volume_allocation_meta" where
  "new_alloc_meta vol gid es =
     zero_alloc_meta\<lparr>volume_id := vol_id vol, disk_group_id := gid,
       total_volume_blocks_logical := num_blocks vol, volume_logical_block_size := block_size_bytes vol,
       num_extents := of_nat (length es),
       extents := es @ drop (length es) (extents zero_alloc_meta)\<rparr>"

definition initial_state :: "xsan_volume \<Rightarrow> xsan_storage_state" where
  "initial_state vol =
     (let online = (if rl_state (replica_nodes vol ! 0) = XSAN_STORAGE_STATE_ONLINE then 1 else 0 :: u32) in
      if actual_replica_count vol = 1 \<and> online = 1 then XSAN_STORAGE_STATE_ONLINE
      else if online \<ge> FTT vol + 1 then XSAN_STORAGE_STATE_ONLINE
      else if online > 0 then XSAN_STORAGE_STATE_DEGRADED
      else XSAN_STORAGE_STATE_OFFLINE)"

text \<open>The label \<^verbatim>\<open>cleanup_alloc_meta_extents_new_volume_unlock\<close>: whatever was allocated is given back.\<close>

definition give_back ::
  "('db, 'it, 'dm) vm_env \<Rightarrow> uuid \<Rightarrow> xsan_volume_extent_mapping list \<Rightarrow> ('db, 'dm) xsan_volume_manager
     \<Rightarrow> ('db, 'dm) xsan_volume_manager" where
  "give_back E gid es vm =
     (if es \<noteq> [] then vm\<lparr>disk_manager := fst (free_extents E (disk_manager vm) gid es)\<rparr> else vm)"

text \<open>From the metadata on: the two records are written, and the volume is added to the list. When the
  metadata cannot be allocated the code jumps to a label \<^verbatim>\<open>cleanup_extents_new_volume_unlock\<close> that it
  does not define: what would be done there is the parameter \<open>missing_cleanup\<close>, of which nothing is
  assumed.\<close>

definition record_volume ::
  "('db, 'it, 'dm) vm_env \<Rightarrow> ('db, 'dm) xsan_volume_manager \<Rightarrow> uuid \<Rightarrow> xsan_volume
     \<Rightarrow> xsan_volume_extent_mapping list \<Rightarrow> (('db, 'dm) xsan_volume_manager \<times> xsan_error \<times> uuid ptr) run" where
  "record_volume E vm gid vol es =
     (let key = alloc_key (uu E) (vol_id vol) in
      if \<not> meta_malloc_ok E then Done (missing_cleanup E gid es vm, XSAN_ERROR_OUT_OF_MEMORY, NULL)
      else if length es > XSAN_MAX_EXTENTS_PER_VOLUME then
        Done (give_back E gid es vm, XSAN_ERROR_TOO_MANY_EXTENTS, NULL)
      else
        bind_run (xsan_volume_allocation_meta_to_json_string (jc E) (uu E) (meta_strdup_ok E)
                    (Some (new_alloc_meta vol gid es)) True) (\<lambda>(err, json).
          if err \<noteq> XSAN_OK then Done (give_back E gid es vm, err, NULL)
          else
            (case xsan_metadata_store_put (rdb E) (md_store vm) (Some key) json of
               (store, err) \<Rightarrow>
                 (let vm = vm\<lparr>md_store := store\<rparr> in
                  if err \<noteq> XSAN_OK then Done (give_back E gid es vm, err, NULL)
                  else
                    (let vol = vol\<lparr>vol_state := initial_state vol\<rparr> in
                     case xsan_volume_manager_save_volume_meta E vm (Some vol) of
                       (vm, err) \<Rightarrow>
                         if err \<noteq> XSAN_OK then
                           (let vm = vm\<lparr>md_store := fst (xsan_metadata_store_delete (rdb E) (md_store vm) (Some key))\<rparr>
                            in Done (give_back E gid es vm, err, NULL))
                         else if \<not> list_append_ok E then
                           (let vm = vm\<lparr>md_store := fst (xsan_metadata_store_delete (rdb E) (md_store vm) (Some key))\<rparr>;
                                vm = fst (xsan_volume_manager_delete_volume_meta E vm (vol_id vol))
                            in Done (give_back E gid es vm, XSAN_ERROR_OUT_OF_MEMORY, NULL))
                         else
                           Done (vm\<lparr>managed_volumes := managed_volumes vm @ [vol]\<rparr>, XSAN_OK,
                                 Some (vol_id vol)))))))"

definition create_locked ::
  "('db, 'it, 'dm) vm_env \<Rightarrow> ('db, 'dm) xsan_volume_manager \<Rightarrow> string \<Rightarrow> u64 \<Rightarrow> uuid \<Rightarrow> u32 \<Rightarrow> bool \<Rightarrow> u32
     \<Rightarrow> (('db, 'dm) xsan_volume_manager \<times> xsan_error \<times> uuid ptr) run" where
  "create_locked E vm name req_size gid lbs thin ftt =
     (if list_ex (\<lambda>v. take XSAN_MAX_NAME_LEN (vol_name v) = take XSAN_MAX_NAME_LEN name) (managed_volumes vm)
      then Done (vm, XSAN_ERROR_ALREADY_EXISTS, NULL)
      else
        (case find_disk_group_by_id E (disk_manager vm) gid of
           NULL \<Rightarrow> Done (vm, XSAN_ERROR_NOT_FOUND, NULL)
         | Some dg \<Rightarrow>
             if dg_state dg \<noteq> XSAN_STORAGE_STATE_ONLINE then Done (vm, XSAN_ERROR_RESOURCE_UNAVAILABLE, NULL)
             else if \<not> volume_malloc_ok E then Done (vm, XSAN_ERROR_OUT_OF_MEMORY, NULL)
             else
               (case xsan_get_local_node_info (uu E) (globals E) True INET6_ADDRSTRLEN of
                  (err, local_id, ip, port) \<Rightarrow>
                    if err \<noteq> XSAN_OK then Done (vm, err, NULL)
                    else
                      (let vol = place_replicas E local_id (set_local_replica E local_id ip port
                             (new_volume E name req_size gid lbs thin ftt))
                       in case allocate_volume E vm gid thin vol of
                            (vm, err, es, vol) \<Rightarrow>
                              if err \<noteq> XSAN_OK then Done (vm, err, NULL)
                              else record_volume E vm gid vol es))))"

definition xsan_volume_create ::
  "('db, 'it, 'dm) vm_env \<Rightarrow> ('db, 'dm) xsan_volume_manager \<Rightarrow> string ptr \<Rightarrow> u64 \<Rightarrow> uuid \<Rightarrow> u32 \<Rightarrow> bool \<Rightarrow> u32
     \<Rightarrow> (('db, 'dm) xsan_volume_manager \<times> xsan_error \<times> uuid ptr) run" where
  "xsan_volume_create E vm name req_size gid lbs thin ftt =
     (case name of
        NULL \<Rightarrow> Done (vm, XSAN_ERROR_INVALID_PARAM, NULL)
      | Some n \<Rightarrow>
          if \<not> vm_initialized vm \<or> req_size = 0 \<or> spdk_uuid_is_null (uu E) gid \<or>
             (lbs \<noteq> 512 \<and> lbs \<noteq> 4096) \<or> ftt \<ge> of_nat XSAN_MAX_REPLICAS
          then Done (vm, XSAN_ERROR_INVALID_PARAM, NULL)
          else
            bind_run (lock vm) (\<lambda>vm.
            bind_run (create_locked E vm n req_size gid lbs thin ftt) (\<lambda>(vm, err, out).
              Done (unlock vm, err, out))))"

section \<open>Deletion\<close>

text \<open>The metadata that says which extents the volume has, if it can be had.\<close>

definition fetch_alloc_meta ::
  "('db, 'it, 'dm) vm_env \<Rightarrow> ('db, 'dm) xsan_volume_manager \<Rightarrow> uuid \<Rightarrow> xsan_volume_allocation_meta ptr" where
  "fetch_alloc_meta E vm vid =
     (case xsan_metadata_store_get (rdb E) (value_malloc_ok E) (md_store vm) (Some (alloc_key (uu E) vid)) True of
        (err, json) \<Rightarrow>
          if err = XSAN_OK \<and> json \<noteq> NULL then
            (case xsan_json_string_to_volume_allocation_meta (jc E) (uu E) (meta_malloc_ok E) json True of
               (err, m) \<Rightarrow> if err \<noteq> XSAN_OK then NULL else m)
          else NULL)"

definition delete_found ::
  "('db, 'it, 'dm) vm_env \<Rightarrow> ('db, 'dm) xsan_volume_manager \<Rightarrow> uuid \<Rightarrow> nat
     \<Rightarrow> (('db, 'dm) xsan_volume_manager \<times> xsan_error) run" where
  "delete_found E vm vid i =
     bind_run (case fetch_alloc_meta E vm vid of
          NULL \<Rightarrow> Done vm
        | Some m \<Rightarrow>
            if num_extents m > 0 then
              bind_run (read_first (num_extents m) (extents m)) (\<lambda>es.
                Done (vm\<lparr>disk_manager := fst (free_extents E (disk_manager vm) (disk_group_id m) es)\<rparr>))
            else Done vm) (\<lambda>vm.
       let vm = vm\<lparr>md_store := fst (xsan_metadata_store_delete (rdb E) (md_store vm) (Some (alloc_key (uu E) vid)))\<rparr>;
           vm = fst (xsan_volume_manager_delete_volume_meta E vm vid)
       in Done (vm\<lparr>managed_volumes := take i (managed_volumes vm) @ drop (Suc i) (managed_volumes vm)\<rparr>, XSAN_OK))"

text \<open>The place of the first volume with the identifier.\<close>

fun find_volume :: "spdk_uuid \<Rightarrow> uuid \<Rightarrow> xsan_volume list \<Rightarrow> nat option" where
  "find_volume U vid [] = None"
| "find_volume U vid (v # vs) =
     (if spdk_uuid_compare U (vol_id v) vid = 0 then Some 0 else map_option Suc (find_volume U vid vs))"

definition xsan_volume_delete ::
  "('db, 'it, 'dm) vm_env \<Rightarrow> ('db, 'dm) xsan_volume_manager \<Rightarrow> uuid
     \<Rightarrow> (('db, 'dm) xsan_volume_manager \<times> xsan_error) run" where
  "xsan_volume_delete E vm vid =
     (if \<not> vm_initialized vm \<or> spdk_uuid_is_null (uu E) vid then Done (vm, XSAN_ERROR_INVALID_PARAM)
      else
        bind_run (lock vm) (\<lambda>vm.
          case find_volume (uu E) vid (managed_volumes vm) of
            None \<Rightarrow> Done (unlock vm, XSAN_ERROR_NOT_FOUND)
          | Some i \<Rightarrow> bind_run (delete_found E vm vid i) (\<lambda>(vm, err). Done (unlock vm, err))))"

section \<open>From logical to physical blocks\<close>

text \<open>The blocks of the volume that an extent on a disk holds, in the arithmetic of 64 bits.\<close>

definition extent_bytes :: "xsan_volume_extent_mapping \<Rightarrow> xsan_disk \<Rightarrow> u64" where
  "extent_bytes e d = num_blocks_on_disk e * ucast (disk_block_size_bytes d)"

definition extent_volume_blocks :: "xsan_volume_extent_mapping \<Rightarrow> xsan_disk \<Rightarrow> u32 \<Rightarrow> u64" where
  "extent_volume_blocks e d lbs = extent_bytes e d div ucast lbs"

definition map_in_extent ::
  "u32 \<Rightarrow> u64 \<Rightarrow> xsan_volume_extent_mapping \<Rightarrow> xsan_disk \<Rightarrow> xsan_error + uuid \<times> u64 \<times> u32" where
  "map_in_extent lbs lba e d =
     (let offset_bytes = (lba - volume_start_lba e) * ucast lbs in
      if offset_bytes + ucast lbs > extent_bytes e d \<and> offset_bytes < extent_bytes e d
      then Inl XSAN_ERROR_INTERNAL
      else Inr (disk_id e, start_block_on_disk e + offset_bytes div ucast (disk_block_size_bytes d),
                disk_block_size_bytes d))"

text \<open>The loop over the extents; \<^const>\<open>None\<close> when no extent holds the block.\<close>

fun scan_extents ::
  "('db, 'it, 'dm) vm_env \<Rightarrow> 'dm \<Rightarrow> u32 \<Rightarrow> u64 \<Rightarrow> xsan_volume_extent_mapping list
     \<Rightarrow> (xsan_error + uuid \<times> u64 \<times> u32) option" where
  "scan_extents E dm lbs lba [] = None"
| "scan_extents E dm lbs lba (e # es) =
     (case find_disk_by_id E dm (disk_id e) of
        NULL \<Rightarrow> scan_extents E dm lbs lba es
      | Some d \<Rightarrow>
          if disk_block_size_bytes d = 0 then scan_extents E dm lbs lba es
          else if lba \<ge> volume_start_lba e \<and> lba < volume_start_lba e + extent_volume_blocks e d lbs
          then Some (map_in_extent lbs lba e d)
          else scan_extents E dm lbs lba es)"

definition map_with_meta ::
  "('db, 'it, 'dm) vm_env \<Rightarrow> 'dm \<Rightarrow> u64 \<Rightarrow> xsan_volume_allocation_meta
     \<Rightarrow> (xsan_error + uuid \<times> u64 \<times> u32) run" where
  "map_with_meta E dm lba m =
     (if volume_logical_block_size m = 0 then Done (Inl XSAN_ERROR_STORAGE_GENERIC)
      else if num_extents m = 0 then Done (Inl XSAN_ERROR_UNMAPPED_LBA)
      else
        (case scan_extents E dm (volume_logical_block_size m) lba (take (unat (num_extents m)) (extents m)) of
           Some r \<Rightarrow> Done r
         | None \<Rightarrow>
             if unat (num_extents m) > length (extents m) then Bad_access
             else Done (Inl XSAN_ERROR_UNMAPPED_LBA)))"

definition xsan_volume_map_lba_to_physical ::
  "('db, 'it, 'dm) vm_env \<Rightarrow> ('db, 'dm) xsan_volume_manager \<Rightarrow> uuid \<Rightarrow> u64 \<Rightarrow> bool
     \<Rightarrow> (xsan_error + uuid \<times> u64 \<times> u32) run" where
  "xsan_volume_map_lba_to_physical E vm vid lba outs =
     (if \<not> vm_initialized vm \<or> spdk_uuid_is_null (uu E) vid \<or> \<not> outs then Done (Inl XSAN_ERROR_INVALID_PARAM)
      else
        (case volume_get_by_id E vm vid of
           NULL \<Rightarrow> Done (Inl XSAN_ERROR_NOT_FOUND)
         | Some vol \<Rightarrow>
             if lba \<ge> num_blocks vol then Done (Inl XSAN_ERROR_OUT_OF_BOUNDS)
             else
               (case xsan_metadata_store_get (rdb E) (value_malloc_ok E) (md_store vm)
                       (Some (alloc_key (uu E) vid)) True of
                  (err, json) \<Rightarrow>
                    if err \<noteq> XSAN_OK then
                      Done (Inl (if err = XSAN_ERROR_NOT_FOUND then XSAN_ERROR_UNMAPPED_LBA else err))
                    else
                      (case xsan_json_string_to_volume_allocation_meta (jc E) (uu E) (meta_malloc_ok E) json True of
                         (err, meta) \<Rightarrow>
                           (case meta of
                              NULL \<Rightarrow> Done (Inl XSAN_ERROR_STORAGE_GENERIC)
                            | Some m \<Rightarrow>
                                if err \<noteq> XSAN_OK then Done (Inl XSAN_ERROR_STORAGE_GENERIC)
                                else map_with_meta E (disk_manager vm) lba m)))))"

section \<open>Start and end\<close>

text \<open>The calls that can fail while the manager is created; the variable for the instance and the
  result are \<^const>\<open>None\<close> when they hold a null pointer.\<close>

record init_env =
  vm_malloc_ok :: bool
  vm_list_ok :: bool
  vm_mutexes_ok :: bool
  pending_ios_table_ok :: bool
  pending_reads_table_ok :: bool
  vm_store_env :: store_env

definition xsan_volume_manager_init ::
  "('db, 'it, 'dm) vm_env \<Rightarrow> init_env \<Rightarrow> ('db, 'dm) xsan_volume_manager ptr \<Rightarrow> 'dm ptr
     \<Rightarrow> (('db, 'dm) xsan_volume_manager ptr \<times> xsan_error) run option" where
  "xsan_volume_manager_init E I instnc dm =
     (case instnc of
        Some vm \<Rightarrow> Some (Done (instnc, XSAN_OK))
      | NULL \<Rightarrow>
          (case dm of
             NULL \<Rightarrow> Some (Done (NULL, XSAN_ERROR_INVALID_PARAM))
           | Some d \<Rightarrow>
               if \<not> vm_malloc_ok I then Some (Done (NULL, XSAN_ERROR_OUT_OF_MEMORY))
               else if \<not> vm_list_ok I \<or> \<not> vm_mutexes_ok I then Some (Done (NULL, XSAN_ERROR_SYSTEM))
               else if \<not> pending_ios_table_ok I then Some (Done (NULL, XSAN_ERROR_OUT_OF_MEMORY))
               else if \<not> pending_reads_table_ok I then Some (Done (NULL, XSAN_ERROR_OUT_OF_MEMORY))
               else
                 (case fst (xsan_metadata_store_open (rdb E) (vm_store_env I)
                              (Some ''./xsan_meta_db/volume_manager'') True) of
                    NULL \<Rightarrow> Some (Done (NULL, XSAN_ERROR_STORAGE_GENERIC))
                  | Some store \<Rightarrow>
                      map_option (\<lambda>r. bind_run r (\<lambda>(vm, _). Done (Some vm, XSAN_OK)))
                        (xsan_volume_manager_load_metadata E
                           \<lparr>managed_volumes = [], disk_manager = d, vm_lock = False,
                            vm_initialized = True, md_store = Some store\<rparr>))))"

text \<open>The end of the one instance: the volumes that are destroyed and the calls that close the store.\<close>

definition xsan_volume_manager_fini ::
  "('db, 'dm) xsan_volume_manager ptr
     \<Rightarrow> (('db, 'dm) xsan_volume_manager ptr \<times> xsan_volume list \<times> store_resource resource_call list) run" where
  "xsan_volume_manager_fini instnc =
     (case instnc of
        NULL \<Rightarrow> Done (NULL, [], [])
      | Some vm \<Rightarrow>
          if \<not> vm_initialized vm then Done (NULL, [], [])
          else bind_run (lock vm) (\<lambda>vm. Done (NULL, managed_volumes vm, xsan_metadata_store_close (md_store vm))))"

end
