(* ===== verification/VolumeProps.thy ===== *)
theory VolumeProps
  imports VolumeManager
begin

text \<open>
  What the volume manager guarantees: the facts on its helpers, then its properties. RocksDB may report an
  error for any call; what is then left in the database is part of the statements.
\<close>

section \<open>Keys\<close>

lemma volume_key_eq: "uuid_ok U \<Longrightarrow> volume_key U u = ''v:'' @ spdk_uuid_get_string U u"
  by (simp add: volume_key_def uuid_ok_def XSAN_MAX_NAME_LEN_def le_trans [of _ 36])

lemma alloc_key_eq: "uuid_ok U \<Longrightarrow> alloc_key U u = ''volalloc:'' @ spdk_uuid_get_string U u"
  by (simp add: alloc_key_def uuid_ok_def XSAN_MAX_NAME_LEN_def le_trans [of _ 36])

lemma keys_distinct: "uuid_ok U \<Longrightarrow> volume_key U u \<noteq> alloc_key U v"
  by (simp add: volume_key_eq alloc_key_eq)

lemma keys_not_Nil: "uuid_ok U \<Longrightarrow> volume_key U u \<noteq> []" "uuid_ok U \<Longrightarrow> alloc_key U u \<noteq> []"
  by (simp_all add: volume_key_eq alloc_key_eq)

lemma volume_key_inj: "uuid_ok U \<Longrightarrow> volume_key U u = volume_key U v \<longleftrightarrow> u = v"
  by (auto simp: volume_key_eq uuid_ok_def dest: injD)

lemma alloc_key_inj: "uuid_ok U \<Longrightarrow> alloc_key U u = alloc_key U v \<longleftrightarrow> u = v"
  by (auto simp: alloc_key_eq uuid_ok_def dest: injD)

section \<open>Locks\<close>

lemma lock_free: "\<not> vm_lock vm \<Longrightarrow> lock vm = Done (vm\<lparr>vm_lock := True\<rparr>)"
  by (simp add: lock_def)

lemma lock_held: "vm_lock vm \<Longrightarrow> lock vm = Deadlock"
  by (simp add: lock_def)

lemma unlock_simps [simp]:
  "managed_volumes (unlock vm) = managed_volumes vm"
  "disk_manager (unlock vm) = disk_manager vm"
  "md_store (unlock vm) = md_store vm"
  "vm_initialized (unlock vm) = vm_initialized vm"
  "\<not> vm_lock (unlock vm)"
  by (simp_all add: unlock_def)

section \<open>Placing replicas\<close>

text \<open>What the loop keeps: the local replica in front, remote replicas on other nodes, and the rest of
  the array as it was.\<close>

definition placed :: "uuid \<Rightarrow> u32 \<Rightarrow> xsan_replica_location list \<Rightarrow> bool" where
  "placed local_id n reps \<longleftrightarrow>
     length reps = XSAN_MAX_REPLICAS \<and> unat n < XSAN_MAX_REPLICAS \<and>
     (\<forall>i. 0 < i \<and> i \<le> unat n \<longrightarrow> rl_node_id (reps ! i) \<noteq> local_id) \<and>
     (\<forall>r\<in>set reps. NUL \<notin> set (node_ip_addr r) \<and> length (node_ip_addr r) < INET6_ADDRSTRLEN) \<and>
     (\<forall>i. unat n < i \<and> i < length reps \<longrightarrow> reps ! i = zero_replica)"

lemma placed_step:
  assumes "placed local_id n reps" "n + 1 < 3" "rl_node_id r \<noteq> local_id"
    "NUL \<notin> set (node_ip_addr r)" "length (node_ip_addr r) < INET6_ADDRSTRLEN"
  shows "placed local_id (n + 1) (reps[unat (n + 1) := r])"
proof -
  have n: "unat (n + 1) = Suc (unat n)" "unat n < 2"
    using assms(1,2) by (auto simp: placed_def XSAN_MAX_REPLICAS_def unat_word_ariths word_less_nat_alt)
  show ?thesis
    using assms n
    by (auto simp: placed_def XSAN_MAX_REPLICAS_def nth_list_update le_Suc_eq
        dest!: set_update_subset_insert [THEN subsetD])
qed

lemma place_loop_placed:
  assumes U: "uuid_ok U" and start: "placed local_id n reps" "n \<le> ftt" "ftt < 3"
    and res: "place_loop U local_id ftt ns n reps = (n', reps')"
  shows "placed local_id n' reps' \<and> n' \<le> ftt \<and> reps' ! 0 = reps ! 0"
  using start res
proof (induction ns arbitrary: n reps)
  case (Cons nd ns)
  show ?case
  proof (cases "n < ftt \<and> xn_id nd \<noteq> local_id")
    case True
    define r where "r = (reps ! unat (n + 1))
      \<lparr>rl_node_id := xn_id nd, node_ip_addr := string_field INET6_ADDRSTRLEN (Some (storage_ip nd)),
       node_comm_port := storage_port nd, rl_state := XSAN_STORAGE_STATE_INITIALIZING\<rparr>"
    have lt: "n + 1 < 3" "n + 1 \<le> ftt" "unat (n + 1) \<noteq> 0"
      using True Cons.prems(3) by (auto simp: word_less_nat_alt word_le_nat_alt unat_word_ariths)
    have "placed local_id (n + 1) (reps[unat (n + 1) := r])"
      using Cons.prems(1) lt(1) True string_field_bounds [of INET6_ADDRSTRLEN "Some (storage_ip nd)"]
      by (intro placed_step) (auto simp: r_def INET6_ADDRSTRLEN_def)
    moreover have "place_loop U local_id ftt ns (n + 1) (reps[unat (n + 1) := r]) = (n', reps')"
      using Cons.prems(4) True lt(1) U by (simp add: r_def uuid_ok_def XSAN_MAX_REPLICAS_def Let_def)
    ultimately show ?thesis
      using Cons.IH [of "n + 1" "reps[unat (n + 1) := r]"] lt Cons.prems(3) by simp
  next
    case False
    then show ?thesis
      using Cons.IH [of n reps] Cons.prems U by (auto simp: uuid_ok_def split: if_splits)
  qed
qed simp

text \<open>The volume that creation builds before it allocates anything.\<close>

definition built_volume ::
  "('db, 'it, 'dm) vm_env \<Rightarrow> uuid \<Rightarrow> string \<Rightarrow> u16 \<Rightarrow> string \<Rightarrow> u64 \<Rightarrow> uuid \<Rightarrow> u32 \<Rightarrow> bool \<Rightarrow> u32 \<Rightarrow> xsan_volume" where
  "built_volume E local_id ip port name req_size gid lbs thin ftt =
     place_replicas E local_id (set_local_replica E local_id ip port
       (new_volume E name req_size gid lbs thin ftt))"

definition volume_request :: "xsan_volume \<Rightarrow> uuid \<Rightarrow> string \<Rightarrow> u64 \<Rightarrow> uuid \<Rightarrow> u32 \<Rightarrow> bool \<Rightarrow> bool" where
  "volume_request vol vid name req_size gid lbs thin \<longleftrightarrow>
     vol_id vol = vid \<and> vol_name vol = take (XSAN_MAX_NAME_LEN - 1) name \<and>
     block_size_bytes vol = lbs \<and> num_blocks vol = (req_size + ucast lbs - 1) div ucast lbs \<and>
     size_bytes vol = num_blocks vol * ucast lbs \<and> source_group_id vol = gid \<and>
     thin_provisioned vol = thin"

definition replicas_ok :: "xsan_volume \<Rightarrow> uuid \<Rightarrow> u32 \<Rightarrow> bool" where
  "replicas_ok vol local_id ftt \<longleftrightarrow>
     actual_replica_count vol = FTT vol + 1 \<and> FTT vol \<le> ftt \<and> unat (actual_replica_count vol) \<le> XSAN_MAX_REPLICAS \<and>
     rl_node_id (replica_nodes vol ! 0) = local_id \<and> rl_state (replica_nodes vol ! 0) = XSAN_STORAGE_STATE_ONLINE \<and>
     (\<forall>i. 0 < i \<and> i < unat (actual_replica_count vol) \<longrightarrow> rl_node_id (replica_nodes vol ! i) \<noteq> local_id)"

lemma new_volume_replicas:
  assumes "ftt < 3"
  shows "actual_replica_count (new_volume E name req_size gid lbs thin ftt) = ftt + 1"
    "FTT (new_volume E name req_size gid lbs thin ftt) = ftt"
    "replica_nodes (new_volume E name req_size gid lbs thin ftt) = replicate 3 zero_replica"
proof -
  have "\<not> ftt + 1 > 3" using assms by (auto simp: word_less_nat_alt unat_word_ariths)
  then show "actual_replica_count (new_volume E name req_size gid lbs thin ftt) = ftt + 1"
    "FTT (new_volume E name req_size gid lbs thin ftt) = ftt"
    "replica_nodes (new_volume E name req_size gid lbs thin ftt) = replicate 3 zero_replica"
    by (simp_all add: new_volume_def Let_def zero_volume_def XSAN_MAX_REPLICAS_def)
qed

lemma local_placed:
  assumes "ftt < 3"
    and vol: "vol = set_local_replica E local_id ip port (new_volume E name req_size gid lbs thin ftt)"
  shows "placed local_id 0 (replica_nodes vol)"
    and "rl_node_id (replica_nodes vol ! 0) = local_id"
    and "rl_state (replica_nodes vol ! 0) = XSAN_STORAGE_STATE_ONLINE"
    and "actual_replica_count vol = ftt + 1" and "FTT vol = ftt"
proof -
  have r: "replica_nodes vol = (replicate 3 zero_replica)[0 := zero_replica
       \<lparr>rl_node_id := local_id, node_ip_addr := string_field INET6_ADDRSTRLEN (Some ip),
        node_comm_port := port, rl_state := XSAN_STORAGE_STATE_ONLINE,
        last_successful_contact_time_us := current_time_us E\<rparr>]"
    by (simp add: vol set_local_replica_def new_volume_replicas [OF assms(1)])
  show "placed local_id 0 (replica_nodes vol)"
    using string_field_bounds [of INET6_ADDRSTRLEN "Some ip"]
    by (auto simp: r placed_def XSAN_MAX_REPLICAS_def INET6_ADDRSTRLEN_def zero_replica_def
        nth_list_update dest!: set_update_subset_insert [THEN subsetD])
  show "rl_node_id (replica_nodes vol ! 0) = local_id"
    "rl_state (replica_nodes vol ! 0) = XSAN_STORAGE_STATE_ONLINE"
    by (simp_all add: r)
  show "actual_replica_count vol = ftt + 1" "FTT vol = ftt"
    by (simp_all add: vol set_local_replica_def new_volume_replicas [OF assms(1)])
qed

text \<open>Placing the replicas changes the replica fields only, and leaves as many replicas as it counts.\<close>

lemma place_replicas_other [simp]:
  "vol_id (place_replicas E local_id vol) = vol_id vol"
  "vol_name (place_replicas E local_id vol) = vol_name vol"
  "size_bytes (place_replicas E local_id vol) = size_bytes vol"
  "block_size_bytes (place_replicas E local_id vol) = block_size_bytes vol"
  "num_blocks (place_replicas E local_id vol) = num_blocks vol"
  "source_group_id (place_replicas E local_id vol) = source_group_id vol"
  "thin_provisioned (place_replicas E local_id vol) = thin_provisioned vol"
  by (simp_all add: place_replicas_def Let_def split: prod.splits)

lemma place_replicas_placed:
  assumes U: "uuid_ok (uu E)" and vol: "placed local_id 0 (replica_nodes vol)"
    "actual_replica_count vol = FTT vol + 1" "FTT vol < 3"
    and p: "p = place_replicas E local_id vol"
  shows "\<exists>n. placed local_id n (replica_nodes p) \<and> FTT p \<le> n \<and> actual_replica_count p = FTT p + 1 \<and>
    FTT p \<le> FTT vol \<and> replica_nodes p ! 0 = replica_nodes vol ! 0 \<and>
    (\<forall>i. unat (FTT p) < i \<and> i < 3 \<longrightarrow> replica_nodes p ! i = zero_replica)"
proof (cases "actual_replica_count vol > 1")
  case False
  then have "FTT vol = 0" using vol(2,3) by (auto simp: word_less_nat_alt unat_word_ariths word_unat_eq_iff)
  then show ?thesis
    using False vol by (intro exI [of _ 0]) (auto simp: p place_replicas_def placed_def XSAN_MAX_REPLICAS_def)
next
  case True
  obtain err nodes where k: "xsan_cluster_get_all_known_nodes (nodes_malloc_ok E) (cluster E) True = (err, nodes)"
    by force
  obtain n reps where l: "place_loop (uu E) local_id (FTT vol) nodes 0 (replica_nodes vol) = (n, reps)" by force
  have pl: "placed local_id n reps" "n \<le> FTT vol" "reps ! 0 = replica_nodes vol ! 0"
    using place_loop_placed [OF U vol(1) _ vol(3) l] by simp_all
  show ?thesis
  proof (cases "err = XSAN_OK")
    case False
    then show ?thesis
      using True k vol by (intro exI [of _ 0])
        (auto simp: p place_replicas_def placed_def XSAN_MAX_REPLICAS_def)
  next
    case ok: True
    have "FTT p = n \<and> actual_replica_count p = n + 1 \<and> replica_nodes p = reps"
      using True k l ok vol(2) pl(2)
      by (auto simp: p place_replicas_def Let_def split: if_splits)
    then show ?thesis
      using pl by (intro exI [of _ n]) (auto simp: placed_def XSAN_MAX_REPLICAS_def)
  qed
qed

lemma built_volume_ok:
  assumes U: "uuid_ok (uu E)" and ftt: "ftt < 3" and name: "NUL \<notin> set name"
    and vol: "vol = built_volume E local_id ip port name req_size gid lbs thin ftt"
  shows "volume_wf vol \<and> volume_request vol (new_uuid E) name req_size gid lbs thin \<and> replicas_ok vol local_id ftt"
proof -
  define v0 where "v0 = set_local_replica E local_id ip port (new_volume E name req_size gid lbs thin ftt)"
  have l: "placed local_id 0 (replica_nodes v0)" "rl_node_id (replica_nodes v0 ! 0) = local_id"
    "rl_state (replica_nodes v0 ! 0) = XSAN_STORAGE_STATE_ONLINE"
    "actual_replica_count v0 = ftt + 1" "FTT v0 = ftt"
    using local_placed [OF ftt v0_def] by blast+
  have v: "vol = place_replicas E local_id v0" by (simp add: vol built_volume_def v0_def)
  obtain n where n: "placed local_id n (replica_nodes vol)" "FTT vol \<le> n"
    "actual_replica_count vol = FTT vol + 1" "FTT vol \<le> ftt"
    "replica_nodes vol ! 0 = replica_nodes v0 ! 0"
    "\<forall>i. unat (FTT vol) < i \<and> i < 3 \<longrightarrow> replica_nodes vol ! i = zero_replica"
    using place_replicas_placed [OF U l(1) _ _ v] l(4,5) ftt by auto
  have c: "unat (actual_replica_count vol) = Suc (unat (FTT vol))" "unat (FTT vol) < 3"
    using n(3,4) ftt by (auto simp: word_le_nat_alt word_less_nat_alt unat_word_ariths)
  have "string_field XSAN_MAX_NAME_LEN (Some name) = take (XSAN_MAX_NAME_LEN - 1) name"
    using name by (simp add: string_field_eq XSAN_MAX_NAME_LEN_def)
  then have req: "volume_request vol (new_uuid E) name req_size gid lbs thin"
    by (simp add: v v0_def volume_request_def set_local_replica_def new_volume_def Let_def)
  have "drop (unat (actual_replica_count vol)) (replica_nodes vol) =
      replicate (3 - unat (actual_replica_count vol)) zero_replica"
    using n(1,6) c by (intro nth_equalityI) (auto simp: placed_def XSAN_MAX_REPLICAS_def)
  then have "volume_wf vol"
    using n(1) c req name
    by (auto simp: volume_wf_def placed_def XSAN_MAX_REPLICAS_def volume_request_def XSAN_MAX_NAME_LEN_def
        dest: in_set_takeD)
  moreover have "replicas_ok vol local_id ftt"
    using n c l by (auto simp: replicas_ok_def placed_def XSAN_MAX_REPLICAS_def word_le_nat_alt)
  ultimately show ?thesis using req by simp
qed

section \<open>Writing the metadata\<close>

text \<open>RocksDB may report an error for a write or a delete of a key.\<close>

definition put_can_fail :: "('db, 'it) rocksdb \<Rightarrow> string \<Rightarrow> bool" where
  "put_can_fail R k \<longleftrightarrow> (\<exists>db v. snd (rocksdb_put R db k v) \<noteq> NULL)"

definition delete_can_fail :: "('db, 'it) rocksdb \<Rightarrow> string \<Rightarrow> bool" where
  "delete_can_fail R k \<longleftrightarrow> (\<exists>db. snd (rocksdb_delete R db k) \<noteq> NULL)"

lemma put_failed:
  assumes "rocksdb_ok R W" "xsan_metadata_store_put R store (Some k) (Some v) = (store', e)" "e \<noteq> XSAN_OK"
  shows "store_map W store' k' = store_map W store k' \<or> k' = k \<and> e = XSAN_ERROR_IO \<and> put_can_fail R k"
proof (cases "store_opened store \<and> k \<noteq> [] \<and> k' = k")
  case True
  then obtain s db where s: "store = Some s" "db_handle s = Some db" by (auto elim: store_openedE)
  then have "snd (rocksdb_put R db k v) \<noteq> NULL" "e = XSAN_ERROR_IO"
    using assms(2,3) True by (auto simp: xsan_metadata_store_put_def split: prod.splits if_splits)
  then show ?thesis using True unfolding put_can_fail_def by blast
next
  case False
  then show ?thesis
    using assms(2) put_frame [OF assms(1), of k' k store "Some v"]
    by (auto simp: xsan_metadata_store_put_def store_opened_def split: option.splits if_splits)
qed

lemma delete_done:
  assumes "rocksdb_ok R W" "Option.bind store db_handle = Some db" "k \<noteq> []" "snd (rocksdb_delete R db k) = NULL"
  shows "store_map W (fst (xsan_metadata_store_delete R store (Some k))) = (store_map W store)(k := None)"
proof (rule delete_ok [OF assms(1)])
  show "snd (xsan_metadata_store_delete R store (Some k)) = XSAN_OK"
    using assms(2-4) by (cases store; cases "rocksdb_delete R db k") (auto simp: xsan_metadata_store_delete_def)
qed

lemma delete_leaves:
  assumes "rocksdb_ok R W" "store_opened store" "k \<noteq> []"
  shows "store_map W (fst (xsan_metadata_store_delete R store (Some k))) k' =
      ((store_map W store)(k := None)) k' \<or> k' = k \<and> delete_can_fail R k"
proof -
  obtain db where db: "Option.bind store db_handle = Some db" using assms(2) by (auto simp: store_opened_def)
  show ?thesis
  proof (cases "delete_can_fail R k")
    case True
    then show ?thesis using delete_frame [OF assms(1), of k' k store] by auto
  next
    case False
    then have "snd (rocksdb_delete R db k) = NULL" by (simp add: delete_can_fail_def)
    then show ?thesis using delete_done [OF assms(1) db assms(3)] by simp
  qed
qed

definition alloc_meta_print :: "('db, 'it, 'dm) vm_env \<Rightarrow> xsan_volume_allocation_meta \<Rightarrow> string" where
  "alloc_meta_print E m = json_object_to_json_string (jc E)
     (alloc_meta_json (uu E) m (take (unat (num_extents m)) (extents m)))"

definition volume_print :: "('db, 'it, 'dm) vm_env \<Rightarrow> xsan_volume \<Rightarrow> string" where
  "volume_print E v = json_object_to_json_string (jc E) (volume_json (uu E) v)"

lemma alloc_meta_to_string:
  assumes "alloc_meta_wf m"
  shows "xsan_volume_allocation_meta_to_json_string (jc E) (uu E) ok (Some m) True =
    Done (if ok then (XSAN_OK, Some (alloc_meta_print E m)) else (XSAN_ERROR_OUT_OF_MEMORY, NULL))"
  using assms by (simp add: xsan_volume_allocation_meta_to_json_string_def read_first_def
      alloc_meta_wf_def alloc_meta_print_def)

lemma new_alloc_meta_wf:
  assumes "length es \<le> XSAN_MAX_EXTENTS_PER_VOLUME"
  shows "alloc_meta_wf (new_alloc_meta vol gid es)"
proof -
  have "unat (of_nat (length es) :: u32) = length es"
    using assms by (simp add: XSAN_MAX_EXTENTS_PER_VOLUME_def unat_of_nat)
  then show ?thesis
    using assms by (simp add: alloc_meta_wf_def new_alloc_meta_def zero_alloc_meta_def)
qed

lemma alloc_meta_print_read:
  assumes "jsonc_ok (jc E)" "uuid_ok (uu E)" "alloc_meta_wf m"
  shows "xsan_json_string_to_volume_allocation_meta (jc E) (uu E) True (Some (alloc_meta_print E m @ rest)) True =
    (XSAN_OK, Some m)"
  using alloc_meta_string [OF assms] alloc_meta_to_string [OF assms(3), of E True] by force

lemma volume_print_read:
  assumes "jsonc_ok (jc E)" "uuid_ok (uu E)" "volume_wf v"
  shows "xsan_json_string_to_volume (jc E) (uu E) True (Some (volume_print E v @ rest)) True = (XSAN_OK, Some v)"
proof -
  have "xsan_volume_to_json_string (jc E) (uu E) True (Some v) True = (XSAN_OK, Some (volume_print E v))"
    by (simp add: xsan_volume_to_json_string_def volume_print_def)
  then show ?thesis using volume_string [OF assms] by force
qed

lemma save_meta_shape:
  "fst (xsan_volume_manager_save_volume_meta E vm vol) =
     vm\<lparr>md_store := md_store (fst (xsan_volume_manager_save_volume_meta E vm vol))\<rparr>"
  by (auto simp: xsan_volume_manager_save_volume_meta_def split: option.splits prod.splits)

lemma save_meta_opened:
  "store_opened (md_store (fst (xsan_volume_manager_save_volume_meta E vm vol))) = store_opened (md_store vm)"
  using put_opened [of "rdb E" "md_store vm"]
  by (auto simp: xsan_volume_manager_save_volume_meta_def split: option.splits prod.splits)
    (metis fst_conv)+

lemma save_meta_saved:
  assumes "rocksdb_ok (rdb E) W" "xsan_volume_manager_save_volume_meta E vm (Some v) = (vm', XSAN_OK)"
  shows "store_map W (md_store vm') = (store_map W (md_store vm))(volume_key (uu E) (vol_id v) \<mapsto> volume_print E v)"
  using assms(2) put_ok [OF assms(1), of "md_store vm" "volume_key (uu E) (vol_id v)" "volume_print E v"]
  by (auto simp: xsan_volume_manager_save_volume_meta_def xsan_volume_to_json_string_def volume_print_def
      split: option.splits prod.splits if_splits)

lemma save_meta_stored:
  assumes "rocksdb_ok (rdb E) W" "uuid_ok (uu E)" "volume_strdup_ok E" "Option.bind (md_store vm) db_handle = Some db"
    and "snd (rocksdb_put (rdb E) db (volume_key (uu E) (vol_id v)) (volume_print E v)) = NULL"
  shows "store_map W (md_store (fst (xsan_volume_manager_save_volume_meta E vm (Some v)))) (volume_key (uu E) (vol_id v)) =
    Some (volume_print E v)"
proof -
  have "snd (xsan_volume_manager_save_volume_meta E vm (Some v)) = XSAN_OK"
    using assms(3-5) keys_not_Nil(1) [OF assms(2), of "vol_id v"]
    by (cases "md_store vm") (auto simp: xsan_volume_manager_save_volume_meta_def xsan_volume_to_json_string_def
        xsan_metadata_store_put_def volume_print_def split: prod.splits)
  then show ?thesis
    using save_meta_saved [OF assms(1), of vm v "fst (xsan_volume_manager_save_volume_meta E vm (Some v))"]
    by (metis fun_upd_same prod.collapse)
qed

lemma save_meta_failed:
  assumes "rocksdb_ok (rdb E) W" "xsan_volume_manager_save_volume_meta E vm (Some v) = (vm', err)" "err \<noteq> XSAN_OK"
  shows "store_map W (md_store vm') k = store_map W (md_store vm) k \<or>
    k = volume_key (uu E) (vol_id v) \<and> err = XSAN_ERROR_IO \<and> put_can_fail (rdb E) k"
proof (cases "md_store vm = NULL \<or> \<not> volume_strdup_ok E")
  case False
  obtain st e where p: "xsan_metadata_store_put (rdb E) (md_store vm) (Some (volume_key (uu E) (vol_id v)))
      (Some (volume_print E v)) = (st, e)" by force
  then have "vm' = vm\<lparr>md_store := st\<rparr>" "err = e"
    using False assms(2) by (auto simp: xsan_volume_manager_save_volume_meta_def xsan_volume_to_json_string_def
        volume_print_def)
  then show ?thesis using put_failed [OF assms(1) p, of k] assms(3) by auto
qed (use assms(2) in \<open>auto simp: xsan_volume_manager_save_volume_meta_def xsan_volume_to_json_string_def
  split: option.splits if_splits\<close>)

section \<open>Recording a volume\<close>

text \<open>The volume and its allocation metadata as they are written.\<close>

definition recorded_volume :: "xsan_volume \<Rightarrow> xsan_volume" where
  "recorded_volume vol = vol\<lparr>vol_state := initial_state vol\<rparr>"

lemma record_volume_unfold:
  assumes "meta_malloc_ok E" "length es \<le> XSAN_MAX_EXTENTS_PER_VOLUME" "meta_strdup_ok E"
    and put: "xsan_metadata_store_put (rdb E) (md_store vm) (Some (alloc_key (uu E) (vol_id vol)))
        (Some (alloc_meta_print E (new_alloc_meta vol gid es))) = (st, XSAN_OK)"
    and save: "xsan_volume_manager_save_volume_meta E (vm\<lparr>md_store := st\<rparr>) (Some (recorded_volume vol)) = (vm2, err)"
    and del: "vm3 = vm2\<lparr>md_store := fst (xsan_metadata_store_delete (rdb E) (md_store vm2)
        (Some (alloc_key (uu E) (vol_id vol))))\<rparr>"
  shows "record_volume E vm gid vol es =
    (if err \<noteq> XSAN_OK then Done (give_back E gid es vm3, err, NULL)
     else if \<not> list_append_ok E then
       Done (give_back E gid es (fst (xsan_volume_manager_delete_volume_meta E vm3 (vol_id vol))),
         XSAN_ERROR_OUT_OF_MEMORY, NULL)
     else Done (vm2\<lparr>managed_volumes := managed_volumes vm2 @ [recorded_volume vol]\<rparr>, XSAN_OK, Some (vol_id vol)))"
  using assms by (simp add: record_volume_def Let_def alloc_meta_to_string [OF new_alloc_meta_wf]
      recorded_volume_def)

text \<open>The ways in which recording ends before the volume itself is written.\<close>

lemma record_volume_early:
  assumes m: "meta_malloc_ok E" and "\<not> (length es \<le> XSAN_MAX_EXTENTS_PER_VOLUME \<and> meta_strdup_ok E \<and>
    snd (xsan_metadata_store_put (rdb E) (md_store vm) (Some (alloc_key (uu E) (vol_id vol)))
        (Some (alloc_meta_print E (new_alloc_meta vol gid es)))) = XSAN_OK)"
  obtains err where "err \<noteq> XSAN_OK" "record_volume E vm gid vol es = Done (give_back E gid es vm, err, NULL)"
  | st err where "err \<noteq> XSAN_OK"
    "xsan_metadata_store_put (rdb E) (md_store vm) (Some (alloc_key (uu E) (vol_id vol)))
        (Some (alloc_meta_print E (new_alloc_meta vol gid es))) = (st, err)"
    "record_volume E vm gid vol es = Done (give_back E gid es (vm\<lparr>md_store := st\<rparr>), err, NULL)"
proof (cases "length es \<le> XSAN_MAX_EXTENTS_PER_VOLUME \<and> meta_strdup_ok E")
  case True
  obtain st err where p: "xsan_metadata_store_put (rdb E) (md_store vm) (Some (alloc_key (uu E) (vol_id vol)))
        (Some (alloc_meta_print E (new_alloc_meta vol gid es))) = (st, err)" by force
  then have "err \<noteq> XSAN_OK" using True assms(2) by simp
  moreover from this have "record_volume E vm gid vol es = Done (give_back E gid es (vm\<lparr>md_store := st\<rparr>), err, NULL)"
    using True m p by (simp add: record_volume_def Let_def alloc_meta_to_string [OF new_alloc_meta_wf])
  ultimately show ?thesis using p that(2) by blast
next
  case False
  then consider "length es > XSAN_MAX_EXTENTS_PER_VOLUME" | "length es \<le> XSAN_MAX_EXTENTS_PER_VOLUME" "\<not> meta_strdup_ok E"
    by linarith
  then have "\<exists>err. err \<noteq> XSAN_OK \<and> record_volume E vm gid vol es = Done (give_back E gid es vm, err, NULL)"
    using m by cases (simp_all add: record_volume_def Let_def alloc_meta_to_string [OF new_alloc_meta_wf])
  then show ?thesis using that(1) by blast
qed

lemma record_volume_success:
  assumes R: "rocksdb_ok (rdb E) W" and res: "record_volume E vm gid vol es = Done (vm', XSAN_OK, out)"
  shows "length es \<le> XSAN_MAX_EXTENTS_PER_VOLUME \<and> out = Some (vol_id vol) \<and>
    managed_volumes vm' = managed_volumes vm @ [recorded_volume vol] \<and> disk_manager vm' = disk_manager vm \<and>
    store_map W (md_store vm') = (store_map W (md_store vm))
      (alloc_key (uu E) (vol_id vol) \<mapsto> alloc_meta_print E (new_alloc_meta vol gid es),
       volume_key (uu E) (vol_id vol) \<mapsto> volume_print E (recorded_volume vol))"
proof -
  let ?k = "alloc_key (uu E) (vol_id vol)" and ?s = "alloc_meta_print E (new_alloc_meta vol gid es)"
  have m: "meta_malloc_ok E" using res by (auto simp: record_volume_def Let_def split: if_splits)
  have "length es \<le> XSAN_MAX_EXTENTS_PER_VOLUME \<and> meta_strdup_ok E \<and>
    snd (xsan_metadata_store_put (rdb E) (md_store vm) (Some ?k) (Some ?s)) = XSAN_OK"
    by (rule ccontr, erule record_volume_early [OF m]) (use res in auto)
  then have ok: "meta_malloc_ok E" "length es \<le> XSAN_MAX_EXTENTS_PER_VOLUME" "meta_strdup_ok E"
    "snd (xsan_metadata_store_put (rdb E) (md_store vm) (Some ?k) (Some ?s)) = XSAN_OK"
    using m by simp_all
  then obtain st where st: "xsan_metadata_store_put (rdb E) (md_store vm) (Some ?k) (Some ?s) = (st, XSAN_OK)"
    by (metis prod.collapse)
  obtain vm2 err where save:
    "xsan_volume_manager_save_volume_meta E (vm\<lparr>md_store := st\<rparr>) (Some (recorded_volume vol)) = (vm2, err)" by force
  note rv = record_volume_unfold [OF ok(1-3) st save refl]
  have e: "err = XSAN_OK" "list_append_ok E" using res rv by (auto split: if_splits)
  then have vm': "vm' = vm2\<lparr>managed_volumes := managed_volumes vm2 @ [recorded_volume vol]\<rparr>" "out = Some (vol_id vol)"
    using res rv by simp_all
  have "vm2 = vm\<lparr>md_store := md_store vm2\<rparr>"
    using save_meta_shape [of E "vm\<lparr>md_store := st\<rparr>" "Some (recorded_volume vol)"] save by simp
  then have "managed_volumes vm2 = managed_volumes vm" "disk_manager vm2 = disk_manager vm"
    by (metis xsan_volume_manager.select_convs(1) xsan_volume_manager.surjective xsan_volume_manager.update_convs(5),
        metis xsan_volume_manager.select_convs(2) xsan_volume_manager.surjective xsan_volume_manager.update_convs(5))
  moreover have "store_map W st = (store_map W (md_store vm))(?k \<mapsto> ?s)"
    using put_ok [OF R, of "md_store vm" ?k ?s] st by simp
  ultimately show ?thesis
    using save_meta_saved [OF R save [unfolded e(1)]] vm' ok(2) by (simp add: recorded_volume_def)
qed

lemma give_back_simps [simp]:
  "managed_volumes (give_back E gid es vm) = managed_volumes vm"
  "md_store (give_back E gid es vm) = md_store vm"
  "vm_lock (give_back E gid es vm) = vm_lock vm"
  "disk_manager (give_back E gid es vm) =
     (if es = [] then disk_manager vm else fst (free_extents E (disk_manager vm) gid es))"
  by (simp_all add: give_back_def)

lemma delete_meta_shape [simp]:
  "managed_volumes (fst (xsan_volume_manager_delete_volume_meta E vm vid)) = managed_volumes vm"
  "disk_manager (fst (xsan_volume_manager_delete_volume_meta E vm vid)) = disk_manager vm"
  "vm_lock (fst (xsan_volume_manager_delete_volume_meta E vm vid)) = vm_lock vm"
  by (simp_all add: xsan_volume_manager_delete_volume_meta_def split: prod.splits)

lemma save_meta_simps [simp]:
  "managed_volumes (fst (xsan_volume_manager_save_volume_meta E vm vol)) = managed_volumes vm"
  "disk_manager (fst (xsan_volume_manager_save_volume_meta E vm vol)) = disk_manager vm"
  "vm_lock (fst (xsan_volume_manager_save_volume_meta E vm vol)) = vm_lock vm"
  by (simp_all add: xsan_volume_manager_save_volume_meta_def split: option.splits prod.splits)

lemma delete_meta_store:
  assumes "uuid_ok (uu E)" "store_opened (md_store vm)" "vid \<noteq> 0"
  shows "md_store (fst (xsan_volume_manager_delete_volume_meta E vm vid)) =
    fst (xsan_metadata_store_delete (rdb E) (md_store vm) (Some (volume_key (uu E) vid)))"
proof -
  have "md_store vm \<noteq> NULL" using assms(2) by (cases "md_store vm") (simp_all add: store_opened_def)
  moreover have "\<not> spdk_uuid_is_null (uu E) vid" using assms(1,3) by (simp add: uuid_ok_def)
  ultimately show ?thesis by (auto simp: xsan_volume_manager_delete_volume_meta_def split: prod.splits)
qed

lemma put_ok_opened: "snd (xsan_metadata_store_put R store (Some k) v) = XSAN_OK \<Longrightarrow> store_opened store"
  by (auto simp: xsan_metadata_store_put_def store_opened_def split: option.splits if_splits)

text \<open>A key of the new volume that a creation which fails with the error cannot be sure to have removed:
  RocksDB reported an error for its write, or may report one for its delete.\<close>

definition left_behind :: "('db, 'it, 'dm) vm_env \<Rightarrow> uuid \<Rightarrow> xsan_error \<Rightarrow> string \<Rightarrow> bool" where
  "left_behind E vid err k \<longleftrightarrow> k \<in> {alloc_key (uu E) vid, volume_key (uu E) vid} \<and>
     (err = XSAN_ERROR_IO \<and> put_can_fail (rdb E) k \<or> delete_can_fail (rdb E) k)"

lemma record_volume_rollback:
  assumes R: "rocksdb_ok (rdb E) W" and U: "uuid_ok (uu E)" and m: "meta_malloc_ok E" and vid: "vol_id vol \<noteq> 0"
    and fresh: "store_map W (md_store vm) (alloc_key (uu E) (vol_id vol)) = None"
      "store_map W (md_store vm) (volume_key (uu E) (vol_id vol)) = None"
  shows "\<exists>vm' err out. record_volume E vm gid vol es = Done (vm', err, out) \<and> vm_lock vm' = vm_lock vm \<and>
    (err \<noteq> XSAN_OK \<longrightarrow> out = NULL \<and> managed_volumes vm' = managed_volumes vm \<and>
      (\<forall>k. store_map W (md_store vm') k = store_map W (md_store vm) k \<or> left_behind E (vol_id vol) err k) \<and>
      disk_manager vm' = disk_manager (give_back E gid es vm))"
proof -
  let ?k = "alloc_key (uu E) (vol_id vol)" and ?s = "alloc_meta_print E (new_alloc_meta vol gid es)"
  let ?v = "volume_key (uu E) (vol_id vol)"
  show ?thesis
  proof (cases "length es \<le> XSAN_MAX_EXTENTS_PER_VOLUME \<and> meta_strdup_ok E \<and>
    snd (xsan_metadata_store_put (rdb E) (md_store vm) (Some ?k) (Some ?s)) = XSAN_OK")
    case False
    then show ?thesis
    proof (rule record_volume_early [OF m])
      fix st err
      assume a: "err \<noteq> XSAN_OK" "xsan_metadata_store_put (rdb E) (md_store vm) (Some ?k) (Some ?s) = (st, err)"
        "record_volume E vm gid vol es = Done (give_back E gid es (vm\<lparr>md_store := st\<rparr>), err, NULL)"
      have "store_map W st k = store_map W (md_store vm) k \<or> left_behind E (vol_id vol) err k" for k
        using put_failed [OF R a(2,1), of k] by (auto simp: left_behind_def)
      with a show ?thesis by simp
    qed simp
  next
    case True
    then obtain st where st: "xsan_metadata_store_put (rdb E) (md_store vm) (Some ?k) (Some ?s) = (st, XSAN_OK)"
      by (metis prod.collapse)
    obtain vm2 err where save:
      "xsan_volume_manager_save_volume_meta E (vm\<lparr>md_store := st\<rparr>) (Some (recorded_volume vol)) = (vm2, err)" by force
    have st_map: "store_map W st = (store_map W (md_store vm))(?k \<mapsto> ?s)" and op: "store_opened (md_store vm2)"
      using put_ok [OF R, of "md_store vm" ?k ?s] st put_ok_opened put_opened
        save_meta_opened [of E "vm\<lparr>md_store := st\<rparr>" "Some (recorded_volume vol)"] save True
      by (force, metis fst_conv xsan_volume_manager.select_convs(5) xsan_volume_manager.surjective
          xsan_volume_manager.update_convs(5))
    define vm3 where "vm3 = vm2\<lparr>md_store := fst (xsan_metadata_store_delete (rdb E) (md_store vm2) (Some ?k))\<rparr>"
    have vm2: "managed_volumes vm2 = managed_volumes vm" "disk_manager vm2 = disk_manager vm" "vm_lock vm2 = vm_lock vm"
      using save_meta_simps [of E "vm\<lparr>md_store := st\<rparr>" "Some (recorded_volume vol)"] save by simp_all
    have del: "store_map W (md_store vm3) k = ((store_map W (md_store vm2))(?k := None)) k \<or>
        k = ?k \<and> delete_can_fail (rdb E) ?k" for k
      using delete_leaves [OF R op keys_not_Nil(2) [OF U], of "vol_id vol" k] by (simp add: vm3_def)
    have op3: "store_opened (md_store vm3)" using op by (simp add: vm3_def delete_opened)
    have f1: "store_map W (md_store vm3) k = store_map W (md_store vm) k \<or> left_behind E (vol_id vol) err k"
      if "err \<noteq> XSAN_OK" for k
      using del [of k] save_meta_failed [OF R save that, of k] st_map fresh(1)
      by (auto simp: left_behind_def recorded_volume_def split: if_splits)
    have "store_map W (md_store vm2) = (store_map W st)(?v \<mapsto> volume_print E (recorded_volume vol))" if "err = XSAN_OK"
      using save_meta_saved [OF R] save that by (force simp: recorded_volume_def)
    then have f2: "store_map W (md_store (fst (xsan_volume_manager_delete_volume_meta E vm3 (vol_id vol)))) k =
        store_map W (md_store vm) k \<or> left_behind E (vol_id vol) XSAN_ERROR_OUT_OF_MEMORY k" if "err = XSAN_OK" for k
      using delete_leaves [OF R op3 keys_not_Nil(1) [OF U], of "vol_id vol" k] that del [of k] st_map fresh
      by (auto simp: delete_meta_store [OF U op3 vid] left_behind_def split: if_splits)
    show ?thesis
      using record_volume_unfold [OF m _ _ st save vm3_def] True vm2 f1 f2 by (auto simp: vm3_def)
  qed
qed

section \<open>Creation\<close>

lemma allocate_volume_shape:
  assumes "allocate_volume E vm gid thin vol = (vm1, err, es, vol1)"
  shows "managed_volumes vm1 = managed_volumes vm" "md_store vm1 = md_store vm" "vm_lock vm1 = vm_lock vm"
    "\<exists>a. vol1 = vol\<lparr>allocated_bytes := a\<rparr>"
proof -
  have "\<exists>a. vol = vol\<lparr>allocated_bytes := a\<rparr>" by (rule exI [of _ "allocated_bytes vol"]) simp
  then show "managed_volumes vm1 = managed_volumes vm" "md_store vm1 = md_store vm" "vm_lock vm1 = vm_lock vm"
    "\<exists>a. vol1 = vol\<lparr>allocated_bytes := a\<rparr>"
    using assms by (auto simp: allocate_volume_def Let_def split: if_splits prod.splits option.splits)
qed

text \<open>What the disk manager is left with when creation fails.\<close>

definition space_returned ::
  "('db, 'it, 'dm) vm_env \<Rightarrow> uuid \<Rightarrow> 'dm \<Rightarrow> 'dm \<Rightarrow> bool" where
  "space_returned E gid dm dm' \<longleftrightarrow>
     dm' = dm \<or>
     (\<exists>n b dm1 e es. allocate_extents E dm gid n b = (dm1, e, es) \<and>
        dm' = (case es of
                 Some (x # xs) \<Rightarrow> if e = XSAN_OK then fst (free_extents E dm1 gid (x # xs)) else dm1
               | _ \<Rightarrow> dm1))"

lemma allocate_volume_space:
  assumes "allocate_volume E vm gid thin vol = (vm1, err, es, vol1)"
    and few: "\<And>dm g n b dm1 e xs. allocate_extents E dm g n b = (dm1, e, Some xs) \<Longrightarrow> length xs < 2 ^ 32"
  shows "space_returned E gid (disk_manager vm) (disk_manager (give_back E gid es vm1))"
proof (cases thin)
  case True
  then show ?thesis using assms(1) by (simp add: allocate_volume_def space_returned_def)
next
  case False
  obtain dm e xs where a: "allocate_extents E (disk_manager vm) gid (num_blocks vol) (block_size_bytes vol) = (dm, e, xs)"
    by (metis prod_cases3)
  show ?thesis
  proof (cases "e = XSAN_OK \<and> (\<exists>y ys. xs = Some (y # ys))")
    case True
    then obtain y ys where x: "e = XSAN_OK" "xs = Some (y # ys)" by blast
    have "length (y # ys) < 2 ^ 32" using few a x by blast
    then have n: "unat (of_nat (length (y # ys)) :: u32) = length (y # ys)"
      by (simp only: unat_of_nat) simp
    then have "(of_nat (length (y # ys)) :: u32) \<noteq> 0" by fastforce
    then have "es = y # ys \<and> disk_manager vm1 = dm"
      using assms(1) False a x n by (auto simp: allocate_volume_def Let_def)
    then show ?thesis
      using a x unfolding space_returned_def
      by (intro disjI2 exI [of _ "num_blocks vol"] exI [of _ "block_size_bytes vol"] exI [of _ dm]
          exI [of _ e] exI [of _ xs]) simp
  next
    case other: False
    then have "es = [] \<and> disk_manager vm1 = dm"
      using assms(1) False a by (auto simp: allocate_volume_def Let_def split: option.splits if_splits)
        (metis neq_Nil_conv list.size(3) of_nat_0)+
    then show ?thesis
      using a other unfolding space_returned_def
      by (intro disjI2 exI [of _ "num_blocks vol"] exI [of _ "block_size_bytes vol"] exI [of _ dm]
          exI [of _ e] exI [of _ xs]) (auto split: option.splits list.splits)
  qed
qed

lemma create_accepted:
  assumes "xsan_volume_create E vm (Some name) req_size gid lbs thin ftt = Done (vm', XSAN_OK, out)" "\<not> vm_lock vm"
  obtains vm2 local_id ip port vm1 es vol where
    "ftt < 3" "create_locked E (vm\<lparr>vm_lock := True\<rparr>) name req_size gid lbs thin ftt = Done (vm2, XSAN_OK, out)"
    "vm' = unlock vm2"
    "allocate_volume E (vm\<lparr>vm_lock := True\<rparr>) gid thin
       (built_volume E local_id ip port name req_size gid lbs thin ftt) = (vm1, XSAN_OK, es, vol)"
    "record_volume E vm1 gid vol es = Done (vm2, XSAN_OK, out)"
proof -
  let ?vm = "vm\<lparr>vm_lock := True\<rparr>"
  have ftt: "ftt < 3" using assms(1) by (auto simp: xsan_volume_create_def XSAN_MAX_REPLICAS_def split: if_splits)
  obtain vm2 where vm2: "create_locked E ?vm name req_size gid lbs thin ftt = Done (vm2, XSAN_OK, out)" "vm' = unlock vm2"
    using assms by (auto simp: xsan_volume_create_def lock_free bind_run_Done split: if_splits)
  obtain err local_id ip port where i:
    "xsan_get_local_node_info (uu E) (globals E) True INET6_ADDRSTRLEN = (err, local_id, ip, port)" by (metis prod_cases4)
  obtain vm1 e es vol where a: "allocate_volume E ?vm gid thin
      (built_volume E local_id ip port name req_size gid lbs thin ftt) = (vm1, e, es, vol)" by (metis prod_cases4)
  have "e = XSAN_OK \<and> record_volume E vm1 gid vol es = Done (vm2, XSAN_OK, out)"
    using vm2(1) i a [unfolded built_volume_def]
    by (auto simp: create_locked_def Let_def split: if_splits option.splits)
  with ftt vm2 a that show thesis by blast
qed

lemma create_not_duplicate:
  assumes "create_locked E vm name req_size gid lbs thin ftt = Done (vm', XSAN_OK, out)"
  shows "\<forall>v\<in>set (managed_volumes vm). take XSAN_MAX_NAME_LEN (vol_name v) \<noteq> take XSAN_MAX_NAME_LEN name"
  using assms by (auto simp: create_locked_def list_ex_iff split: if_splits)

lemma wf_fields:
  "volume_wf (vol\<lparr>allocated_bytes := a\<rparr>) = volume_wf vol" "volume_wf (vol\<lparr>vol_state := st\<rparr>) = volume_wf vol"
  "volume_request (vol\<lparr>allocated_bytes := a\<rparr>) = volume_request vol"
  "volume_request (vol\<lparr>vol_state := st\<rparr>) = volume_request vol"
  "replicas_ok (vol\<lparr>allocated_bytes := a\<rparr>) = replicas_ok vol"
  "replicas_ok (vol\<lparr>vol_state := st\<rparr>) = replicas_ok vol"
  by (simp_all add: volume_wf_def volume_request_def replicas_ok_def fun_eq_iff)

lemma create_success:
  assumes laws: "rocksdb_ok (rdb E) W" "jsonc_ok (jc E)" "uuid_ok (uu E)"
    and free: "\<not> vm_lock vm" and name: "NUL \<notin> set name"
    and res: "xsan_volume_create E vm (Some name) req_size gid lbs thin ftt = Done (vm', XSAN_OK, out)"
  obtains vol m local_id where
    "out = Some (vol_id vol)" "managed_volumes vm' = managed_volumes vm @ [vol]" "\<not> vm_lock vm'"
    "\<forall>v\<in>set (managed_volumes vm). take XSAN_MAX_NAME_LEN (vol_name v) \<noteq> take XSAN_MAX_NAME_LEN name"
    "volume_wf vol" "volume_request vol (new_uuid E) name req_size gid lbs thin" "replicas_ok vol local_id ftt"
    "alloc_meta_wf m" "volume_id m = vol_id vol" "disk_group_id m = gid"
    "total_volume_blocks_logical m = num_blocks vol" "volume_logical_block_size m = lbs"
    "store_map W (md_store vm') = (store_map W (md_store vm))
      (alloc_key (uu E) (vol_id vol) \<mapsto> alloc_meta_print E m, volume_key (uu E) (vol_id vol) \<mapsto> volume_print E vol)"
proof -
  obtain vm2 local_id ip port vm1 es vol where c: "ftt < 3"
    "create_locked E (vm\<lparr>vm_lock := True\<rparr>) name req_size gid lbs thin ftt = Done (vm2, XSAN_OK, out)" "vm' = unlock vm2"
    "allocate_volume E (vm\<lparr>vm_lock := True\<rparr>) gid thin
       (built_volume E local_id ip port name req_size gid lbs thin ftt) = (vm1, XSAN_OK, es, vol)"
    "record_volume E vm1 gid vol es = Done (vm2, XSAN_OK, out)"
    using create_accepted [OF res free] by blast
  note sh = allocate_volume_shape [OF c(4)]
  note rec = record_volume_success [OF laws(1) c(5)]
  have ok: "volume_wf (recorded_volume vol)" "volume_request (recorded_volume vol) (new_uuid E) name req_size gid lbs thin"
    "replicas_ok (recorded_volume vol) local_id ftt"
    using built_volume_ok [OF laws(3) c(1) name refl, of local_id ip port req_size gid lbs thin] sh(4)
    by (auto simp: recorded_volume_def wf_fields)
  have lbs: "block_size_bytes vol = lbs" using ok(2) by (simp add: volume_request_def recorded_volume_def)
  show thesis
  proof (rule that [of "recorded_volume vol" local_id "new_alloc_meta vol gid es"])
    show "\<forall>v\<in>set (managed_volumes vm). take XSAN_MAX_NAME_LEN (vol_name v) \<noteq> take XSAN_MAX_NAME_LEN name"
      using create_not_duplicate [OF c(2)] by simp
    show "alloc_meta_wf (new_alloc_meta vol gid es)" using rec by (intro new_alloc_meta_wf) simp
  qed (use rec sh c(3) ok lbs in \<open>auto simp: recorded_volume_def new_alloc_meta_def\<close>)
qed

text \<open>An allocation hands out fewer extents than the count of 32 bits can hold.\<close>

definition few_extents :: "('db, 'it, 'dm) vm_env \<Rightarrow> bool" where
  "few_extents E \<longleftrightarrow>
     (\<forall>dm g n b dm1 e xs. allocate_extents E dm g n b = (dm1, e, Some xs) \<longrightarrow> length xs < 2 ^ 32)"

lemma create_rollback:
  assumes laws: "rocksdb_ok (rdb E) W" "uuid_ok (uu E)" "meta_malloc_ok E"
    and few: "few_extents E"
    and free: "\<not> vm_lock vm" and vid: "new_uuid E \<noteq> 0"
    and fresh: "store_map W (md_store vm) (alloc_key (uu E) (new_uuid E)) = None"
      "store_map W (md_store vm) (volume_key (uu E) (new_uuid E)) = None"
  shows "\<exists>vm' err out. xsan_volume_create E vm name req_size gid lbs thin ftt = Done (vm', err, out) \<and>
    \<not> vm_lock vm' \<and>
    (err \<noteq> XSAN_OK \<longrightarrow> out = NULL \<and> managed_volumes vm' = managed_volumes vm \<and>
      (\<forall>k. store_map W (md_store vm') k = store_map W (md_store vm) k \<or> left_behind E (new_uuid E) err k) \<and>
      space_returned E gid (disk_manager vm) (disk_manager vm'))"
proof -
  let ?vm = "vm\<lparr>vm_lock := True\<rparr>"
  have locked: "\<exists>vm' err out. create_locked E ?vm n req_size gid lbs thin ftt = Done (vm', err, out) \<and>
    (err \<noteq> XSAN_OK \<longrightarrow> out = NULL \<and> managed_volumes vm' = managed_volumes vm \<and>
      (\<forall>k. store_map W (md_store vm') k = store_map W (md_store vm) k \<or> left_behind E (new_uuid E) err k) \<and>
      space_returned E gid (disk_manager vm) (disk_manager vm'))" for n
  proof -
    obtain err local_id ip port where i:
      "xsan_get_local_node_info (uu E) (globals E) True INET6_ADDRSTRLEN = (err, local_id, ip, port)" by (metis prod_cases4)
    let ?vol = "built_volume E local_id ip port n req_size gid lbs thin ftt"
    obtain vm1 e es vol where a: "allocate_volume E ?vm gid thin ?vol = (vm1, e, es, vol)" by (metis prod_cases4)
    note sh = allocate_volume_shape [OF a]
    have sp: "space_returned E gid (disk_manager vm) (disk_manager (give_back E gid es vm1))"
      using allocate_volume_space [OF a] few by (simp add: few_extents_def)
    have es: "e \<noteq> XSAN_OK \<Longrightarrow> es = []"
      using a by (auto simp: allocate_volume_def Let_def split: if_splits prod.splits option.splits)
    have vid': "vol_id vol = new_uuid E"
      using sh(4) by (auto simp: built_volume_def set_local_replica_def new_volume_def Let_def)
    obtain vm2 err2 out where r: "record_volume E vm1 gid vol es = Done (vm2, err2, out)"
      "err2 \<noteq> XSAN_OK \<longrightarrow> out = NULL \<and> managed_volumes vm2 = managed_volumes vm \<and>
        (\<forall>k. store_map W (md_store vm2) k = store_map W (md_store vm) k \<or> left_behind E (new_uuid E) err2 k) \<and>
        disk_manager vm2 = disk_manager (give_back E gid es vm1)"
      using record_volume_rollback [OF laws, of vol vm1 gid es] vid vid' fresh sh by auto
    have same: "space_returned E gid (disk_manager vm) (disk_manager vm)" by (simp add: space_returned_def)
    show ?thesis
      using i a [unfolded built_volume_def] r sh es sp same
      by (auto simp: create_locked_def Let_def split: option.splits)
  qed
  have same: "space_returned E gid (disk_manager vm) (disk_manager vm)" by (simp add: space_returned_def)
  show ?thesis
  proof (cases name)
    case (Some n)
    obtain vm2 err out where "create_locked E ?vm n req_size gid lbs thin ftt = Done (vm2, err, out)"
      "err \<noteq> XSAN_OK \<longrightarrow> out = NULL \<and> managed_volumes vm2 = managed_volumes vm \<and>
      (\<forall>k. store_map W (md_store vm2) k = store_map W (md_store vm) k \<or> left_behind E (new_uuid E) err k) \<and>
      space_returned E gid (disk_manager vm) (disk_manager vm2)"
      using locked [of n] by blast
    then show ?thesis
      using Some free same by (simp add: xsan_volume_create_def lock_free)
  qed (use free same in \<open>simp add: xsan_volume_create_def\<close>)
qed

section \<open>Deletion\<close>

text \<open>RocksDB reads the key of the store without an error.\<close>

definition key_reads :: "('db, 'it) rocksdb \<Rightarrow> 'db xsan_metadata_store ptr \<Rightarrow> string \<Rightarrow> bool" where
  "key_reads R store k \<longleftrightarrow> (case Option.bind store db_handle of
     None \<Rightarrow> False | Some db \<Rightarrow> snd (rocksdb_get R db k) = NULL)"

lemma get_stored:
  assumes "rocksdb_ok R W" "key_reads R store k" "k \<noteq> []"
  shows "xsan_metadata_store_get R True store (Some k) True =
    (case store_map W store k of None \<Rightarrow> (XSAN_ERROR_NOT_FOUND, NULL) | Some v \<Rightarrow> (XSAN_OK, Some v))"
proof -
  have o: "store_opened store" using assms(2) by (auto simp: key_reads_def store_opened_def split: option.splits)
  then obtain s db where s: "store = Some s" "db_handle s = Some db" by (rule store_openedE)
  then have "snd (rocksdb_get R db k) = NULL" using assms(2) by (simp add: key_reads_def)
  then have "xsan_metadata_store_get R True store (Some k) True \<noteq> (XSAN_ERROR_IO, NULL)"
    using s assms(3)
    by (cases "rocksdb_get R db k") (auto simp: xsan_metadata_store_get_def split: option.splits)
  then show ?thesis using get_result [OF assms(1) o assms(3), of True] by (auto split: option.splits)
qed

lemma get_fails:
  assumes "\<not> (key_reads R store k \<and> malloc_ok)"
  shows "xsan_metadata_store_get R malloc_ok store (Some k) True \<noteq> (XSAN_OK, Some v)"
  using assms by (auto simp: key_reads_def xsan_metadata_store_get_def split: option.splits if_splits prod.splits)

lemma fetch_stored:
  assumes "rocksdb_ok (rdb E) W" "jsonc_ok (jc E)" "uuid_ok (uu E)"
    and "store_map W (md_store vm) (alloc_key (uu E) vid) = Some (alloc_meta_print E m)" "alloc_meta_wf m"
  shows "fetch_alloc_meta E vm vid =
    (if key_reads (rdb E) (md_store vm) (alloc_key (uu E) vid) \<and> value_malloc_ok E \<and> meta_malloc_ok E
     then Some m else NULL)"
proof (cases "key_reads (rdb E) (md_store vm) (alloc_key (uu E) vid) \<and> value_malloc_ok E")
  case True
  then show ?thesis
    using get_stored [OF assms(1) _ keys_not_Nil(2) [OF assms(3)], of "md_store vm" vid] assms(4)
      alloc_meta_print_read [OF assms(2,3,5), of "[]"]
    by (cases "meta_malloc_ok E")
      (simp_all add: fetch_alloc_meta_def xsan_json_string_to_volume_allocation_meta_def split: option.splits)
next
  case False
  then show ?thesis using get_fails [OF False] by (auto simp: fetch_alloc_meta_def split: prod.splits)
qed

lemma find_volume_Some:
  assumes "uuid_ok U" "i < length vs" "vol_id (vs ! i) = vid" "\<forall>j<i. vol_id (vs ! j) \<noteq> vid"
  shows "find_volume U vid vs = Some i"
  using assms
proof (induction vs arbitrary: i)
  case (Cons v vs)
  show ?case
  proof (cases i)
    case 0
    then show ?thesis using Cons.prems by (simp add: uuid_ok_def)
  next
    case (Suc k)
    have "vol_id v \<noteq> vid" using Cons.prems(4) Suc by force
    moreover have "\<forall>j<k. vol_id (vs ! j) \<noteq> vid"
      using Cons.prems(4) Suc by (metis Suc_less_eq nth_Cons_Suc)
    then have "find_volume U vid vs = Some k"
      using Cons.IH [of k] Cons.prems Suc by simp
    ultimately show ?thesis using Cons.prems(1) Suc by (simp add: uuid_ok_def)
  qed
qed simp

lemma find_volume_None: "uuid_ok U \<Longrightarrow> vid \<notin> vol_id ` set vs \<Longrightarrow> find_volume U vid vs = None"
  by (induction vs) (auto simp: uuid_ok_def)

text \<open>What is left under the two keys of a volume after RocksDB was asked to delete them, one after the
  other: nothing, where it reports no error.\<close>

definition keys_deleted ::
  "('db, 'it, 'dm) vm_env \<Rightarrow> ('db, 'it) rocksdb_view \<Rightarrow> 'db \<Rightarrow> uuid \<Rightarrow> (string \<rightharpoonup> string) \<Rightarrow> bool" where
  "keys_deleted E W db vid f \<longleftrightarrow>
     (let ka = alloc_key (uu E) vid; kv = volume_key (uu E) vid; r = rocksdb_delete (rdb E) db ka in
      (\<forall>k. k \<noteq> ka \<longrightarrow> k \<noteq> kv \<longrightarrow> f k = contents W db k) \<and>
      f ka \<in> {contents W db ka, None} \<and> f kv \<in> {contents W db kv, None} \<and>
      (snd r = NULL \<longrightarrow> f ka = None) \<and>
      (snd (rocksdb_delete (rdb E) (fst r) kv) = NULL \<longrightarrow> f kv = None))"

lemma delete_found_result:
  assumes laws: "rocksdb_ok (rdb E) W" "uuid_ok (uu E)"
    and st: "md_store vm = Some s" "db_handle s = Some db" and vid: "vid \<noteq> 0"
    and m: "fetch_alloc_meta E vm vid = m" "\<And>a. m = Some a \<Longrightarrow> alloc_meta_wf a"
  shows "\<exists>vm'. delete_found E vm vid i = Done (vm', XSAN_OK) \<and>
    managed_volumes vm' = take i (managed_volumes vm) @ drop (Suc i) (managed_volumes vm) \<and>
    keys_deleted E W db vid (store_map W (md_store vm')) \<and>
    disk_manager vm' = (case m of
        None \<Rightarrow> disk_manager vm
      | Some m \<Rightarrow> if num_extents m = 0 then disk_manager vm
          else fst (free_extents E (disk_manager vm) (disk_group_id m) (take (unat (num_extents m)) (extents m))))"
proof -
  let ?ka = "alloc_key (uu E) vid" and ?kv = "volume_key (uu E) vid"
  define dm where "dm = (case m of
        None \<Rightarrow> disk_manager vm
      | Some m \<Rightarrow> if num_extents m = 0 then disk_manager vm
          else fst (free_extents E (disk_manager vm) (disk_group_id m) (take (unat (num_extents m)) (extents m))))"
  define st2 where "st2 = fst (xsan_metadata_store_delete (rdb E) (md_store vm) (Some ?ka))"
  define vm2 where "vm2 = vm\<lparr>disk_manager := dm, md_store := st2\<rparr>"
  have rf: "read_first (num_extents a) (extents a) = Done (take (unat (num_extents a)) (extents a))" if "m = Some a" for a
    using m(2) [OF that] by (simp add: read_first_def alloc_meta_wf_def)
  have d: "delete_found E vm vid i =
    (let vm = fst (xsan_volume_manager_delete_volume_meta E vm2 vid)
     in Done (vm\<lparr>managed_volumes := take i (managed_volumes vm) @ drop (Suc i) (managed_volumes vm)\<rparr>, XSAN_OK))"
    using m(1) rf by (cases m) (auto simp: delete_found_def vm2_def st2_def dm_def Let_def word_gt_0)
  have st2: "st2 = Some (s\<lparr>db_handle := Some (fst (rocksdb_delete (rdb E) db ?ka))\<rparr>)" "store_opened st2"
    using st keys_not_Nil(2) [OF laws(2)]
    by (auto simp: st2_def xsan_metadata_store_delete_def store_opened_def split: prod.splits)
  define st3 where "st3 = fst (xsan_metadata_store_delete (rdb E) st2 (Some ?kv))"
  have c: "store_map W (md_store vm) = contents W db" "Option.bind (md_store vm) db_handle = Some db"
    using st by (simp_all add: store_map_def)
  have k2: "k \<noteq> ?ka \<Longrightarrow> store_map W st2 k = contents W db k" "store_map W st2 ?ka \<in> {contents W db ?ka, None}"
    "snd (rocksdb_delete (rdb E) db ?ka) = NULL \<Longrightarrow> store_map W st2 ?ka = None" for k
    using delete_frame [OF laws(1), of k ?ka "md_store vm"] delete_at [OF laws(1), of "md_store vm" ?ka]
      delete_done [OF laws(1) c(2) keys_not_Nil(2) [OF laws(2)]] c(1) by (simp_all add: st2_def)
  have "Option.bind st2 db_handle = Some (fst (rocksdb_delete (rdb E) db ?ka))" using st2(1) by simp
  then have k3: "k \<noteq> ?kv \<Longrightarrow> store_map W st3 k = store_map W st2 k" "store_map W st3 ?kv \<in> {store_map W st2 ?kv, None}"
    "snd (rocksdb_delete (rdb E) (fst (rocksdb_delete (rdb E) db ?ka)) ?kv) = NULL \<Longrightarrow> store_map W st3 ?kv = None" for k
    using delete_frame [OF laws(1), of k ?kv st2] delete_at [OF laws(1), of st2 ?kv]
      delete_done [OF laws(1) _ keys_not_Nil(1) [OF laws(2)], of st2] by (simp_all add: st3_def)
  have "?ka \<noteq> ?kv" using keys_distinct [OF laws(2), of vid vid] by metis
  then have "keys_deleted E W db vid (store_map W st3)"
    using k2 k3 unfolding keys_deleted_def Let_def by (simp del: insert_iff)
  then show ?thesis
    using d delete_meta_store [OF laws(2) _ vid, of vm2] st2(2)
    by (simp add: Let_def vm2_def dm_def st3_def)
qed

section \<open>Loading\<close>

fun load_list ::
  "('db, 'it, 'dm) vm_env \<Rightarrow> ('db, 'dm) xsan_volume_manager \<Rightarrow> (string \<times> string) list
     \<Rightarrow> ('db, 'dm) xsan_volume_manager run" where
  "load_list E vm [] = Done vm"
| "load_list E vm ((k, s) # es) =
     (if take 2 k \<noteq> ''v:'' then Done vm else bind_run (load_entry E vm (Some s)) (\<lambda>vm. load_list E vm es))"

lemma load_loop_list:
  assumes law: "iterator_law (rdb E) W"
  shows "load_loop E vm (Some \<lparr>rocksdb_iter_handle = Some it\<rparr>) = Some (load_list E vm (upcoming W it))"
proof (induction "upcoming W it" arbitrary: it vm)
  case Nil
  then have "\<not> rocksdb_iter_valid (rdb E) it" using law by (simp add: iterator_law_def)
  then show ?case
    using Nil by (subst load_loop.simps) (simp add: xsan_metadata_iterator_is_valid_def Nil [symmetric])
next
  case (Cons e es)
  obtain k s where e: "e = (k, s)" by force
  have it: "rocksdb_iter_valid (rdb E) it" "rocksdb_iter_key (rdb E) it = k" "rocksdb_iter_value (rdb E) it = s"
    "upcoming W (rocksdb_iter_next (rdb E) it) = es"
    using law Cons(2) e unfolding iterator_law_def by (metis list.discI list.sel(1) list.sel(3) fst_conv snd_conv)+
  have "load_loop E vm' (Some \<lparr>rocksdb_iter_handle = Some (rocksdb_iter_next (rdb E) it)\<rparr>) =
      Some (load_list E vm' es)" for vm'
    using Cons(1) [of "rocksdb_iter_next (rdb E) it" vm'] it(4) by simp
  then show ?case
    using it e
    by (subst load_loop.simps)
      (auto simp: Cons(2) [symmetric] xsan_metadata_iterator_is_valid_def xsan_metadata_iterator_key_def
        xsan_metadata_iterator_value_def xsan_metadata_iterator_next_def split: run.split)
qed

text \<open>The entries of volumes stand together in the order of the keys.\<close>

lemma volume_prefix_Cons: "take 2 b = ''v:'' \<longleftrightarrow> (\<exists>b'. b = CHR ''v'' # CHR '':'' # b')"
  by (cases b; cases "tl b") (auto simp: numeral_2_eq_2)

lemma volume_prefix_convex:
  assumes "''v:'' \<le> a" "a < b" "take 2 b = ''v:''"
  shows "take 2 a = ''v:''"
proof -
  obtain b' where b: "b = CHR ''v'' # CHR '':'' # b'" using assms(3) by (auto simp: volume_prefix_Cons)
  obtain a' where a: "a = CHR ''v'' # a'" using assms(1,2) b by (cases a) auto
  obtain a'' where "a' = CHR '':'' # a''" using assms(1,2) a b by (cases a') auto
  with a show ?thesis by simp
qed

lemma volume_prefix_ge: "take 2 b = ''v:'' \<Longrightarrow> \<not> b < ''v:''"
  by (auto simp: volume_prefix_Cons)

lemma takeWhile_volumes:
  assumes "sorted_wrt (<) (map fst es)" "\<forall>e\<in>set es. \<not> fst e < ''v:''"
  shows "takeWhile (\<lambda>e. take 2 (fst e) = ''v:'') es = filter (\<lambda>e. take 2 (fst e) = ''v:'') es"
  using assms
proof (induction es)
  case (Cons e es)
  have "take 2 (fst e) = ''v:''" if "\<exists>x\<in>set es. take 2 (fst x) = ''v:''"
    using that Cons.prems volume_prefix_convex [of "fst e"] by (auto simp: not_less)
  then have "take 2 (fst e) \<noteq> ''v:'' \<Longrightarrow> filter (\<lambda>e. take 2 (fst e) = ''v:'') es = []"
    by (auto simp: filter_empty_conv)
  with Cons show ?case by simp
qed simp

lemma volumes_contiguous:
  assumes "sorted_wrt (<) (map fst es)"
  shows "takeWhile (\<lambda>e. take 2 (fst e) = ''v:'') (dropWhile (\<lambda>e. fst e < ''v:'') es) =
    filter (\<lambda>e. take 2 (fst e) = ''v:'') es"
  using assms
proof (induction es)
  case (Cons e es)
  show ?case
  proof (cases "fst e < ''v:''")
    case True
    then show ?thesis using Cons volume_prefix_ge [of "fst e"] by auto
  next
    case False
    then have "\<forall>x\<in>set (e # es). \<not> fst x < ''v:''" using Cons.prems by fastforce
    then show ?thesis using takeWhile_volumes [OF Cons.prems] False by simp
  qed
qed simp

text \<open>Whether an entry gives a volume; then the mutex is locked a second time.\<close>

definition loads :: "('db, 'it, 'dm) vm_env \<Rightarrow> string \<Rightarrow> bool" where
  "loads E s \<longleftrightarrow> volume_malloc_ok E \<and> list_append_ok E \<and> json_tokener_parse (jc E) (s @ behind E s) \<noteq> NULL"

lemma load_entry_locked: "vm_lock vm \<Longrightarrow> load_entry E vm (Some s) = (if loads E s then Deadlock else Done vm)"
  by (auto simp: load_entry_def loads_def xsan_json_string_to_volume_def xsan_volume_update_overall_state_def
      lock_held split: option.splits)

lemma load_list_locked:
  "vm_lock vm \<Longrightarrow> load_list E vm es =
     (if \<exists>e\<in>set (takeWhile (\<lambda>e. take 2 (fst e) = ''v:'') es). loads E (snd e) then Deadlock else Done vm)"
proof (induction es)
  case (Cons e es)
  obtain k s where "e = (k, s)" by force
  with Cons show ?case
    by (cases "take 2 k = ''v:''"; cases "loads E s") (simp_all add: load_entry_locked)
qed simp

lemma load_metadata_result:
  assumes law: "rocksdb_ok (rdb E) W" and vm: "vm_initialized vm" "\<not> vm_lock vm"
    and st: "md_store vm = Some s" "db_handle s = Some db"
    and it: "iter_malloc_ok E" "rocksdb_create_iterator (rdb E) db \<noteq> NULL"
  shows "xsan_volume_manager_load_metadata E vm =
    Some (if \<exists>k v. contents W db k = Some v \<and> take 2 k = ''v:'' \<and> loads E v then Deadlock
          else Done (vm, XSAN_OK))"
proof -
  have il: "iterator_law (rdb E) W" using law by (simp add: rocksdb_ok_def)
  then have so: "sorted_wrt (<) (map fst (entries W db))" by (simp add: iterator_law_def)
  then have d: "distinct (map fst (entries W db))" by (simp add: strict_sorted_iff)
  obtain h where h: "rocksdb_create_iterator (rdb E) db = Some h" using it(2) by auto
  let ?h = "rocksdb_iter_seek (rdb E) h ''v:''"
  have up: "upcoming W ?h = dropWhile (\<lambda>e. fst e < ''v:'') (entries W db)"
    using il h by (simp add: iterator_law_def)
  have "(\<exists>e\<in>set (takeWhile (\<lambda>e. take 2 (fst e) = ''v:'') (upcoming W ?h)). loads E (snd e)) \<longleftrightarrow>
      (\<exists>k v. contents W db k = Some v \<and> take 2 k = ''v:'' \<and> loads E v)"
    unfolding up volumes_contiguous [OF so] contents_def using d by (force simp: map_of_eq_Some_iff)
  moreover have "unlock (vm\<lparr>vm_lock := True\<rparr>) = vm" using vm(2) by (simp add: unlock_def)
  ultimately show ?thesis
    using vm st it h
    by (auto simp: xsan_volume_manager_load_metadata_def lock_free xsan_metadata_iterator_create_def
        xsan_metadata_iterator_seek_def load_loop_list [OF il] load_list_locked)
qed

section \<open>The overall state\<close>

definition online_count :: "xsan_volume \<Rightarrow> nat" where
  "online_count v = length (filter (\<lambda>r. rl_state r = XSAN_STORAGE_STATE_ONLINE)
     (take (unat (actual_replica_count v)) (replica_nodes v)))"

text \<open>Online with as many replicas online as it promises, offline with none.\<close>

definition state_spec :: "xsan_volume \<Rightarrow> xsan_storage_state" where
  "state_spec v =
     (if min (unat (FTT v) + 1) (unat (actual_replica_count v)) \<le> online_count v then XSAN_STORAGE_STATE_ONLINE
      else if 0 < online_count v then XSAN_STORAGE_STATE_DEGRADED
      else XSAN_STORAGE_STATE_OFFLINE)"

lemma overall_state_spec:
  assumes n: "unat (actual_replica_count v) \<le> length (replica_nodes v)" "actual_replica_count v \<noteq> 0"
    and ftt: "unat (FTT v) + 1 < 2 ^ 32"
  shows "overall_state v = Done (state_spec v)"
proof -
  let ?on = "online_count v" and ?c = "actual_replica_count v"
  have "?on \<le> unat ?c" by (simp add: online_count_def le_trans [OF length_filter_le])
  moreover have "unat ?c < 2 ^ 32" using unsigned_less [of ?c, where 'a = nat] by simp
  ultimately have on: "unat (of_nat ?on :: u32) = ?on" by (simp add: unat_of_nat)
  have f: "unat (FTT v + 1) = unat (FTT v) + 1" using ftt by (simp add: unat_word_ariths)
  define req where "req = (if FTT v + 1 > ?c \<and> ?c > 0 then ?c else FTT v + 1)"
  have req: "unat req = min (unat (FTT v) + 1) (unat ?c)"
    using n(2) f by (auto simp: req_def word_less_nat_alt unat_gt_0)
  have "overall_state v = Done (if of_nat ?on \<ge> req then XSAN_STORAGE_STATE_ONLINE
      else if (of_nat ?on :: u32) > 0 then XSAN_STORAGE_STATE_DEGRADED else XSAN_STORAGE_STATE_OFFLINE)"
    using n(1) by (simp add: overall_state_def read_first_def online_count_def req_def Let_def)
  then show ?thesis
    using on req by (simp add: state_spec_def word_le_nat_alt word_less_nat_alt)
qed

lemma update_state_result:
  assumes free: "\<not> vm_lock vm" and i: "i < length (managed_volumes vm)"
    and v: "v = managed_volumes vm ! i" "unat (actual_replica_count v) \<le> length (replica_nodes v)"
      "actual_replica_count v \<noteq> 0" "unat (FTT v) + 1 < 2 ^ 32"
  shows "xsan_volume_update_overall_state E vm (Some i) =
    Done (if state_spec v = vol_state v then vm
          else fst (xsan_volume_manager_save_volume_meta E
            (vm\<lparr>managed_volumes := (managed_volumes vm)[i := v\<lparr>vol_state := state_spec v\<rparr>]\<rparr>)
            (Some (v\<lparr>vol_state := state_spec v\<rparr>))))"
proof -
  have ul: "unlock (vm\<lparr>vm_lock := True, managed_volumes := vs\<rparr>) = vm\<lparr>managed_volumes := vs\<rparr>" for vs
    using free by (simp add: unlock_def)
  have "state_spec v = vol_state v \<Longrightarrow> (managed_volumes vm)[i := v\<lparr>vol_state := state_spec v\<rparr>] = managed_volumes vm"
    using v(1) by simp
  then show ?thesis
    using overall_state_spec [OF v(2-4)] free v(1)
    by (simp add: xsan_volume_update_overall_state_def lock_free Let_def ul)
qed

section \<open>An instance of the environment\<close>

text \<open>One node, one disk group of one disk, on which extents are handed out one after the other.\<close>

definition sample_env :: "(write_log, log_iter, u64) vm_env" where
  "sample_env = \<lparr>rdb = log_db, jc = sample_json, uu = sample_uuid,
     find_disk_group_by_id = (\<lambda>dm g. if g = 7 then Some \<lparr>dg_state = 2, dg_disk_ids = [9]\<rparr> else NULL),
     find_disk_by_id = (\<lambda>dm d. if d = 9 then Some \<lparr>disk_block_size_bytes = 512, disk_uuid = 9, disk_bdev_name = ''Malloc0'', bdev_descriptor = True\<rparr> else NULL),
     allocate_extents = (\<lambda>dm g n b. (dm + n, XSAN_OK, Some [\<lparr>disk_id = 9, start_block_on_disk = dm * 8,
        num_blocks_on_disk = n * 8, volume_start_lba = 0\<rparr>])),
     free_extents = (\<lambda>dm g es. (dm, XSAN_OK)),
     volume_get_by_id = (\<lambda>vm vid. find (\<lambda>v. vol_id v = vid) (managed_volumes vm)),
     globals = \<lparr>g_xsan_config = True,
        g_local_node_config = zero_node_config\<lparr>cfg_node_id := base_255 17 1, cfg_bind_address := ''10.0.0.1'', cfg_port := 8080\<rparr>,
        g_cluster_config = zero_cluster_config\<lparr>cfg_cluster_name := ''c''\<rparr>\<rparr>,
     cluster = \<lparr>g_known_cluster_nodes = zero_node\<lparr>xn_id := 2, storage_ip := ''10.0.0.2'', storage_port := 8080\<rparr> # replicate 15 zero_node,
        g_known_node_count = 1, g_cluster_initialized = True\<rparr>,
     new_uuid = 5, current_time_us = 0, volume_malloc_ok = True, meta_malloc_ok = True, meta_strdup_ok = True,
     volume_strdup_ok = True, nodes_malloc_ok = True, list_append_ok = True, value_malloc_ok = True,
     iter_malloc_ok = True, behind = (\<lambda>_. []), missing_cleanup = (\<lambda>g es vm. vm)\<rparr>"

definition sample_vm :: "(write_log, u64) xsan_volume_manager" where
  "sample_vm = \<lparr>managed_volumes = [], disk_manager = 0, vm_lock = False, vm_initialized = True,
     md_store = Some \<lparr>db_handle = Some [], db_options = True, write_options = True, read_options = True,
       db_path_copy = NULL\<rparr>\<rparr>"

lemma sample_env_laws:
  "rocksdb_ok (rdb sample_env) log_view" "jsonc_ok (jc sample_env)" "uuid_ok (uu sample_env)"
  using log_db_ok sample_json_ok sample_uuid_ok by (simp_all add: sample_env_def)

lemma sample_env_reads: "store_opened store \<Longrightarrow> key_reads (rdb sample_env) store k"
  by (auto simp: key_reads_def store_opened_def sample_env_def log_db_def)

lemma sample_env_few: "few_extents (sample_env\<lparr>list_append_ok := ok\<rparr>)"
  by (auto simp: sample_env_def few_extents_def)

lemma sample_string_field: "string_field INET6_ADDRSTRLEN (Some ''10.0.0.1'') = ''10.0.0.1''"
  by (rule string_field_fits) (simp_all add: INET6_ADDRSTRLEN_def)

lemma sample_local_node:
  "xsan_get_local_node_info (uu sample_env) (globals sample_env) True INET6_ADDRSTRLEN =
     (XSAN_OK, 1, ''10.0.0.1'', 8080)"
proof -
  have "of_base_255 (base_255 17 1) = 1" by (simp only: of_base_255) simp
  moreover have "base_255 17 1 \<noteq> []" by (metis length_base_255 list.size(3) zero_neq_numeral)
  ultimately show ?thesis
    by (simp add: xsan_get_local_node_info_def sample_env_def sample_uuid_def sample_string_field
        INET6_ADDRSTRLEN_def [THEN arg_cong [of _ _ "\<lambda>n. n = 0"]] del: base_255.simps)
qed

lemma sample_create:
  "\<exists>vm' out. xsan_volume_create (sample_env\<lparr>list_append_ok := ok\<rparr>) sample_vm (Some ''data'') 1000000 7 4096 False 1 =
     Done (vm', if ok then XSAN_OK else XSAN_ERROR_OUT_OF_MEMORY, out)"
proof -
  let ?E = "sample_env\<lparr>list_append_ok := ok\<rparr>" and ?vm = "sample_vm\<lparr>vm_lock := True\<rparr>"
  let ?vol = "built_volume ?E 1 ''10.0.0.1'' 8080 ''data'' 1000000 7 4096 False 1"
  obtain vm1 es vol where a: "allocate_volume ?E ?vm 7 False ?vol = (vm1, XSAN_OK, es, vol)" "length es = 1"
    "md_store vm1 = md_store sample_vm"
    by (auto simp: allocate_volume_def sample_env_def)
  have "\<exists>vm' out. record_volume ?E vm1 7 vol es = Done (vm', if ok then XSAN_OK else XSAN_ERROR_OUT_OF_MEMORY, out)"
  proof -
    obtain st where st: "xsan_metadata_store_put (rdb ?E) (md_store vm1) (Some (alloc_key (uu ?E) (vol_id vol)))
        (Some (alloc_meta_print ?E (new_alloc_meta vol 7 es))) = (st, XSAN_OK)" "st \<noteq> NULL" "store_opened st"
      using keys_not_Nil(2) [OF sample_env_laws(3)] a(3)
      by (auto simp: xsan_metadata_store_put_def sample_vm_def sample_env_def log_db_def store_opened_def)
    obtain vm2 where save: "xsan_volume_manager_save_volume_meta ?E (vm1\<lparr>md_store := st\<rparr>) (Some (recorded_volume vol)) =
        (vm2, XSAN_OK)"
      using st(2,3) keys_not_Nil(1) [OF sample_env_laws(3)]
      by (auto simp: xsan_volume_manager_save_volume_meta_def xsan_volume_to_json_string_def sample_env_def
          xsan_metadata_store_put_def log_db_def elim!: store_openedE)
    have e: "meta_malloc_ok ?E" "length es \<le> XSAN_MAX_EXTENTS_PER_VOLUME" "meta_strdup_ok ?E"
      using a(2) by (simp_all add: sample_env_def XSAN_MAX_EXTENTS_PER_VOLUME_def)
    show ?thesis using record_volume_unfold [OF e st(1) save refl] by simp
  qed
  then obtain vm' out where r: "record_volume ?E vm1 7 vol es =
      Done (vm', if ok then XSAN_OK else XSAN_ERROR_OUT_OF_MEMORY, out)" by blast
  have f: "vm_initialized sample_vm" "\<not> vm_lock sample_vm" "managed_volumes sample_vm = []" "volume_malloc_ok sample_env"
    "\<not> spdk_uuid_is_null (uu sample_env) 7" "find_disk_group_by_id sample_env d 7 = Some \<lparr>dg_state = 2, dg_disk_ids = [9]\<rparr>" for d
    by (simp_all add: sample_vm_def sample_env_def sample_uuid_def)
  have "create_locked ?E ?vm ''data'' 1000000 7 4096 False 1 =
      Done (vm', if ok then XSAN_OK else XSAN_ERROR_OUT_OF_MEMORY, out)"
    using a(1) [unfolded built_volume_def] r by (simp add: create_locked_def f sample_local_node)
  then show ?thesis using f by (simp add: xsan_volume_create_def lock_free XSAN_MAX_REPLICAS_def word_le_nat_alt)
qed

lemma sample_create_ok:
  "\<exists>vm' out. xsan_volume_create sample_env sample_vm (Some ''data'') 1000000 7 4096 False 1 = Done (vm', XSAN_OK, out)"
proof -
  have "sample_env\<lparr>list_append_ok := True\<rparr> = sample_env" by (simp add: sample_env_def)
  then show ?thesis using sample_create [of True] by simp
qed

section \<open>Properties\<close>

text \<open>C4: A creation that reports success gives back the identifier of a new volume
  at the end of the list, whose name was not taken. The volume is the one requested, its local replica
  comes first and the others are on nodes other than the local one, at most as many as asked for; two of
  these may be the same node if the list of known nodes has it twice. The database holds the
  volume and its allocation metadata under their keys, from where they are read back exactly, and is
  otherwise as it was. The mutex is free again.\<close>

theorem volume_create_success:
  assumes "rocksdb_ok (rdb E) W" "jsonc_ok (jc E)" "uuid_ok (uu E)" "\<not> vm_lock vm" "NUL \<notin> set name"
    and "xsan_volume_create E vm (Some name) req_size gid lbs thin ftt = Done (vm', XSAN_OK, out)"
  shows "\<exists>vol m local_id s1 s2.
    out = Some (vol_id vol) \<and> managed_volumes vm' = managed_volumes vm @ [vol] \<and> \<not> vm_lock vm' \<and>
    (\<forall>v\<in>set (managed_volumes vm). take XSAN_MAX_NAME_LEN (vol_name v) \<noteq> take XSAN_MAX_NAME_LEN name) \<and>
    volume_wf vol \<and> volume_request vol (new_uuid E) name req_size gid lbs thin \<and> replicas_ok vol local_id ftt \<and>
    volume_id m = vol_id vol \<and> disk_group_id m = gid \<and> total_volume_blocks_logical m = num_blocks vol \<and>
    volume_logical_block_size m = lbs \<and>
    store_map W (md_store vm') = (store_map W (md_store vm))
      (alloc_key (uu E) (vol_id vol) \<mapsto> s1, volume_key (uu E) (vol_id vol) \<mapsto> s2) \<and>
    xsan_json_string_to_volume_allocation_meta (jc E) (uu E) True (Some s1) True = (XSAN_OK, Some m) \<and>
    xsan_json_string_to_volume (jc E) (uu E) True (Some s2) True = (XSAN_OK, Some vol)"
proof (rule create_success [OF assms])
  fix vol m local_id
  assume a: "out = Some (vol_id vol)" "managed_volumes vm' = managed_volumes vm @ [vol]" "\<not> vm_lock vm'"
    "\<forall>v\<in>set (managed_volumes vm). take XSAN_MAX_NAME_LEN (vol_name v) \<noteq> take XSAN_MAX_NAME_LEN name"
    "volume_wf vol" "volume_request vol (new_uuid E) name req_size gid lbs thin" "replicas_ok vol local_id ftt"
    "alloc_meta_wf m" "volume_id m = vol_id vol" "disk_group_id m = gid"
    "total_volume_blocks_logical m = num_blocks vol" "volume_logical_block_size m = lbs"
    "store_map W (md_store vm') = (store_map W (md_store vm))
      (alloc_key (uu E) (vol_id vol) \<mapsto> alloc_meta_print E m, volume_key (uu E) (vol_id vol) \<mapsto> volume_print E vol)"
  show ?thesis
    using a alloc_meta_print_read [OF assms(2,3) a(8), of "[]"] volume_print_read [OF assms(2,3) a(5), of "[]"]
    by (intro exI [of _ vol] exI [of _ m] exI [of _ local_id] exI [of _ "alloc_meta_print E m"]
        exI [of _ "volume_print E vol"]) simp
qed

theorem volume_create_success_witness:
  "\<exists>vm' vol. xsan_volume_create sample_env sample_vm (Some ''data'') 1000000 7 4096 False 1 =
      Done (vm', XSAN_OK, Some (vol_id vol)) \<and> managed_volumes vm' = [vol] \<and> vol_name vol = ''data'' \<and>
      volume_request vol 5 ''data'' 1000000 7 4096 False"
proof -
  obtain vm' out where r: "xsan_volume_create sample_env sample_vm (Some ''data'') 1000000 7 4096 False 1 =
      Done (vm', XSAN_OK, out)"
    using sample_create_ok by blast
  have f: "\<not> vm_lock sample_vm" "managed_volumes sample_vm = []" "new_uuid sample_env = 5"
    by (simp_all add: sample_vm_def sample_env_def)
  from volume_create_success [OF sample_env_laws f(1) _ r] f(2,3) r show ?thesis
    by (auto simp: volume_request_def XSAN_MAX_NAME_LEN_def)
qed



text \<open>C19: Deleting a volume that exists removes exactly that volume from the list, reports success and
  leaves the mutex free, whatever RocksDB reports. Of the database only the two keys of the volume can
  change; each is gone if RocksDB reports no error for its delete. The extents are given back to the disk
  group exactly if RocksDB reads the allocation metadata without an error and there is the memory to
  parse it, and there are any; else the disk manager is left as it was. An identifier that no volume has is
  reported as not found and changes nothing.\<close>

theorem volume_delete_spec:
  assumes "rocksdb_ok (rdb E) W" "jsonc_ok (jc E)" "uuid_ok (uu E)"
    and "\<not> vm_lock vm" "vm_initialized vm" "vid \<noteq> 0" "md_store vm = Some s" "db_handle s = Some db"
  shows "(\<forall>i m. i < length (managed_volumes vm) \<and> vol_id (managed_volumes vm ! i) = vid \<and>
      (\<forall>j<i. vol_id (managed_volumes vm ! j) \<noteq> vid) \<and> alloc_meta_wf m \<and>
      contents W db (alloc_key (uu E) vid) = Some (alloc_meta_print E m) \<longrightarrow>
      (\<exists>vm'. xsan_volume_delete E vm vid = Done (vm', XSAN_OK) \<and> \<not> vm_lock vm' \<and>
        managed_volumes vm' = take i (managed_volumes vm) @ drop (Suc i) (managed_volumes vm) \<and>
        keys_deleted E W db vid (store_map W (md_store vm')) \<and>
        disk_manager vm' =
          (if snd (rocksdb_get (rdb E) db (alloc_key (uu E) vid)) = NULL \<and> value_malloc_ok E \<and> meta_malloc_ok E \<and>
              num_extents m \<noteq> 0
           then fst (free_extents E (disk_manager vm) (disk_group_id m) (take (unat (num_extents m)) (extents m)))
           else disk_manager vm))) \<and>
    (vid \<notin> vol_id ` set (managed_volumes vm) \<longrightarrow> xsan_volume_delete E vm vid = Done (vm, XSAN_ERROR_NOT_FOUND))"
proof (intro conjI allI impI)
  let ?vm = "vm\<lparr>vm_lock := True\<rparr>"
  have nn: "\<not> spdk_uuid_is_null (uu E) vid" using assms(3,6) by (simp add: uuid_ok_def)
  fix i m
  assume a: "i < length (managed_volumes vm) \<and> vol_id (managed_volumes vm ! i) = vid \<and>
      (\<forall>j<i. vol_id (managed_volumes vm ! j) \<noteq> vid) \<and> alloc_meta_wf m \<and>
      contents W db (alloc_key (uu E) vid) = Some (alloc_meta_print E m)"
  then have fi: "find_volume (uu E) vid (managed_volumes ?vm) = Some i"
    using find_volume_Some [OF assms(3)] by simp
  have fe: "fetch_alloc_meta E ?vm vid =
      (if snd (rocksdb_get (rdb E) db (alloc_key (uu E) vid)) = NULL \<and> value_malloc_ok E \<and> meta_malloc_ok E
       then Some m else NULL)"
    using fetch_stored [OF assms(1-3), of ?vm vid m] a assms(7,8) by (simp add: key_reads_def store_map_def)
  have wf: "alloc_meta_wf x" if "(if snd (rocksdb_get (rdb E) db (alloc_key (uu E) vid)) = NULL \<and>
      value_malloc_ok E \<and> meta_malloc_ok E then Some m else NULL) = Some x" for x
    using a that by (auto split: if_splits)
  obtain vm' where d: "delete_found E ?vm vid i = Done (vm', XSAN_OK)"
    "managed_volumes vm' = take i (managed_volumes vm) @ drop (Suc i) (managed_volumes vm)"
    "keys_deleted E W db vid (store_map W (md_store vm'))"
    "disk_manager vm' = (if snd (rocksdb_get (rdb E) db (alloc_key (uu E) vid)) = NULL \<and> value_malloc_ok E \<and> meta_malloc_ok E \<and>
              num_extents m \<noteq> 0
           then fst (free_extents E (disk_manager vm) (disk_group_id m) (take (unat (num_extents m)) (extents m)))
           else disk_manager vm)"
    using delete_found_result [OF assms(1,3) _ assms(8,6) fe wf, of i] assms(7) by (auto split: if_splits)
  then show "\<exists>vm'. xsan_volume_delete E vm vid = Done (vm', XSAN_OK) \<and> \<not> vm_lock vm' \<and>
        managed_volumes vm' = take i (managed_volumes vm) @ drop (Suc i) (managed_volumes vm) \<and>
        keys_deleted E W db vid (store_map W (md_store vm')) \<and>
        disk_manager vm' =
          (if snd (rocksdb_get (rdb E) db (alloc_key (uu E) vid)) = NULL \<and> value_malloc_ok E \<and> meta_malloc_ok E \<and>
              num_extents m \<noteq> 0
           then fst (free_extents E (disk_manager vm) (disk_group_id m) (take (unat (num_extents m)) (extents m)))
           else disk_manager vm)"
    using assms(4,5) nn fi by (simp add: xsan_volume_delete_def lock_free)
next
  assume "vid \<notin> vol_id ` set (managed_volumes vm)"
  then have "find_volume (uu E) vid (managed_volumes vm) = None" by (rule find_volume_None [OF assms(3)])
  moreover have "unlock (vm\<lparr>vm_lock := True\<rparr>) = vm" using assms(4) by (simp add: unlock_def)
  ultimately show "xsan_volume_delete E vm vid = Done (vm, XSAN_ERROR_NOT_FOUND)"
    using assms(3-6) by (simp add: xsan_volume_delete_def lock_free uuid_ok_def)
qed

definition sample_stored_vm :: "(write_log, u64) xsan_volume_manager" where
  "sample_stored_vm = sample_vm\<lparr>managed_volumes := [sample_volume],
     md_store := Some \<lparr>db_handle = Some [(alloc_key sample_uuid 5, alloc_meta_print sample_env sample_meta),
         (volume_key sample_uuid 5, volume_print sample_env sample_volume)],
       db_options = True, write_options = True, read_options = True, db_path_copy = NULL\<rparr>\<rparr>"

theorem volume_delete_spec_witness:
  "\<exists>vm'. xsan_volume_delete sample_env sample_stored_vm 5 = Done (vm', XSAN_OK) \<and> managed_volumes vm' = [] \<and>
     store_map log_view (md_store vm') = Map.empty"
proof -
  let ?vm = sample_stored_vm
  let ?db = "[(alloc_key sample_uuid 5, alloc_meta_print sample_env sample_meta),
         (volume_key sample_uuid 5, volume_print sample_env sample_volume)]"
  let ?s = "\<lparr>db_handle = Some ?db, db_options = True, write_options = True, read_options = True, db_path_copy = NULL\<rparr>"
  have f: "\<not> vm_lock ?vm" "vm_initialized ?vm" "md_store ?vm = Some ?s" "db_handle ?s = Some ?db"
    "managed_volumes ?vm = [sample_volume]" "vol_id sample_volume = 5" "uu sample_env = sample_uuid"
    by (simp_all add: sample_stored_vm_def sample_vm_def sample_env_def sample_volume_def)
  have m: "alloc_meta_wf sample_meta"
    by (simp add: alloc_meta_wf_def sample_meta_def XSAN_MAX_EXTENTS_PER_VOLUME_def)
  have "0 < length (managed_volumes ?vm) \<and> vol_id (managed_volumes ?vm ! 0) = 5 \<and>
      (\<forall>j<0. vol_id (managed_volumes ?vm ! j) \<noteq> 5) \<and> alloc_meta_wf sample_meta \<and>
      contents log_view ?db (alloc_key (uu sample_env) 5) = Some (alloc_meta_print sample_env sample_meta)"
    using f m by (simp add: log_contents)
  with volume_delete_spec [OF sample_env_laws f(1,2) _ f(3,4), of 5]
  obtain vm' where v: "xsan_volume_delete sample_env ?vm 5 = Done (vm', XSAN_OK)"
    "managed_volumes vm' = take 0 (managed_volumes ?vm) @ drop (Suc 0) (managed_volumes ?vm)"
    "keys_deleted sample_env log_view ?db 5 (store_map log_view (md_store vm'))"
    by force
  have "rdb sample_env = log_db" "snd (rocksdb_delete log_db db k) = NULL" for db k
    by (simp_all add: sample_env_def log_db_def)
  with v(3) f(7) have "store_map log_view (md_store vm') k = None" for k
    by (cases "k = alloc_key sample_uuid 5 \<or> k = volume_key sample_uuid 5")
      (auto simp: keys_deleted_def Let_def log_contents)
  with v f show ?thesis by (auto simp: fun_eq_iff)
qed

text \<open>C27: On a free mutex the update returns with the mutex free. The volume is
  online if as many of its replicas are online as it tolerates failures and one more, or all of them
  if it has fewer, degraded if some are online, and offline if none is; nothing else in the list
  changes. Only when the state has changed is the volume written to the database, under its own key. It
  is there afterwards if the store is open, the text could be allocated and RocksDB reports no error
  for the write; what is written reads back as the volume with its new state.\<close>

theorem update_overall_state_spec:
  assumes "rocksdb_ok (rdb E) W" "jsonc_ok (jc E)" "uuid_ok (uu E)" "\<not> vm_lock vm" "i < length (managed_volumes vm)"
    and "volume_wf (managed_volumes vm ! i)" "actual_replica_count (managed_volumes vm ! i) \<noteq> 0"
    and "unat (FTT (managed_volumes vm ! i)) + 1 < 2 ^ 32"
    and "v = (managed_volumes vm ! i)\<lparr>vol_state := state_spec (managed_volumes vm ! i)\<rparr>"
  shows "\<exists>vm' s. xsan_volume_update_overall_state E vm (Some i) = Done vm' \<and> \<not> vm_lock vm' \<and>
    managed_volumes vm' = (managed_volumes vm)[i := v] \<and> disk_manager vm' = disk_manager vm \<and>
    (state_spec (managed_volumes vm ! i) = vol_state (managed_volumes vm ! i) \<longrightarrow> vm' = vm) \<and>
    (\<forall>k. k \<noteq> volume_key (uu E) (vol_id v) \<longrightarrow> store_map W (md_store vm') k = store_map W (md_store vm) k) \<and>
    store_map W (md_store vm') (volume_key (uu E) (vol_id v)) \<in>
      {store_map W (md_store vm) (volume_key (uu E) (vol_id v)), Some s} \<and>
    (\<forall>db. state_spec (managed_volumes vm ! i) \<noteq> vol_state (managed_volumes vm ! i) \<and> volume_strdup_ok E \<and>
       Option.bind (md_store vm) db_handle = Some db \<and>
       snd (rocksdb_put (rdb E) db (volume_key (uu E) (vol_id v)) s) = NULL \<longrightarrow>
       store_map W (md_store vm') (volume_key (uu E) (vol_id v)) = Some s) \<and>
    xsan_json_string_to_volume (jc E) (uu E) True (Some s) True = (XSAN_OK, Some v)"
proof -
  let ?w = "managed_volumes vm ! i"
  let ?vm = "vm\<lparr>managed_volumes := (managed_volumes vm)[i := v]\<rparr>"
  have "unat (actual_replica_count ?w) \<le> length (replica_nodes ?w)" using assms(6) by (simp add: volume_wf_def)
  then have u: "xsan_volume_update_overall_state E vm (Some i) =
    Done (if state_spec ?w = vol_state ?w then vm else fst (xsan_volume_manager_save_volume_meta E ?vm (Some v)))"
    using update_state_result [OF assms(4,5) refl _ assms(7,8), of E] assms(9) by simp
  have "volume_wf v" using assms(6,9) by (simp add: wf_fields)
  then have r: "xsan_json_string_to_volume (jc E) (uu E) True (Some (volume_print E v)) True = (XSAN_OK, Some v)"
    using volume_print_read [OF assms(2,3), of v "[]"] by simp
  have st: "store_map W (md_store (fst (xsan_volume_manager_save_volume_meta E ?vm (Some v)))) k \<in>
      {store_map W (md_store vm) k, if k = volume_key (uu E) (vol_id v) then Some (volume_print E v)
         else store_map W (md_store vm) k}" for k
    using put_frame [OF assms(1), of k "volume_key (uu E) (vol_id v)" "md_store vm" "Some (volume_print E v)"]
      put_at [OF assms(1), of "md_store vm" "volume_key (uu E) (vol_id v)" "volume_print E v"]
    by (auto simp: xsan_volume_manager_save_volume_meta_def xsan_volume_to_json_string_def volume_print_def
        split: option.splits prod.splits)
  have ok: "store_map W (md_store (fst (xsan_volume_manager_save_volume_meta E ?vm (Some v)))) (volume_key (uu E) (vol_id v)) =
      Some (volume_print E v)"
    if "volume_strdup_ok E" "Option.bind (md_store vm) db_handle = Some db"
      "snd (rocksdb_put (rdb E) db (volume_key (uu E) (vol_id v)) (volume_print E v)) = NULL" for db
    using save_meta_stored [OF assms(1,3), of ?vm db v] that by simp
  show ?thesis
  proof (cases "state_spec ?w = vol_state ?w")
    case True
    then show ?thesis using u r assms(4,9) by (intro exI [of _ vm] exI [of _ "volume_print E v"]) simp
  next
    case False
    then show ?thesis
      using u r st ok assms(4)
      by (intro exI [of _ "fst (xsan_volume_manager_save_volume_meta E ?vm (Some v))"]
          exI [of _ "volume_print E v"]) fastforce
  qed
qed

theorem update_overall_state_spec_witness:
  "\<exists>vm'. xsan_volume_update_overall_state sample_env (sample_vm\<lparr>managed_volumes := [sample_volume\<lparr>vol_state := 2\<rparr>]\<rparr>) (Some 0) =
      Done vm' \<and> map vol_state (managed_volumes vm') = [4] \<and>
      store_map log_view (md_store vm') (volume_key sample_uuid 5) \<noteq> None"
proof -
  let ?v = "sample_volume\<lparr>vol_state := 2\<rparr>"
  let ?vm = "sample_vm\<lparr>managed_volumes := [?v]\<rparr>"
  have o: "online_count ?v = 1" "state_spec ?v = 4"
    by (simp_all add: online_count_def state_spec_def sample_volume_def zero_replica_def)
  have w: "volume_wf (managed_volumes ?vm ! 0)" using sample_volume_wf by (simp add: wf_fields)
  have f: "\<not> vm_lock ?vm" "0 < length (managed_volumes ?vm)"
    "actual_replica_count (managed_volumes ?vm ! 0) \<noteq> 0" "unat (FTT (managed_volumes ?vm ! 0)) + 1 < 2 ^ 32"
    by (simp_all add: sample_vm_def sample_volume_def)
  have e: "volume_strdup_ok sample_env" "Option.bind (md_store ?vm) db_handle = Some []"
    "snd (rocksdb_put (rdb sample_env) [] k x) = NULL" "uu sample_env = sample_uuid" "vol_id sample_volume = 5" for k x
    by (simp_all add: sample_env_def sample_vm_def log_db_def sample_volume_def)
  from update_overall_state_spec [OF sample_env_laws f(1,2) w f(3,4) refl] o e show ?thesis by auto
qed

text \<open>C28: Loading always ends. It returns success with the manager unchanged when no
  entry under the prefix of the volumes can be read as JSON, and deadlocks as soon as one can: the
  state of the volume is updated while the mutex is still held, and the update locks it again.\<close>

theorem load_metadata_outcome:
  assumes "rocksdb_ok (rdb E) W" "vm_initialized vm" "\<not> vm_lock vm" "md_store vm = Some s" "db_handle s = Some db"
    and "iter_malloc_ok E" "rocksdb_create_iterator (rdb E) db \<noteq> NULL" "volume_malloc_ok E" "list_append_ok E"
  shows "xsan_volume_manager_load_metadata E vm =
    Some (if \<exists>k v. contents W db k = Some v \<and> take 2 k = ''v:'' \<and> json_tokener_parse (jc E) (v @ behind E v) \<noteq> NULL
          then Deadlock else Done (vm, XSAN_OK))"
  using load_metadata_result [OF assms(1-7)] assms(8,9) by (simp add: loads_def)

theorem load_metadata_outcome_witness:
  "xsan_volume_manager_load_metadata sample_env sample_vm = Some (Done (sample_vm, XSAN_OK)) \<and>
   xsan_volume_manager_load_metadata sample_env sample_stored_vm = Some Deadlock"
proof
  have e: "iter_malloc_ok sample_env" "rocksdb_create_iterator (rdb sample_env) db \<noteq> NULL" "volume_malloc_ok sample_env"
    "list_append_ok sample_env" for db
    by (simp_all add: sample_env_def log_db_def)
  let ?s = "\<lambda>db. \<lparr>db_handle = Some db, db_options = True, write_options = True, read_options = True, db_path_copy = NULL\<rparr>"
  let ?db = "[(alloc_key sample_uuid 5, alloc_meta_print sample_env sample_meta),
         (volume_key sample_uuid 5, volume_print sample_env sample_volume)]"
  show "xsan_volume_manager_load_metadata sample_env sample_vm = Some (Done (sample_vm, XSAN_OK))"
    using load_metadata_outcome [OF sample_env_laws(1) _ _ _ _ e, of sample_vm "?s []" "[]"]
    by (simp add: sample_vm_def log_contents)
  have "contents log_view ?db (volume_key sample_uuid 5) = Some (volume_print sample_env sample_volume)"
    using keys_distinct [OF sample_uuid_ok, of 5 5] by (simp add: log_contents)
  moreover have "take 2 (volume_key sample_uuid 5) = ''v:''"
    by (simp add: volume_key_eq [OF sample_uuid_ok])
  moreover have "json_tokener_parse (jc sample_env) (x @ y) \<noteq> NULL" for x y
    by (simp add: sample_env_def sample_json_def)
  ultimately show "xsan_volume_manager_load_metadata sample_env sample_stored_vm = Some Deadlock"
    using load_metadata_outcome [OF sample_env_laws(1) _ _ _ _ e, of sample_stored_vm "?s ?db" ?db]
    by (auto simp: sample_stored_vm_def sample_vm_def)
qed

end
