(* ===== verification/VolumeMapping.thy ===== *)
theory VolumeMapping
  imports VolumeProps
begin

text \<open>
  The map from the logical blocks of a volume to the physical blocks of its disks
  (\<^verbatim>\<open>xsan_volume_map_lba_to_physical\<close> of src/storage/volume\_manager.c): the arithmetic of one extent, the
  search over the extents, and the map as a whole.
\<close>

section \<open>One extent\<close>

text \<open>An extent whose sizes stay within 64 bits, on a disk whose blocks divide those of the volume.\<close>

definition extent_fits :: "xsan_volume_extent_mapping \<Rightarrow> xsan_disk \<Rightarrow> u32 \<Rightarrow> bool" where
  "extent_fits e d lbs \<longleftrightarrow>
     disk_block_size_bytes d \<noteq> 0 \<and> lbs \<noteq> 0 \<and> unat (disk_block_size_bytes d) dvd unat lbs \<and>
     unat (num_blocks_on_disk e) * unat (disk_block_size_bytes d) < 2 ^ 64 \<and>
     unat (start_block_on_disk e) + unat (num_blocks_on_disk e) < 2 ^ 64 \<and>
     unat (volume_start_lba e) +
       unat (num_blocks_on_disk e) * unat (disk_block_size_bytes d) div unat lbs < 2 ^ 64"

definition extent_holds :: "xsan_volume_extent_mapping \<Rightarrow> xsan_disk \<Rightarrow> u32 \<Rightarrow> u64 \<Rightarrow> bool" where
  "extent_holds e d lbs lba \<longleftrightarrow>
     unat (volume_start_lba e) \<le> unat lba \<and>
     unat lba < unat (volume_start_lba e) +
       unat (num_blocks_on_disk e) * unat (disk_block_size_bytes d) div unat lbs"

lemma extent_words:
  assumes "extent_fits e d lbs"
  shows "unat (extent_bytes e d) = unat (num_blocks_on_disk e) * unat (disk_block_size_bytes d)"
    "unat (extent_volume_blocks e d lbs) =
       unat (num_blocks_on_disk e) * unat (disk_block_size_bytes d) div unat lbs"
    "unat (volume_start_lba e + extent_volume_blocks e d lbs) =
       unat (volume_start_lba e) + unat (num_blocks_on_disk e) * unat (disk_block_size_bytes d) div unat lbs"
proof -
  show a: "unat (extent_bytes e d) = unat (num_blocks_on_disk e) * unat (disk_block_size_bytes d)"
    using assms by (simp add: extent_bytes_def unat_mult_small extent_fits_def)
  show b: "unat (extent_volume_blocks e d lbs) =
       unat (num_blocks_on_disk e) * unat (disk_block_size_bytes d) div unat lbs"
    using a by (simp add: extent_volume_blocks_def unat_div)
  show "unat (volume_start_lba e + extent_volume_blocks e d lbs) =
       unat (volume_start_lba e) + unat (num_blocks_on_disk e) * unat (disk_block_size_bytes d) div unat lbs"
    using assms b by (simp add: unat_add_small extent_fits_def)
qed

lemma extent_holds_iff:
  assumes "extent_fits e d lbs"
  shows "lba \<ge> volume_start_lba e \<and> lba < volume_start_lba e + extent_volume_blocks e d lbs \<longleftrightarrow>
    extent_holds e d lbs lba"
  using extent_words [OF assms] by (simp add: extent_holds_def word_le_nat_alt word_less_nat_alt)

text \<open>The physical place of a block: its distance from the start of the extent, in physical blocks.\<close>

definition physical_block :: "xsan_volume_extent_mapping \<Rightarrow> xsan_disk \<Rightarrow> u32 \<Rightarrow> u64 \<Rightarrow> nat" where
  "physical_block e d lbs lba = unat (start_block_on_disk e) +
     (unat lba - unat (volume_start_lba e)) * (unat lbs div unat (disk_block_size_bytes d))"

lemma map_in_extent_exact:
  assumes fits: "extent_fits e d lbs" and holds: "extent_holds e d lbs lba"
  shows "\<exists>p. map_in_extent lbs lba e d = Inr (disk_id e, p, disk_block_size_bytes d) \<and>
    unat p = physical_block e d lbs lba \<and>
    physical_block e d lbs lba + unat lbs div unat (disk_block_size_bytes d) \<le>
      unat (start_block_on_disk e) + unat (num_blocks_on_disk e)"
proof -
  define b L N k q where defs: "b = unat (disk_block_size_bytes d)" "L = unat lbs" "N = unat (num_blocks_on_disk e)"
    "k = unat lba - unat (volume_start_lba e)" "q = L div b"
  have pos: "0 < b" "0 < L" "L = q * b"
    using fits by (auto simp: defs extent_fits_def unat_gt_0)
  have "Suc k \<le> N * b div L" using holds by (auto simp: defs extent_holds_def)
  then have "Suc k * L \<le> N * b" using pos(2) by (meson div_times_less_eq_dividend le_trans mult_le_mono1)
  then have blocks: "Suc k * q \<le> N" and bytes: "k * L + L \<le> N * b" using pos by (simp_all add: algebra_simps)
      (metis mult.assoc mult_Suc_right mult_le_cancel2 add.commute mult.commute)
  have small: "k * L + L < 2 ^ 64" using bytes fits by (simp add: defs extent_fits_def)
  let ?o = "(lba - volume_start_lba e) * ucast lbs :: u64"
  have k: "unat (lba - volume_start_lba e) = k"
    using holds by (simp add: defs extent_holds_def unat_sub word_le_nat_alt)
  then have o: "unat ?o = k * L" using small by (simp add: unat_mult_small defs)
  then have "unat (?o + ucast lbs) = k * L + L" using small by (simp add: unat_add_small defs)
  then have no: "\<not> ?o + ucast lbs > extent_bytes e d"
    using bytes extent_words(1) [OF fits] by (simp add: word_less_nat_alt defs)
  let ?p = "start_block_on_disk e + ?o div ucast (disk_block_size_bytes d)"
  have "k * L div b = k * q" using pos by (metis mult.assoc nonzero_mult_div_cancel_right less_not_refl)
  then have "unat (?o div ucast (disk_block_size_bytes d)) = k * q"
    using o by (simp add: unat_div defs(1) [symmetric])
  moreover have "k * q + q \<le> N" using blocks by simp
  moreover from this have "unat (start_block_on_disk e) + k * q < 2 ^ 64" using fits by (simp add: defs extent_fits_def)
  ultimately have "unat ?p = unat (start_block_on_disk e) + k * q" by (simp add: unat_add_small)
  then show ?thesis
    using no \<open>k * q + q \<le> N\<close> by (simp add: map_in_extent_def physical_block_def Let_def defs)
qed

section \<open>The extents of a volume\<close>

definition extents_disjoint :: "xsan_volume_extent_mapping \<Rightarrow> xsan_volume_extent_mapping \<Rightarrow> bool" where
  "extents_disjoint e f \<longleftrightarrow> disk_id e \<noteq> disk_id f \<or>
     unat (start_block_on_disk e) + unat (num_blocks_on_disk e) \<le> unat (start_block_on_disk f) \<or>
     unat (start_block_on_disk f) + unat (num_blocks_on_disk f) \<le> unat (start_block_on_disk e)"

definition extents_ok :: "('db, 'it, 'dm) vm_env \<Rightarrow> 'dm \<Rightarrow> u32 \<Rightarrow> xsan_volume_extent_mapping list \<Rightarrow> bool" where
  "extents_ok E dm lbs es \<longleftrightarrow>
     (\<forall>e\<in>set es. \<exists>d. find_disk_by_id E dm (disk_id e) = Some d \<and> extent_fits e d lbs) \<and>
     (\<forall>i<length es. \<forall>j<length es. i \<noteq> j \<longrightarrow> extents_disjoint (es ! i) (es ! j))"

definition extents_cover :: "('db, 'it, 'dm) vm_env \<Rightarrow> 'dm \<Rightarrow> u32 \<Rightarrow> xsan_volume_extent_mapping list \<Rightarrow> u64 \<Rightarrow> bool" where
  "extents_cover E dm lbs es lba \<longleftrightarrow>
     (\<exists>e\<in>set es. \<exists>d. find_disk_by_id E dm (disk_id e) = Some d \<and> extent_holds e d lbs lba)"

lemma scan_extents_found:
  assumes "\<forall>e\<in>set es. \<exists>d. find_disk_by_id E dm (disk_id e) = Some d \<and> extent_fits e d lbs"
    and "extents_cover E dm lbs es lba"
  shows "\<exists>i d. i < length es \<and> find_disk_by_id E dm (disk_id (es ! i)) = Some d \<and> extent_holds (es ! i) d lbs lba \<and>
    scan_extents E dm lbs lba es = Some (map_in_extent lbs lba (es ! i) d)"
  using assms
proof (induction es)
  case (Cons e es)
  obtain d where d: "find_disk_by_id E dm (disk_id e) = Some d" "extent_fits e d lbs" using Cons.prems(1) by auto
  then have nz: "disk_block_size_bytes d \<noteq> 0" by (simp add: extent_fits_def)
  show ?case
  proof (cases "extent_holds e d lbs lba")
    case True
    then show ?thesis
      using d nz extent_holds_iff [OF d(2), of lba] by (intro exI [of _ 0] exI [of _ d]) simp
  next
    case False
    then have "extents_cover E dm lbs es lba" using Cons.prems(2) d(1) by (auto simp: extents_cover_def)
    then obtain i d' where "i < length es" "find_disk_by_id E dm (disk_id (es ! i)) = Some d'"
      "extent_holds (es ! i) d' lbs lba" "scan_extents E dm lbs lba es = Some (map_in_extent lbs lba (es ! i) d')"
      using Cons.IH Cons.prems(1) by auto
    then show ?thesis
      using False d nz extent_holds_iff [OF d(2), of lba] by (intro exI [of _ "Suc i"] exI [of _ d']) auto
  qed
qed (simp add: extents_cover_def)

lemma scan_extents_unmapped:
  assumes "\<forall>e\<in>set es. \<exists>d. find_disk_by_id E dm (disk_id e) = Some d \<and> extent_fits e d lbs"
    and "\<not> extents_cover E dm lbs es lba"
  shows "scan_extents E dm lbs lba es = None"
  using assms
proof (induction es)
  case (Cons e es)
  obtain d where d: "find_disk_by_id E dm (disk_id e) = Some d" "extent_fits e d lbs" using Cons.prems(1) by auto
  then have "disk_block_size_bytes d \<noteq> 0" "\<not> extent_holds e d lbs lba" "\<not> extents_cover E dm lbs es lba"
    using Cons.prems(2) by (auto simp: extent_fits_def extents_cover_def)
  then show ?case using Cons d extent_holds_iff [OF d(2), of lba] by auto
qed simp

section \<open>The map\<close>

text \<open>The metadata of a volume is stored under its key, from where RocksDB reads it without an error.\<close>

definition meta_stored ::
  "('db, 'it, 'dm) vm_env \<Rightarrow> ('db, 'it) rocksdb_view \<Rightarrow> ('db, 'dm) xsan_volume_manager \<Rightarrow> uuid
     \<Rightarrow> xsan_volume_allocation_meta \<Rightarrow> bool" where
  "meta_stored E W vm vid m \<longleftrightarrow>
     rocksdb_ok (rdb E) W \<and> key_reads (rdb E) (md_store vm) (alloc_key (uu E) vid) \<and> jsonc_ok (jc E) \<and> uuid_ok (uu E) \<and>
     vm_initialized vm \<and> vid \<noteq> 0 \<and> value_malloc_ok E \<and> meta_malloc_ok E \<and>
     alloc_meta_wf m \<and> store_map W (md_store vm) (alloc_key (uu E) vid) = Some (alloc_meta_print E m)"

lemma map_lba_stored:
  assumes m: "meta_stored E W vm vid m" and vol: "volume_get_by_id E vm vid = Some vol" "lba < num_blocks vol"
  shows "xsan_volume_map_lba_to_physical E vm vid lba True = map_with_meta E (disk_manager vm) lba m"
proof -
  have l: "rocksdb_ok (rdb E) W" "key_reads (rdb E) (md_store vm) (alloc_key (uu E) vid)" "jsonc_ok (jc E)" "uuid_ok (uu E)"
    "alloc_meta_wf m"
    "store_map W (md_store vm) (alloc_key (uu E) vid) = Some (alloc_meta_print E m)"
    using m by (simp_all add: meta_stored_def)
  have "\<not> spdk_uuid_is_null (uu E) vid" using m by (simp add: meta_stored_def uuid_ok_def)
  then show ?thesis
    using m vol get_stored [OF l(1,2) keys_not_Nil(2) [OF l(4)]] l(6)
      alloc_meta_print_read [OF l(3-5), of "[]"]
    by (auto simp: xsan_volume_map_lba_to_physical_def meta_stored_def)
qed

lemma map_with_meta_mapped:
  assumes m: "alloc_meta_wf m" and ok: "extents_ok E dm (volume_logical_block_size m) (take (unat (num_extents m)) (extents m))"
    and cov: "extents_cover E dm (volume_logical_block_size m) (take (unat (num_extents m)) (extents m)) lba"
  shows "\<exists>i d p. i < unat (num_extents m) \<and> find_disk_by_id E dm (disk_id (extents m ! i)) = Some d \<and>
    extent_fits (extents m ! i) d (volume_logical_block_size m) \<and>
    extent_holds (extents m ! i) d (volume_logical_block_size m) lba \<and>
    map_with_meta E dm lba m = Done (Inr (disk_id (extents m ! i), p, disk_block_size_bytes d)) \<and>
    unat p = physical_block (extents m ! i) d (volume_logical_block_size m) lba \<and>
    unat p + unat (volume_logical_block_size m) div unat (disk_block_size_bytes d) \<le>
      unat (start_block_on_disk (extents m ! i)) + unat (num_blocks_on_disk (extents m ! i))"
proof -
  let ?es = "take (unat (num_extents m)) (extents m)" and ?lbs = "volume_logical_block_size m"
  obtain i d where i: "i < length ?es" "find_disk_by_id E dm (disk_id (?es ! i)) = Some d"
    "extent_holds (?es ! i) d ?lbs lba" "scan_extents E dm ?lbs lba ?es = Some (map_in_extent ?lbs lba (?es ! i) d)"
    using scan_extents_found [OF _ cov] ok by (auto simp: extents_ok_def)
  have fit: "extent_fits (?es ! i) d ?lbs" using ok i(1,2) nth_mem [OF i(1)] by (fastforce simp: extents_ok_def)
  have nz: "?lbs \<noteq> 0" "num_extents m \<noteq> 0" using fit i(1) by (auto simp: extent_fits_def)
  have "?es ! i = extents m ! i" using i(1) by simp
  then show ?thesis
    using i fit nz map_in_extent_exact [OF fit i(3)] by (auto simp: map_with_meta_def)
qed

lemma sample_meta_stored: "meta_stored sample_env log_view sample_stored_vm 5 sample_meta"
proof -
  have "alloc_meta_wf sample_meta"
    by (simp add: alloc_meta_wf_def sample_meta_def XSAN_MAX_EXTENTS_PER_VOLUME_def)
  then show ?thesis
    using sample_env_laws sample_env_reads [of "md_store sample_stored_vm"]
    by (simp add: meta_stored_def sample_stored_vm_def sample_vm_def store_opened_def store_map_def log_contents)
      (simp add: sample_env_def)
qed

text \<open>Two blocks of one extent, and blocks of two extents, never overlap.\<close>

lemma physical_apart:
  assumes "extent_fits e d lbs" "extent_holds e d lbs l1" "extent_holds e d lbs l2" "l1 \<noteq> l2"
  shows "physical_block e d lbs l1 + unat lbs div unat (disk_block_size_bytes d) \<le> physical_block e d lbs l2 \<or>
    physical_block e d lbs l2 + unat lbs div unat (disk_block_size_bytes d) \<le> physical_block e d lbs l1"
proof -
  let ?q = "unat lbs div unat (disk_block_size_bytes d)" and ?v = "unat (volume_start_lba e)"
  have "(a - ?v) * ?q + ?q \<le> (b - ?v) * ?q" if "a < b" "?v \<le> a" for a b
  proof -
    have "Suc (a - ?v) \<le> b - ?v" using that by simp
    then have "Suc (a - ?v) * ?q \<le> (b - ?v) * ?q" by (rule mult_le_mono1)
    then show ?thesis by simp
  qed
  moreover have "unat l1 < unat l2 \<or> unat l2 < unat l1" using assms(4) by (metis linorder_neqE_nat word_unat_eq_iff)
  ultimately show ?thesis using assms(2,3) by (auto simp: physical_block_def extent_holds_def)
qed

lemma unmapped_result:
  assumes "alloc_meta_wf m" "volume_logical_block_size m \<noteq> 0"
    "extents_ok E dm (volume_logical_block_size m) (take (unat (num_extents m)) (extents m))"
    "\<not> extents_cover E dm (volume_logical_block_size m) (take (unat (num_extents m)) (extents m)) lba"
  shows "map_with_meta E dm lba m = Done (Inl XSAN_ERROR_UNMAPPED_LBA)"
  using assms scan_extents_unmapped [OF _ assms(4)]
  by (simp add: map_with_meta_def extents_ok_def alloc_meta_wf_def)

text \<open>On a disk with blocks larger than those of the volume, neighbouring blocks share a physical block and
  nothing in the result tells them apart.\<close>

lemma map_lba_collision:
  "map_in_extent 512 0 \<lparr>disk_id = 9, start_block_on_disk = 100, num_blocks_on_disk = 10, volume_start_lba = 0\<rparr>
      \<lparr>disk_block_size_bytes = 4096, disk_uuid = 9, disk_bdev_name = ''Malloc0'', bdev_descriptor = True\<rparr> =
   map_in_extent 512 1 \<lparr>disk_id = 9, start_block_on_disk = 100, num_blocks_on_disk = 10, volume_start_lba = 0\<rparr>
      \<lparr>disk_block_size_bytes = 4096, disk_uuid = 9, disk_bdev_name = ''Malloc0'', bdev_descriptor = True\<rparr>"
  by (simp add: map_in_extent_def extent_bytes_def)

lemma mapped_pair:
  assumes wf: "alloc_meta_wf m" and es: "es = take (unat (num_extents m)) (extents m)" "lbs = volume_logical_block_size m"
    and ok: "extents_ok E dm lbs es" and cov: "extents_cover E dm lbs es l1" "extents_cover E dm lbs es l2"
  shows "\<exists>d1 p1 b1 d2 p2 b2. map_with_meta E dm l1 m = Done (Inr (d1, p1, b1)) \<and>
    map_with_meta E dm l2 m = Done (Inr (d2, p2, b2)) \<and>
    (\<exists>e\<in>set es. disk_id e = d1 \<and> unat (start_block_on_disk e) \<le> unat p1 \<and>
      unat p1 + unat lbs div unat b1 \<le> unat (start_block_on_disk e) + unat (num_blocks_on_disk e)) \<and>
    (l1 \<noteq> l2 \<longrightarrow> d1 \<noteq> d2 \<or> unat p1 + unat lbs div unat b1 \<le> unat p2 \<or> unat p2 + unat lbs div unat b2 \<le> unat p1)"
proof -
  note mapped = map_with_meta_mapped [OF wf ok [unfolded es], folded es]
  obtain i d p where 1: "i < unat (num_extents m)" "find_disk_by_id E dm (disk_id (extents m ! i)) = Some d"
    "extent_fits (extents m ! i) d lbs" "extent_holds (extents m ! i) d lbs l1"
    "map_with_meta E dm l1 m = Done (Inr (disk_id (extents m ! i), p, disk_block_size_bytes d))"
    "unat p = physical_block (extents m ! i) d lbs l1"
    "unat p + unat lbs div unat (disk_block_size_bytes d) \<le>
      unat (start_block_on_disk (extents m ! i)) + unat (num_blocks_on_disk (extents m ! i))"
    using mapped [OF cov(1)] by blast
  obtain j f q where 2: "j < unat (num_extents m)" "find_disk_by_id E dm (disk_id (extents m ! j)) = Some f"
    "extent_fits (extents m ! j) f lbs" "extent_holds (extents m ! j) f lbs l2"
    "map_with_meta E dm l2 m = Done (Inr (disk_id (extents m ! j), q, disk_block_size_bytes f))"
    "unat q = physical_block (extents m ! j) f lbs l2"
    "unat q + unat lbs div unat (disk_block_size_bytes f) \<le>
      unat (start_block_on_disk (extents m ! j)) + unat (num_blocks_on_disk (extents m ! j))"
    using mapped [OF cov(2)] by blast
  have len: "length es = unat (num_extents m)" using wf es(1) by (simp add: alloc_meta_wf_def)
  have nth: "es ! i = extents m ! i" "es ! j = extents m ! j" "extents m ! i \<in> set es"
    using 1(1) 2(1) len nth_mem [of i es] by (simp_all add: es(1))
  have lo: "unat (start_block_on_disk (extents m ! i)) \<le> unat p" "unat (start_block_on_disk (extents m ! j)) \<le> unat q"
    using 1(6) 2(6) by (simp_all add: physical_block_def)
  have "i \<noteq> j \<Longrightarrow> extents_disjoint (extents m ! i) (extents m ! j)"
    using ok 1(1) 2(1) len nth unfolding extents_ok_def by metis
  then have "l1 \<noteq> l2 \<Longrightarrow> disk_id (extents m ! i) \<noteq> disk_id (extents m ! j) \<or>
      unat p + unat lbs div unat (disk_block_size_bytes d) \<le> unat q \<or>
      unat q + unat lbs div unat (disk_block_size_bytes f) \<le> unat p"
    using physical_apart [OF 1(3,4), of l2] 1 2 lo by (cases "i = j") (auto simp: extents_disjoint_def)
  then show ?thesis using 1(5,7) 2(5) lo(1) nth(3) by blast
qed

section \<open>Property\<close>

text \<open>C18: For a volume whose allocation metadata is stored, with extents that stay within 64
  bits, do not overlap and lie on disks whose block size divides that of the volume, every block below
  the end of the volume that an extent covers is mapped to a range of physical blocks inside that
  extent, and two different blocks to ranges that do not overlap. A block that no extent covers is
  reported as unmapped, and one behind the end as out of bounds.\<close>

theorem map_lba_correct:
  assumes "meta_stored E W vm vid m" "volume_get_by_id E vm vid = Some vol" "volume_logical_block_size m \<noteq> 0"
    and "es = take (unat (num_extents m)) (extents m)" "lbs = volume_logical_block_size m" "dm = disk_manager vm"
    and "extents_ok E dm lbs es"
  shows "(\<forall>l1 l2. l1 < num_blocks vol \<and> l2 < num_blocks vol \<and> extents_cover E dm lbs es l1 \<and> extents_cover E dm lbs es l2 \<longrightarrow>
      (\<exists>d1 p1 b1 d2 p2 b2.
        xsan_volume_map_lba_to_physical E vm vid l1 True = Done (Inr (d1, p1, b1)) \<and>
        xsan_volume_map_lba_to_physical E vm vid l2 True = Done (Inr (d2, p2, b2)) \<and>
        (\<exists>e\<in>set es. disk_id e = d1 \<and> unat (start_block_on_disk e) \<le> unat p1 \<and>
          unat p1 + unat lbs div unat b1 \<le> unat (start_block_on_disk e) + unat (num_blocks_on_disk e)) \<and>
        (l1 \<noteq> l2 \<longrightarrow> d1 \<noteq> d2 \<or> unat p1 + unat lbs div unat b1 \<le> unat p2 \<or> unat p2 + unat lbs div unat b2 \<le> unat p1))) \<and>
    (\<forall>l. l < num_blocks vol \<and> \<not> extents_cover E dm lbs es l \<longrightarrow>
      xsan_volume_map_lba_to_physical E vm vid l True = Done (Inl XSAN_ERROR_UNMAPPED_LBA)) \<and>
    (\<forall>l. num_blocks vol \<le> l \<longrightarrow> xsan_volume_map_lba_to_physical E vm vid l True = Done (Inl XSAN_ERROR_OUT_OF_BOUNDS))"
proof (intro conjI allI impI)
  have wf: "alloc_meta_wf m" using assms(1) by (simp add: meta_stored_def)
  note st = map_lba_stored [OF assms(1,2), folded assms(6)]
  fix l1 l2
  assume a: "l1 < num_blocks vol \<and> l2 < num_blocks vol \<and> extents_cover E dm lbs es l1 \<and> extents_cover E dm lbs es l2"
  with mapped_pair [OF wf assms(4,5,7), of l1 l2] st [of l1] st [of l2]
  show "\<exists>d1 p1 b1 d2 p2 b2.
        xsan_volume_map_lba_to_physical E vm vid l1 True = Done (Inr (d1, p1, b1)) \<and>
        xsan_volume_map_lba_to_physical E vm vid l2 True = Done (Inr (d2, p2, b2)) \<and>
        (\<exists>e\<in>set es. disk_id e = d1 \<and> unat (start_block_on_disk e) \<le> unat p1 \<and>
          unat p1 + unat lbs div unat b1 \<le> unat (start_block_on_disk e) + unat (num_blocks_on_disk e)) \<and>
        (l1 \<noteq> l2 \<longrightarrow> d1 \<noteq> d2 \<or> unat p1 + unat lbs div unat b1 \<le> unat p2 \<or> unat p2 + unat lbs div unat b2 \<le> unat p1)"
    by simp
next
  fix l
  assume "l < num_blocks vol \<and> \<not> extents_cover E dm lbs es l"
  then show "xsan_volume_map_lba_to_physical E vm vid l True = Done (Inl XSAN_ERROR_UNMAPPED_LBA)"
    using map_lba_stored [OF assms(1,2), of l] unmapped_result [of m E dm l] assms by (simp add: meta_stored_def)
next
  fix l
  assume "num_blocks vol \<le> l"
  then show "xsan_volume_map_lba_to_physical E vm vid l True = Done (Inl XSAN_ERROR_OUT_OF_BOUNDS)"
    using assms(1,2) by (auto simp: xsan_volume_map_lba_to_physical_def meta_stored_def uuid_ok_def)
qed

theorem map_lba_correct_witness:
  "\<exists>p1 p2. xsan_volume_map_lba_to_physical sample_env sample_stored_vm 5 3 True = Done (Inr (9, p1, 512)) \<and>
     xsan_volume_map_lba_to_physical sample_env sample_stored_vm 5 4 True = Done (Inr (9, p2, 512)) \<and> p1 \<noteq> p2"
proof -
  let ?E = sample_env and ?vm = sample_stored_vm
  let ?e = "\<lparr>disk_id = 9, start_block_on_disk = 2 ^ 40, num_blocks_on_disk = 100, volume_start_lba = 0\<rparr>
    :: xsan_volume_extent_mapping"
  have d: "find_disk_by_id ?E dm 9 = Some \<lparr>disk_block_size_bytes = 512, disk_uuid = 9, disk_bdev_name = ''Malloc0'', bdev_descriptor = True\<rparr>" for dm by (simp add: sample_env_def)
  note st = sample_meta_stored
  have vol: "volume_get_by_id ?E ?vm 5 = Some sample_volume"
    by (simp add: sample_env_def sample_stored_vm_def sample_volume_def)
  have es: "take (unat (num_extents sample_meta)) (extents sample_meta) = [?e]"
    "volume_logical_block_size sample_meta = 4096" "num_blocks sample_volume = 100"
    by (simp_all add: sample_meta_def sample_volume_def)
  have ok: "extents_ok ?E (disk_manager ?vm) 4096 [?e]"
    by (simp add: extents_ok_def d extent_fits_def)
  have cov: "extents_cover ?E (disk_manager ?vm) 4096 [?e] l" if "unat l < 12" for l
    using that by (simp add: extents_cover_def d extent_holds_def)
  have pre: "(3 :: u64) < num_blocks sample_volume \<and> 4 < num_blocks sample_volume \<and>
      extents_cover ?E (disk_manager ?vm) 4096 [?e] 3 \<and> extents_cover ?E (disk_manager ?vm) 4096 [?e] 4"
    using es(3) cov [of 3] cov [of 4] by (simp add: word_less_nat_alt)
  have nz: "volume_logical_block_size sample_meta \<noteq> 0" using es(2) by simp
  note c = map_lba_correct [OF st vol nz es(1) [symmetric] es(2) [symmetric] refl ok]
  obtain d1 p1 b1 d2 p2 b2 where r: "xsan_volume_map_lba_to_physical ?E ?vm 5 3 True = Done (Inr (d1, p1, b1))"
    "xsan_volume_map_lba_to_physical ?E ?vm 5 4 True = Done (Inr (d2, p2, b2))"
    "d1 \<noteq> d2 \<or> unat p1 + 4096 div unat b1 \<le> unat p2 \<or> unat p2 + 4096 div unat b2 \<le> unat p1"
    using c [THEN conjunct1, THEN spec [of _ 3], THEN spec [of _ 4], THEN mp, OF pre] by auto
  moreover have "d1 = 9 \<and> b1 = 512" "d2 = 9 \<and> b2 = 512"
    using r map_lba_stored [OF st vol, of 3] map_lba_stored [OF st vol, of 4] es
    by (auto simp: word_less_nat_alt map_with_meta_def map_in_extent_def d Let_def split: if_splits option.splits)
  ultimately show ?thesis by auto
qed

end
