(* ===== verification/Bdev.thy ===== *)
theory Bdev
  imports VolumeMeta
begin

text \<open>
  The wrapper of the SPDK block devices in src/bdev/xsan\_bdev.c: what it reports of a device, the DMA
  buffers, and the reads and writes that wait for their completion.

  SPDK is a parameter. The record \<open>bdev_env\<close> has what its functions answer during one call, and
  \<open>spdk_device\<close> what a transfer does to the device and to the buffer; \<open>device_ok\<close> and \<open>dma_ok\<close> are the
  documented behaviour that the properties rely on. The loop that polls for the completion may run
  forever: it is a partial function, and a call that does not return has no value.
\<close>

section \<open>SPDK\<close>

record spdk_bdev =
  spdk_bdev_get_name :: string
  spdk_bdev_get_uuid :: "uuid ptr"
  spdk_bdev_get_num_blocks :: u64
  spdk_bdev_get_block_size :: u32
  spdk_bdev_get_product_name :: string
  spdk_bdev_is_rotational :: bool
  spdk_bdev_get_optimal_io_boundary :: u32
  spdk_bdev_has_write_cache :: bool
  spdk_bdev_get_buf_align :: u64

text \<open>The answers during one call. \<open>spdk_dma_malloc\<close> gives the bytes of the fresh buffer and
  \<open>io_completion k\<close> tells whether the transfer has ended after \<open>k\<close> polls, and how.\<close>

record bdev_env =
  spdk_thread :: bool
  spdk_bdev_list :: "spdk_bdev list"
  spdk_bdev_get_by_name :: "string \<Rightarrow> spdk_bdev ptr"
  info_malloc_ok :: bool
  open_rc :: int
  channel_ok :: bool
  spdk_dma_malloc :: "u64 \<Rightarrow> u64 \<Rightarrow> u8 list ptr"
  submit_rc :: int
  io_completion :: "nat \<Rightarrow> bool ptr"

definition dma_ok :: "bdev_env \<Rightarrow> bool" where
  "dma_ok E \<longleftrightarrow> (\<forall>n a b. spdk_dma_malloc E n a = Some b \<longrightarrow> length b = unat n)"

text \<open>A transfer of \<open>n\<close> blocks from block \<open>off\<close> on. A transfer that fails leaves the buffer or the device
  in a state of which nothing is said.\<close>

record 'dev spdk_device =
  dev_read :: "'dev \<Rightarrow> u64 \<Rightarrow> u32 \<Rightarrow> u8 list"
  dev_write :: "'dev \<Rightarrow> u64 \<Rightarrow> u32 \<Rightarrow> u8 list \<Rightarrow> 'dev"
  dev_read_failed :: "'dev \<Rightarrow> u64 \<Rightarrow> u32 \<Rightarrow> u8 list \<Rightarrow> u8 list"
  dev_write_failed :: "'dev \<Rightarrow> u64 \<Rightarrow> u32 \<Rightarrow> u8 list \<Rightarrow> 'dev"

definition apart :: "u64 \<Rightarrow> u32 \<Rightarrow> u64 \<Rightarrow> u32 \<Rightarrow> bool" where
  "apart off n off' n' \<longleftrightarrow> unat off + unat n \<le> unat off' \<or> unat off' + unat n' \<le> unat off"

definition device_ok :: "'dev spdk_device \<Rightarrow> u32 \<Rightarrow> bool" where
  "device_ok D bs \<longleftrightarrow>
     (\<forall>d off n. length (dev_read D d off n) = unat n * unat bs) \<and>
     (\<forall>d off n data. length data = unat n * unat bs \<longrightarrow>
        dev_read D (dev_write D d off n data) off n = data) \<and>
     (\<forall>d off n data off' n'. length data = unat n * unat bs \<and> apart off n off' n' \<longrightarrow>
        dev_read D (dev_write D d off n data) off' n' = dev_read D d off' n')"

text \<open>What is taken from SPDK and given back.\<close>

datatype io_resource = R_desc | R_channel | R_dma

section \<open>Devices\<close>

record xsan_bdev_info =
  bi_name :: string
  bi_uuid :: uuid
  bi_num_blocks :: u64
  bi_block_size :: u32
  bi_capacity_bytes :: u64
  bi_product_name :: string
  bi_is_rotational :: bool
  bi_optimal_io_boundary :: u32
  bi_has_write_cache :: bool

definition xsan_bdev_populate_info :: "spdk_bdev \<Rightarrow> xsan_bdev_info" where
  "xsan_bdev_populate_info bdev =
     \<lparr>bi_name = string_field XSAN_MAX_NAME_LEN (Some (spdk_bdev_get_name bdev)),
      bi_uuid = (case spdk_bdev_get_uuid bdev of Some u \<Rightarrow> u | NULL \<Rightarrow> 0),
      bi_num_blocks = spdk_bdev_get_num_blocks bdev,
      bi_block_size = spdk_bdev_get_block_size bdev,
      bi_capacity_bytes = spdk_bdev_get_num_blocks bdev * ucast (spdk_bdev_get_block_size bdev),
      bi_product_name = string_field XSAN_MAX_NAME_LEN (Some (spdk_bdev_get_product_name bdev)),
      bi_is_rotational = spdk_bdev_is_rotational bdev,
      bi_optimal_io_boundary = spdk_bdev_get_optimal_io_boundary bdev,
      bi_has_write_cache = spdk_bdev_has_write_cache bdev\<rparr>"

text \<open>The array and the count that are handed out, if the two pointers for them are given.\<close>

definition xsan_bdev_list_get_all ::
  "bdev_env \<Rightarrow> bool \<Rightarrow> xsan_error \<times> (xsan_bdev_info list ptr \<times> nat) option" where
  "xsan_bdev_list_get_all E outs =
     (if \<not> outs then (XSAN_ERROR_CONFIG_PARSE, None)
      else if \<not> spdk_thread E then (XSAN_ERROR_TASK_FAILED, Some (NULL, 0))
      else if length (spdk_bdev_list E) = 0 then (XSAN_OK, Some (NULL, 0))
      else if \<not> info_malloc_ok E then (XSAN_ERROR_NO_MEMORY, Some (NULL, 0))
      else (XSAN_OK, Some (Some (map xsan_bdev_populate_info (spdk_bdev_list E)), length (spdk_bdev_list E))))"

definition xsan_bdev_get_info_by_name :: "bdev_env \<Rightarrow> string ptr \<Rightarrow> xsan_bdev_info ptr" where
  "xsan_bdev_get_info_by_name E bdev_name =
     (case bdev_name of
        NULL \<Rightarrow> NULL
      | Some nm \<Rightarrow>
          if \<not> spdk_thread E then NULL
          else (case spdk_bdev_get_by_name E nm of
                  NULL \<Rightarrow> NULL
                | Some bdev \<Rightarrow> if info_malloc_ok E then Some (xsan_bdev_populate_info bdev) else NULL))"

definition xsan_bdev_dma_malloc :: "bdev_env \<Rightarrow> u64 \<Rightarrow> u64 \<Rightarrow> u8 list ptr" where
  "xsan_bdev_dma_malloc E n align = (if n = 0 then NULL else spdk_dma_malloc E n align)"

definition xsan_bdev_dma_free :: "u8 list ptr \<Rightarrow> io_resource resource_call list" where
  "xsan_bdev_dma_free buf = (case buf of NULL \<Rightarrow> [] | Some _ \<Rightarrow> [Give R_dma])"

definition xsan_bdev_get_buf_align :: "bdev_env \<Rightarrow> string ptr \<Rightarrow> u64" where
  "xsan_bdev_get_buf_align E bdev_name =
     (case bdev_name of
        NULL \<Rightarrow> 0
      | Some nm \<Rightarrow>
          if \<not> spdk_thread E then 0
          else (case spdk_bdev_get_by_name E nm of NULL \<Rightarrow> 0 | Some bdev \<Rightarrow> spdk_bdev_get_buf_align bdev))"

section \<open>Transfers that wait\<close>

text \<open>Polling until the completion callback has set its flag.\<close>

partial_function (option) poll_loop :: "(nat \<Rightarrow> bool ptr) \<Rightarrow> nat \<Rightarrow> bool option" where
  "poll_loop c k = (case c k of Some success \<Rightarrow> Some success | None \<Rightarrow> poll_loop c (Suc k))"

text \<open>\<^verbatim>\<open>memcpy\<close> of the first \<open>n\<close> bytes of a buffer over the first bytes of another.\<close>

definition copy_bytes :: "nat \<Rightarrow> u8 list \<Rightarrow> u8 list \<Rightarrow> u8 list run" where
  "copy_bytes n dest src =
     (if n \<le> length dest \<and> n \<le> length src then Done (take n src @ drop n dest) else Bad_access)"

text \<open>The submission of the transfer over the buffer \<open>p\<close> and the wait for it: the error, the buffer and the
  device afterwards.\<close>

definition bdev_transfer ::
  "'dev spdk_device \<Rightarrow> bdev_env \<Rightarrow> 'dev \<Rightarrow> u64 \<Rightarrow> u32 \<Rightarrow> nat \<Rightarrow> bool \<Rightarrow> u8 list
     \<Rightarrow> (xsan_error \<times> u8 list \<times> 'dev) run option" where
  "bdev_transfer D E dev off n required is_read p =
     (if length p < required then Some Bad_access
      else if submit_rc E \<noteq> 0 then
        Some (Done (if submit_rc E = - ENOMEM then XSAN_ERROR_NO_MEMORY else XSAN_ERROR_STORAGE_IO, p, dev))
      else
        map_option (\<lambda>success.
          if success then
            (if is_read then Done (XSAN_OK, dev_read D dev off n @ drop required p, dev)
             else Done (XSAN_OK, p, dev_write D dev off n (take required p)))
          else
            (if is_read then Done (XSAN_ERROR_STORAGE_IO, dev_read_failed D dev off n p, dev)
             else Done (XSAN_ERROR_STORAGE_IO, p, dev_write_failed D dev off n (take required p))))
          (poll_loop (io_completion E) 0))"

text \<open>The buffer that is given to SPDK and, if it is an internal one, its way from and to the caller's.\<close>

definition sync_with_buffers ::
  "'dev spdk_device \<Rightarrow> bdev_env \<Rightarrow> 'dev \<Rightarrow> spdk_bdev \<Rightarrow> u64 \<Rightarrow> u32 \<Rightarrow> u8 list \<Rightarrow> nat \<Rightarrow> bool \<Rightarrow> bool
     \<Rightarrow> (xsan_error \<times> u8 list \<times> 'dev \<times> io_resource resource_call list) run option" where
  "sync_with_buffers D E dev bdev off n buf required internal is_read =
     (if \<not> internal then
        map_option (\<lambda>r. bind_run r (\<lambda>(err, buf, dev). Done (err, buf, dev, [])))
          (bdev_transfer D E dev off n required is_read buf)
      else
        (case xsan_bdev_dma_malloc E (of_nat required) (spdk_bdev_get_buf_align bdev) of
           NULL \<Rightarrow> Some (Done (XSAN_ERROR_NO_MEMORY, buf, dev, []))
         | Some dma \<Rightarrow>
             (case (if is_read then Done dma else copy_bytes required dma buf) of
                Done dma \<Rightarrow>
                  map_option (\<lambda>r. bind_run r (\<lambda>(err, dma, dev).
                    bind_run (if err = XSAN_OK \<and> is_read then copy_bytes required buf dma else Done buf) (\<lambda>buf.
                      Done (err, buf, dev, Take R_dma # xsan_bdev_dma_free (Some dma)))))
                    (bdev_transfer D E dev off n required is_read dma)
              | Deadlock \<Rightarrow> Some Deadlock
              | Bad_access \<Rightarrow> Some Bad_access)))"

definition xsan_bdev_do_sync_io ::
  "'dev spdk_device \<Rightarrow> bdev_env \<Rightarrow> 'dev \<Rightarrow> string ptr \<Rightarrow> u64 \<Rightarrow> u32 \<Rightarrow> u8 list ptr \<Rightarrow> u64 \<Rightarrow> bool \<Rightarrow> bool
     \<Rightarrow> (xsan_error \<times> u8 list ptr \<times> 'dev \<times> io_resource resource_call list) run option" where
  "xsan_bdev_do_sync_io D E dev bdev_name off n buf buf_len internal is_read =
     (case (bdev_name, buf) of
        (Some nm, Some b) \<Rightarrow>
          if n = 0 then Some (Done (XSAN_ERROR_CONFIG_PARSE, buf, dev, []))
          else if \<not> spdk_thread E then Some (Done (XSAN_ERROR_TASK_FAILED, buf, dev, []))
          else
            (case spdk_bdev_get_by_name E nm of
               NULL \<Rightarrow> Some (Done (XSAN_ERROR_VM_NOT_FOUND, buf, dev, []))
             | Some bdev \<Rightarrow>
                 let required_io_len = (ucast n * ucast (spdk_bdev_get_block_size bdev) :: u64) in
                 if buf_len < required_io_len then Some (Done (XSAN_ERROR_CONFIG_PARSE, buf, dev, []))
                 else if open_rc E \<noteq> 0 then Some (Done (xsan_error_from_errno (- open_rc E), buf, dev, []))
                 else if \<not> channel_ok E then
                   Some (Done (XSAN_ERROR_STORAGE_IO, buf, dev, [Take R_desc, Give R_desc]))
                 else
                   map_option (\<lambda>r. bind_run r (\<lambda>(err, b, dev, calls).
                     Done (err, Some b, dev,
                           [Take R_desc, Take R_channel] @ calls @ [Give R_channel, Give R_desc])))
                     (sync_with_buffers D E dev bdev off n b (unat required_io_len) internal is_read))
      | _ \<Rightarrow> Some (Done (XSAN_ERROR_CONFIG_PARSE, buf, dev, [])))"

definition xsan_bdev_read_sync ::
  "'dev spdk_device \<Rightarrow> bdev_env \<Rightarrow> 'dev \<Rightarrow> string ptr \<Rightarrow> u64 \<Rightarrow> u32 \<Rightarrow> u8 list ptr \<Rightarrow> u64 \<Rightarrow> bool
     \<Rightarrow> (xsan_error \<times> u8 list ptr \<times> 'dev \<times> io_resource resource_call list) run option" where
  "xsan_bdev_read_sync D E dev bdev_name off n buf buf_len internal =
     xsan_bdev_do_sync_io D E dev bdev_name off n buf buf_len internal True"

definition xsan_bdev_write_sync ::
  "'dev spdk_device \<Rightarrow> bdev_env \<Rightarrow> 'dev \<Rightarrow> string ptr \<Rightarrow> u64 \<Rightarrow> u32 \<Rightarrow> u8 list ptr \<Rightarrow> u64 \<Rightarrow> bool
     \<Rightarrow> (xsan_error \<times> u8 list ptr \<times> 'dev \<times> io_resource resource_call list) run option" where
  "xsan_bdev_write_sync D E dev bdev_name off n buf buf_len internal =
     xsan_bdev_do_sync_io D E dev bdev_name off n buf buf_len internal False"

section \<open>Facts about transfers\<close>

lemma poll_loop_returns:
  assumes "c k = Some s"
  shows "\<exists>s j. poll_loop c 0 = Some s \<and> c j = Some s"
proof -
  have "\<exists>s j. poll_loop c (k - i) = Some s \<and> c j = Some s" if "i \<le> k" for i
    using that
  proof (induction i)
    case 0
    then show ?case using assms by (auto simp: poll_loop.simps [of c k])
  next
    case (Suc i)
    then have "Suc (k - Suc i) = k - i" by simp
    with Suc show ?case by (cases "c (k - Suc i)") (auto simp: poll_loop.simps [of c "k - Suc i"])
  qed
  from this [of k] show ?thesis by simp
qed

lemma unat_required: "unat (ucast (n :: u32) * ucast (bs :: u32) :: u64) = unat n * unat bs"
proof -
  have "unat n < 2 ^ 32" "unat bs < 2 ^ 32"
    using unsigned_less [of n, where 'a = nat] unsigned_less [of bs, where 'a = nat] by simp_all
  then have "unat n * unat bs < 2 ^ 32 * 2 ^ 32" by (rule mult_strict_mono') simp_all
  then show ?thesis by (simp add: unat_word_ariths)
qed

lemma transfer_returns:
  assumes "io_completion E k = Some s" and "required \<le> length p"
  shows "\<exists>err p' dev'. bdev_transfer D E dev off n required is_read p = Some (Done (err, p', dev')) \<and>
     (is_read \<longrightarrow> dev' = dev) \<and> (\<not> is_read \<longrightarrow> p' = p) \<and>
     (err = XSAN_OK \<longleftrightarrow> submit_rc E = 0 \<and> poll_loop (io_completion E) 0 = Some True) \<and>
     (err = XSAN_OK \<longrightarrow>
        p' = (if is_read then dev_read D dev off n @ drop required p else p) \<and>
        dev' = (if is_read then dev else dev_write D dev off n (take required p)))"
proof -
  obtain s' where s': "poll_loop (io_completion E) 0 = Some s'"
    using poll_loop_returns [of "io_completion E" k s] assms(1) by auto
  show ?thesis
  proof (cases "submit_rc E = 0")
    case True
    with s' assms(2) show ?thesis by (cases s'; cases is_read) (simp_all add: bdev_transfer_def)
  next
    case False
    with assms(2) show ?thesis by (simp add: bdev_transfer_def)
  qed
qed

text \<open>What a transfer that succeeds does to the caller's buffer and to the device.\<close>

definition moved :: "'dev spdk_device \<Rightarrow> 'dev \<Rightarrow> u64 \<Rightarrow> u32 \<Rightarrow> nat \<Rightarrow> bool \<Rightarrow> u8 list \<Rightarrow> u8 list \<times> 'dev" where
  "moved D dev off n required is_read b =
     (if is_read then (dev_read D dev off n @ drop required b, dev)
      else (b, dev_write D dev off n (take required b)))"

lemma sync_with_buffers_returns:
  assumes "io_completion E k = Some s" and "required \<le> length b" and "required < 2 ^ 64" and "dma_ok E"
    and dev_len: "length (dev_read D dev off n) = required"
  shows "\<exists>err b' dev' calls. sync_with_buffers D E dev bdev off n b required internal is_read
       = Some (Done (err, b', dev', calls)) \<and>
     (is_read \<longrightarrow> dev' = dev) \<and> (\<not> is_read \<longrightarrow> b' = b) \<and> (\<forall>M. held M calls = Some M) \<and>
     (err = XSAN_OK \<longleftrightarrow> submit_rc E = 0 \<and> poll_loop (io_completion E) 0 = Some True \<and>
        (internal \<longrightarrow> xsan_bdev_dma_malloc E (of_nat required) (spdk_bdev_get_buf_align bdev) \<noteq> NULL)) \<and>
     (err = XSAN_OK \<longrightarrow> (b', dev') = moved D dev off n required is_read b)"
proof (cases internal)
  case False
  obtain err p' dev' where t: "bdev_transfer D E dev off n required is_read b = Some (Done (err, p', dev'))"
    "is_read \<longrightarrow> dev' = dev" "\<not> is_read \<longrightarrow> p' = b"
    "err = XSAN_OK \<longleftrightarrow> submit_rc E = 0 \<and> poll_loop (io_completion E) 0 = Some True"
    "err = XSAN_OK \<longrightarrow> p' = (if is_read then dev_read D dev off n @ drop required b else b) \<and>
        dev' = (if is_read then dev else dev_write D dev off n (take required b))"
    using transfer_returns [OF assms(1,2), of D dev off n is_read] by blast
  then show ?thesis using False by (simp add: sync_with_buffers_def moved_def)
next
  case True
  show ?thesis
  proof (cases "xsan_bdev_dma_malloc E (of_nat required) (spdk_bdev_get_buf_align bdev)")
    case None
    then show ?thesis using True by (simp add: sync_with_buffers_def)
  next
    case (Some dma)
    then have len: "length dma = required"
      using assms(3,4) by (auto simp: xsan_bdev_dma_malloc_def dma_ok_def unat_of_nat split: if_splits)
    define p where "p = (if is_read then dma else take required b @ drop required dma)"
    have p: "(if is_read then Done dma else copy_bytes required dma b) = Done p"
      using len assms(2) by (simp add: p_def copy_bytes_def)
    have "required \<le> length p" "length p = required" using len assms(2) by (simp_all add: p_def)
    obtain err p' dev' where t: "bdev_transfer D E dev off n required is_read p = Some (Done (err, p', dev'))"
      and same: "is_read \<longrightarrow> dev' = dev" "\<not> is_read \<longrightarrow> p' = p"
      and err: "err = XSAN_OK \<longleftrightarrow> submit_rc E = 0 \<and> poll_loop (io_completion E) 0 = Some True"
      and moved: "err = XSAN_OK \<longrightarrow> p' = (if is_read then dev_read D dev off n @ drop required p else p) \<and>
        dev' = (if is_read then dev else dev_write D dev off n (take required p))"
      using transfer_returns [OF assms(1) \<open>required \<le> length p\<close>, of D dev off n is_read] by blast
    define b' where "b' = (if err = XSAN_OK \<and> is_read then dev_read D dev off n @ drop required b else b)"
    have copied: "(if err = XSAN_OK \<and> is_read then copy_bytes required b p' else Done b) = Done b'"
      using moved dev_len \<open>length p = required\<close> assms(2) by (simp add: b'_def copy_bytes_def)
    have "sync_with_buffers D E dev bdev off n b required internal is_read
        = Some (Done (err, b', dev', [Take R_dma, Give R_dma]))"
      unfolding sync_with_buffers_def using True Some p
      by (simp only: t copied if_False option.case run.case option.map bind_run.simps prod.case
            not_True_eq_False xsan_bdev_dma_free_def)
    moreover have "err = XSAN_OK \<longrightarrow> (b', dev') = moved D dev off n required is_read b"
      using moved len assms(2) by (simp add: moved_def b'_def p_def)
    moreover have "\<not> is_read \<longrightarrow> b' = b" by (simp add: b'_def)
    ultimately show ?thesis using same err Some by simp
  qed
qed

text \<open>The conditions under which a call succeeds.\<close>

definition sync_io_possible :: "bdev_env \<Rightarrow> spdk_bdev \<Rightarrow> u32 \<Rightarrow> u64 \<Rightarrow> bool \<Rightarrow> bool" where
  "sync_io_possible E bdev n buf_len internal \<longleftrightarrow>
     n \<noteq> 0 \<and> spdk_thread E \<and> unat n * unat (spdk_bdev_get_block_size bdev) \<le> unat buf_len \<and>
     open_rc E = 0 \<and> channel_ok E \<and> submit_rc E = 0 \<and> poll_loop (io_completion E) 0 = Some True \<and>
     (internal \<longrightarrow>
        xsan_bdev_dma_malloc E (ucast n * ucast (spdk_bdev_get_block_size bdev)) (spdk_bdev_get_buf_align bdev) \<noteq> NULL)"

lemma do_sync_io_returns:
  assumes dma: "dma_ok E" and compl: "io_completion E k = Some s" and len: "unat buf_len \<le> length b"
    and bdev: "spdk_bdev_get_by_name E nm = Some bdev" and dev: "device_ok D (spdk_bdev_get_block_size bdev)"
  shows "\<exists>err b' dev' calls. xsan_bdev_do_sync_io D E dev (Some nm) off n (Some b) buf_len internal is_read
       = Some (Done (err, Some b', dev', calls)) \<and>
     (is_read \<longrightarrow> dev' = dev) \<and> (\<not> is_read \<longrightarrow> b' = b) \<and> held {#} calls = Some {#} \<and>
     (err = XSAN_OK \<longleftrightarrow> sync_io_possible E bdev n buf_len internal) \<and>
     (err = XSAN_OK \<longrightarrow>
        (b', dev') = moved D dev off n (unat n * unat (spdk_bdev_get_block_size bdev)) is_read b)"
proof -
  define r where "r = (ucast n * ucast (spdk_bdev_get_block_size bdev) :: u64)"
  have r: "unat r = unat n * unat (spdk_bdev_get_block_size bdev)"
    unfolding r_def by (rule unat_required)
  have fits: "buf_len < r \<longleftrightarrow> \<not> unat n * unat (spdk_bdev_get_block_size bdev) \<le> unat buf_len"
    by (simp add: word_less_nat_alt r not_le)
  note def = xsan_bdev_do_sync_io_def sync_io_possible_def Let_def r_def [symmetric] fits bdev
  show ?thesis
  proof (cases "n \<noteq> 0 \<and> spdk_thread E \<and> unat r \<le> unat buf_len \<and> open_rc E = 0 \<and> channel_ok E")
    case False
    then show ?thesis by (auto simp: def r)
  next
    case True
    have "unat r \<le> length b" "unat r < 2 ^ 64" "length (dev_read D dev off n) = unat r"
      using True len dev r unsigned_less [of r, where 'a = nat] by (auto simp: device_ok_def)
    from sync_with_buffers_returns [OF compl this(1,2) dma this(3), of bdev internal is_read]
    obtain err b' dev' calls where
      t: "sync_with_buffers D E dev bdev off n b (unat r) internal is_read = Some (Done (err, b', dev', calls))"
      and rest: "is_read \<longrightarrow> dev' = dev" "\<not> is_read \<longrightarrow> b' = b" "\<forall>M. held M calls = Some M"
      "err = XSAN_OK \<longleftrightarrow> submit_rc E = 0 \<and> poll_loop (io_completion E) 0 = Some True \<and>
         (internal \<longrightarrow> xsan_bdev_dma_malloc E (of_nat (unat r)) (spdk_bdev_get_buf_align bdev) \<noteq> NULL)"
      "err = XSAN_OK \<longrightarrow> (b', dev') = moved D dev off n (unat r) is_read b"
      by blast
    show ?thesis using True t rest by (simp add: def r held_append)
  qed
qed

section \<open>A device of bytes\<close>

text \<open>An instance of the parameters: a device of blocks of two bytes that is an array of bytes.\<close>

definition byte_device :: "(nat \<Rightarrow> u8) spdk_device" where
  "byte_device =
     \<lparr>dev_read = (\<lambda>d off n. map d [2 * unat off ..< 2 * unat off + 2 * unat n]),
      dev_write = (\<lambda>d off n data i. if 2 * unat off \<le> i \<and> i < 2 * unat off + length data
                                     then data ! (i - 2 * unat off) else d i),
      dev_read_failed = (\<lambda>d off n buf. buf), dev_write_failed = (\<lambda>d off n data. d)\<rparr>"

lemma byte_device_ok: "device_ok byte_device 2"
  unfolding device_ok_def byte_device_def apart_def by (auto intro!: nth_equalityI)

definition sample_bdev :: spdk_bdev where
  "sample_bdev = \<lparr>spdk_bdev_get_name = ''Malloc0'', spdk_bdev_get_uuid = NULL, spdk_bdev_get_num_blocks = 8,
     spdk_bdev_get_block_size = 2, spdk_bdev_get_product_name = ''Malloc'', spdk_bdev_is_rotational = False,
     spdk_bdev_get_optimal_io_boundary = 0, spdk_bdev_has_write_cache = False, spdk_bdev_get_buf_align = 1\<rparr>"

definition sample_bdev_env :: bdev_env where
  "sample_bdev_env = \<lparr>spdk_thread = True, spdk_bdev_list = [sample_bdev],
     spdk_bdev_get_by_name = (\<lambda>nm. if nm = ''Malloc0'' then Some sample_bdev else NULL),
     info_malloc_ok = True, open_rc = 0, channel_ok = True,
     spdk_dma_malloc = (\<lambda>n a. Some (replicate (unat n) 0)), submit_rc = 0,
     io_completion = (\<lambda>k. if k = 0 then None else Some True)\<rparr>"

lemma sample_bdev_env_ok: "dma_ok sample_bdev_env" "io_completion sample_bdev_env 1 = Some True"
    "spdk_bdev_get_by_name sample_bdev_env ''Malloc0'' = Some sample_bdev"
    "device_ok byte_device (spdk_bdev_get_block_size sample_bdev)"
  by (simp_all add: dma_ok_def sample_bdev_env_def sample_bdev_def byte_device_ok)

lemma sample_io_possible: "sync_io_possible sample_bdev_env sample_bdev 2 4 internal"
proof -
  have "poll_loop (io_completion sample_bdev_env) 0 = Some True"
    by (simp add: poll_loop.simps [of _ 0] poll_loop.simps [of _ "Suc 0"] sample_bdev_env_def)
  then show ?thesis
    by (simp add: sync_io_possible_def sample_bdev_env_def sample_bdev_def xsan_bdev_dma_malloc_def)
qed

section \<open>Properties\<close>

text \<open>C23: A synchronous read or write of a device that exists returns as soon as the
  transfer completes. Whatever happens, it gives back every descriptor, channel and buffer it took,
  a read leaves the device and a write the caller's buffer as they were, and the result is
  \<^verbatim>\<open>XSAN_OK\<close> exactly if the call is made on an SPDK thread, the buffer is large enough and every
  step in SPDK succeeds. A transfer that succeeds has moved exactly the requested blocks.\<close>

theorem sync_io_outcomes:
  assumes "dma_ok E" and "io_completion E k = Some s" and "unat buf_len \<le> length b"
    and "spdk_bdev_get_by_name E nm = Some bdev" and "device_ok D (spdk_bdev_get_block_size bdev)"
  shows "\<exists>err b' dev' calls. xsan_bdev_do_sync_io D E dev (Some nm) off n (Some b) buf_len internal is_read
       = Some (Done (err, Some b', dev', calls)) \<and>
     (is_read \<longrightarrow> dev' = dev) \<and> (\<not> is_read \<longrightarrow> b' = b) \<and> held {#} calls = Some {#} \<and>
     (err = XSAN_OK \<longleftrightarrow> sync_io_possible E bdev n buf_len internal) \<and>
     (err = XSAN_OK \<longrightarrow>
        (b', dev') = moved D dev off n (unat n * unat (spdk_bdev_get_block_size bdev)) is_read b)"
  using assms by (rule do_sync_io_returns)

theorem sync_io_outcomes_witness:
  "\<exists>dev' calls. xsan_bdev_do_sync_io byte_device sample_bdev_env (\<lambda>_. 0) (Some ''Malloc0'') 1 2
       (Some [1, 2, 3, 4]) 4 True False = Some (Done (XSAN_OK, Some [1, 2, 3, 4], dev', calls)) \<and>
     held {#} calls = Some {#}"
  using sync_io_outcomes [OF sample_bdev_env_ok(1,2) _ sample_bdev_env_ok(3,4),
      of 4 "[1, 2, 3, 4]" "\<lambda>_. 0" 1 2 True False] sample_io_possible [of True]
  by auto

text \<open>C24: What a successful synchronous write has written is what the next
  successful read of the same blocks puts into the reader's buffer, with or without an internal DMA
  buffer on either side, and every other block still has the contents it had. The device is a parameter that keeps
  what a transfer writes and leaves the blocks outside the transfer alone.\<close>

theorem sync_write_read_back:
  assumes dma: "dma_ok E" "dma_ok E'"
    and name: "spdk_bdev_get_by_name E nm = Some bdev" "spdk_bdev_get_by_name E' nm = Some bdev"
    and dev: "device_ok D (spdk_bdev_get_block_size bdev)"
    and len: "unat data_len \<le> length data" "unat buf_len \<le> length buf"
    and completes: "sync_io_possible E bdev n data_len internal" "sync_io_possible E' bdev n buf_len internal'"
    and ends: "io_completion E k = Some s" "io_completion E' k' = Some s'"
  shows "\<exists>dev' calls calls'.
     xsan_bdev_write_sync D E dev (Some nm) off n (Some data) data_len internal
       = Some (Done (XSAN_OK, Some data, dev', calls)) \<and>
     xsan_bdev_read_sync D E' dev' (Some nm) off n (Some buf) buf_len internal'
       = Some (Done (XSAN_OK,
           Some (take (unat n * unat (spdk_bdev_get_block_size bdev)) data @
                 drop (unat n * unat (spdk_bdev_get_block_size bdev)) buf), dev', calls')) \<and>
     (\<forall>off' n'. apart off n off' n' \<longrightarrow> dev_read D dev' off' n' = dev_read D dev off' n')"
proof -
  define r where "r = unat n * unat (spdk_bdev_get_block_size bdev)"
  define dev' where "dev' = dev_write D dev off n (take r data)"
  obtain calls where w: "xsan_bdev_do_sync_io D E dev (Some nm) off n (Some data) data_len internal False
      = Some (Done (XSAN_OK, Some data, dev', calls))"
    using do_sync_io_returns [OF dma(1) ends(1) len(1) name(1) dev, of dev off n internal False] completes(1)
    by (auto simp: moved_def r_def dev'_def)
  have r: "length (take r data) = unat n * unat (spdk_bdev_get_block_size bdev)"
    using completes(1) len(1) by (simp add: sync_io_possible_def r_def)
  then have got: "dev_read D dev' off n = take r data"
    using dev by (simp add: device_ok_def dev'_def)
  obtain calls' where "xsan_bdev_do_sync_io D E' dev' (Some nm) off n (Some buf) buf_len internal' True
      = Some (Done (XSAN_OK, Some (take r data @ drop r buf), dev', calls'))"
    using do_sync_io_returns [OF dma(2) ends(2) len(2) name(2) dev, of dev' off n internal' True] completes(2) got
    by (auto simp: moved_def r_def)
  moreover have "\<forall>off' n'. apart off n off' n' \<longrightarrow> dev_read D dev' off' n' = dev_read D dev off' n'"
    using dev r by (simp add: device_ok_def dev'_def)
  ultimately show ?thesis using w by (auto simp: xsan_bdev_write_sync_def xsan_bdev_read_sync_def r_def)
qed

theorem sync_write_read_back_witness:
  "\<exists>dev' calls calls'.
     xsan_bdev_write_sync byte_device sample_bdev_env (\<lambda>_. 0) (Some ''Malloc0'') 1 2 (Some [1, 2, 3, 4]) 4 True
       = Some (Done (XSAN_OK, Some [1, 2, 3, 4], dev', calls)) \<and>
     xsan_bdev_read_sync byte_device sample_bdev_env dev' (Some ''Malloc0'') 1 2 (Some [9, 9, 9, 9]) 4 False
       = Some (Done (XSAN_OK, Some [1, 2, 3, 4], dev', calls')) \<and>
     dev_read byte_device dev' 0 1 = [0, 0]"
proof -
  have b: "spdk_bdev_get_block_size sample_bdev = 2" by (simp add: sample_bdev_def)
  obtain dev' calls calls' where
    "xsan_bdev_write_sync byte_device sample_bdev_env (\<lambda>_. 0) (Some ''Malloc0'') 1 2 (Some [1, 2, 3, 4]) 4 True
       = Some (Done (XSAN_OK, Some [1, 2, 3, 4], dev', calls))"
    "xsan_bdev_read_sync byte_device sample_bdev_env dev' (Some ''Malloc0'') 1 2 (Some [9, 9, 9, 9]) 4 False
       = Some (Done (XSAN_OK, Some [1, 2, 3, 4], dev', calls'))"
    "\<forall>off' n'. apart 1 2 off' n' \<longrightarrow> dev_read byte_device dev' off' n' = dev_read byte_device (\<lambda>_. 0) off' n'"
    using sync_write_read_back [OF sample_bdev_env_ok(1) sample_bdev_env_ok(1) sample_bdev_env_ok(3)
        sample_bdev_env_ok(3) sample_bdev_env_ok(4) _ _ sample_io_possible [of True]
        sample_io_possible [of False] sample_bdev_env_ok(2) sample_bdev_env_ok(2),
        of "[1, 2, 3, 4]" "[9, 9, 9, 9]" "\<lambda>_. 0" 1]
    by (auto simp: b)
  moreover have "apart 1 2 0 1" by (simp add: apart_def)
  moreover have "dev_read byte_device (\<lambda>_. 0) 0 1 = [0, 0]" by (simp add: byte_device_def upt_rec)
  ultimately show ?thesis by metis
qed

end
