(* ===== verification/IoRequest.thy ===== *)
theory IoRequest
  imports Bdev
begin

text \<open>
  The asynchronous I/O requests of src/io/xsan\_io.c: creation, submission to a block device of SPDK, the
  completion callback and the release of a request.

  A request is the record of src/include/xsan\_io.h; a handle of SPDK is the flag that its pointer is
  set, a buffer the bytes it holds. A call returns the request as it is afterwards (none, when it was
  freed) and the list of what it did to the outside: resources taken and given back, transfers
  submitted, callbacks, memory freed. The answers of SPDK are in \<open>bdev_env\<close>.
\<close>

section \<open>Requests\<close>

record ('f, 'a) xsan_io_request =
  target_volume_id :: uuid
  target_disk_id :: uuid
  target_bdev_name :: string
  is_read_op :: bool
  user_buffer :: "u8 list ptr"
  offset_bytes :: u64
  length_bytes :: u64
  offset_blocks :: u64
  io_num_blocks :: u32
  io_block_size_bytes :: u32
  user_cb :: "'f ptr"
  user_cb_arg :: 'a
  dma_buffer :: "u8 list ptr"
  dma_buffer_is_internal :: bool
  dma_buffer_size :: u64
  bdev_desc :: bool
  io_channel :: bool
  own_spdk_resources :: bool
  io_status :: xsan_error

datatype ('f, 'a) io_event =
    Resource "io_resource resource_call"
  | Submit bool u64 u32 "u8 list"
  | Callback 'f 'a xsan_error
  | Free_bdev_io
  | Free_request

definition xsan_io_request_create ::
  "bool \<Rightarrow> uuid \<Rightarrow> u8 list ptr \<Rightarrow> u64 \<Rightarrow> u64 \<Rightarrow> u32 \<Rightarrow> bool \<Rightarrow> 'f ptr \<Rightarrow> 'a
     \<Rightarrow> ('f, 'a) xsan_io_request ptr" where
  "xsan_io_request_create malloc_ok vid buf off len bs is_read cb arg =
     (if buf = NULL \<or> len = 0 \<or> bs = 0 \<or> cb = NULL then NULL
      else if off mod ucast bs \<noteq> 0 \<or> len mod ucast bs \<noteq> 0 then NULL
      else if \<not> malloc_ok then NULL
      else Some
        \<lparr>target_volume_id = vid, target_disk_id = 0, target_bdev_name = [], is_read_op = is_read,
         user_buffer = buf, offset_bytes = off, length_bytes = len,
         offset_blocks = off div ucast bs, io_num_blocks = ucast (len div ucast bs),
         io_block_size_bytes = bs, user_cb = cb, user_cb_arg = arg, dma_buffer = NULL,
         dma_buffer_is_internal = False, dma_buffer_size = 0, bdev_desc = False, io_channel = False,
         own_spdk_resources = False, io_status = XSAN_OK\<rparr>)"

definition dma_release :: "('f, 'a) xsan_io_request \<Rightarrow> ('f, 'a) io_event list" where
  "dma_release r = (if dma_buffer_is_internal r then map Resource (xsan_bdev_dma_free (dma_buffer r)) else [])"

definition xsan_io_request_free :: "('f, 'a) xsan_io_request ptr \<Rightarrow> ('f, 'a) io_event list" where
  "xsan_io_request_free r = (case r of NULL \<Rightarrow> [] | Some r \<Rightarrow> dma_release r @ [Free_request])"

text \<open>The handles that the request owns are given back.\<close>

definition release_owned :: "('f, 'a) xsan_io_request \<Rightarrow> ('f, 'a) io_event list" where
  "release_owned r =
     (if own_spdk_resources r then
        (if io_channel r then [Resource (Give R_channel)] else []) @
        (if bdev_desc r then [Resource (Give R_desc)] else [])
      else [])"

definition call_user :: "('f, 'a) xsan_io_request \<Rightarrow> ('f, 'a) io_event list" where
  "call_user r = (case user_cb r of NULL \<Rightarrow> [] | Some f \<Rightarrow> [Callback f (user_cb_arg r) (io_status r)])"

section \<open>Completion\<close>

text \<open>The callback that SPDK calls at the end of a transfer; for a read the DMA buffer of the request holds
  what the device delivered. The result is the user's buffer and what was done.\<close>

definition xsan_io_spdk_completion_cb ::
  "bool \<Rightarrow> ('f, 'a) xsan_io_request ptr \<Rightarrow> (u8 list ptr \<times> ('f, 'a) io_event list) run" where
  "xsan_io_spdk_completion_cb success io_req =
     (case io_req of
        NULL \<Rightarrow> Done (NULL, [Free_bdev_io])
      | Some r \<Rightarrow>
          bind_run
            (case (if success \<and> is_read_op r \<and> dma_buffer_is_internal r then dma_buffer r else NULL) of
               NULL \<Rightarrow> Done (r\<lparr>io_status := if success then XSAN_OK else XSAN_ERROR_IO\<rparr>)
             | Some dma \<Rightarrow>
                 (case user_buffer r of
                    Some b \<Rightarrow>
                      bind_run (copy_bytes (unat (length_bytes r)) b dma) (\<lambda>b.
                        Done (r\<lparr>io_status := XSAN_OK, user_buffer := Some b\<rparr>))
                  | NULL \<Rightarrow> Done (r\<lparr>io_status := XSAN_ERROR_INVALID_PARAM\<rparr>)))
            (\<lambda>r. Done (user_buffer r,
                       Free_bdev_io # release_owned r @ call_user r @ xsan_io_request_free (Some r))))"

section \<open>Submission\<close>

text \<open>The descriptor and the channel, taken unless the request has them; an error ends the submission.\<close>

definition acquire_handles ::
  "bdev_env \<Rightarrow> ('f, 'a) xsan_io_request \<Rightarrow> ('f, 'a) xsan_io_request \<times> xsan_error \<times> ('f, 'a) io_event list" where
  "acquire_handles E r =
     (if \<not> bdev_desc r \<and> open_rc E \<noteq> 0 then (r, xsan_error_from_errno (- open_rc E), [])
      else
        (let opened = (if bdev_desc r then [] else [Resource (Take R_desc)]);
             r = (if bdev_desc r then r else r\<lparr>bdev_desc := True, own_spdk_resources := True\<rparr>)
         in if io_channel r then (r, XSAN_OK, opened)
            else if channel_ok E then (r\<lparr>io_channel := True\<rparr>, XSAN_OK, opened @ [Resource (Take R_channel)])
            else if own_spdk_resources r \<and> bdev_desc r
            then (r\<lparr>bdev_desc := False\<rparr>, XSAN_ERROR_IO, opened @ [Resource (Give R_desc)])
            else (r, XSAN_ERROR_IO, opened)))"

text \<open>The buffer for SPDK: the one that the request brings, or a fresh one that holds the data of a write.\<close>

definition prepare_buffer ::
  "bdev_env \<Rightarrow> spdk_bdev \<Rightarrow> u64 \<Rightarrow> ('f, 'a) xsan_io_request
     \<Rightarrow> (('f, 'a) xsan_io_request \<times> xsan_error \<times> u8 list \<times> ('f, 'a) io_event list) run" where
  "prepare_buffer E bdev physical_io_size r =
     (case (if dma_buffer_is_internal r then NULL else dma_buffer r) of
        Some p \<Rightarrow> Done (r, XSAN_OK, p, [])
      | NULL \<Rightarrow>
          (case xsan_bdev_dma_malloc E physical_io_size (spdk_bdev_get_buf_align bdev) of
             NULL \<Rightarrow> Done (r\<lparr>dma_buffer := NULL\<rparr>, XSAN_ERROR_NO_MEMORY, [], release_owned r)
           | Some dma \<Rightarrow>
               let r = r\<lparr>dma_buffer := Some dma, dma_buffer_is_internal := True, dma_buffer_size := physical_io_size\<rparr>
               in if is_read_op r then Done (r, XSAN_OK, dma, [Resource (Take R_dma)])
                  else
                    (case user_buffer r of
                       Some b \<Rightarrow>
                         bind_run (copy_bytes (unat (length_bytes r)) dma b) (\<lambda>dma.
                           Done (r\<lparr>dma_buffer := Some dma\<rparr>, XSAN_OK, dma, [Resource (Take R_dma)]))
                     | NULL \<Rightarrow>
                         Done (r\<lparr>dma_buffer := NULL\<rparr>, XSAN_ERROR_INVALID_PARAM, [],
                               [Resource (Take R_dma)] @ release_owned r @ [Resource (Give R_dma)]))))"

definition submit_transfer ::
  "bdev_env \<Rightarrow> ('f, 'a) xsan_io_request \<Rightarrow> u8 list
     \<Rightarrow> ('f, 'a) xsan_io_request ptr \<times> xsan_error \<times> ('f, 'a) io_event list" where
  "submit_transfer E r payload =
     (let submitted = Submit (is_read_op r) (offset_blocks r) (io_num_blocks r) payload in
      if submit_rc E = 0 then (Some r, XSAN_OK, [submitted])
      else
        (let err = (if submit_rc E = - ENOMEM then XSAN_ERROR_NO_MEMORY else XSAN_ERROR_IO);
             freed = r\<lparr>dma_buffer := if dma_buffer_is_internal r then NULL else dma_buffer r, io_status := err\<rparr>
         in (NULL, err, dma_release r @ release_owned r @ call_user freed @ xsan_io_request_free (Some freed))))"

definition xsan_io_submit_request_to_bdev ::
  "bdev_env \<Rightarrow> ('f, 'a) xsan_io_request ptr
     \<Rightarrow> (('f, 'a) xsan_io_request ptr \<times> xsan_error \<times> ('f, 'a) io_event list) run" where
  "xsan_io_submit_request_to_bdev E io_req =
     (case io_req of
        NULL \<Rightarrow> Done (NULL, XSAN_ERROR_INVALID_PARAM, [])
      | Some r \<Rightarrow>
          if user_cb r = NULL \<or> target_bdev_name r = [] \<or> io_num_blocks r = 0
          then Done (io_req, XSAN_ERROR_INVALID_PARAM, [])
          else if \<not> spdk_thread E then Done (io_req, XSAN_ERROR_THREAD_CONTEXT, [])
          else
            (case spdk_bdev_get_by_name E (target_bdev_name r) of
               NULL \<Rightarrow> Done (io_req, XSAN_ERROR_NOT_FOUND, [])
             | Some bdev \<Rightarrow>
                 (case acquire_handles E r of
                    (r, err, taken) \<Rightarrow>
                      if err \<noteq> XSAN_OK then Done (Some r, err, taken)
                      else
                        let physical_io_size = ucast (io_num_blocks r) * ucast (spdk_bdev_get_block_size bdev) in
                        if length_bytes r \<noteq> physical_io_size
                        then Done (Some r, XSAN_ERROR_INVALID_PARAM, taken @ release_owned r)
                        else
                          bind_run (prepare_buffer E bdev physical_io_size r) (\<lambda>(r, err, payload, prepared).
                            if err \<noteq> XSAN_OK then Done (Some r, err, taken @ prepared)
                            else if length payload < unat physical_io_size then Bad_access
                            else (case submit_transfer E r payload of
                                    (res, err, events) \<Rightarrow> Done (res, err, taken @ prepared @ events))))))"

section \<open>What was done\<close>

fun resource_of :: "('f, 'a) io_event \<Rightarrow> io_resource resource_call list" where
  "resource_of (Resource c) = [c]"
| "resource_of _ = []"

fun submission_of :: "('f, 'a) io_event \<Rightarrow> (bool \<times> u64 \<times> u32 \<times> u8 list) list" where
  "submission_of (Submit rd off n p) = [(rd, off, n, p)]"
| "submission_of _ = []"

fun callback_of :: "('f, 'a) io_event \<Rightarrow> ('f \<times> 'a \<times> xsan_error) list" where
  "callback_of (Callback f a e) = [(f, a, e)]"
| "callback_of _ = []"

definition resources :: "('f, 'a) io_event list \<Rightarrow> io_resource resource_call list" where
  "resources evs = concat (map resource_of evs)"

definition submissions :: "('f, 'a) io_event list \<Rightarrow> (bool \<times> u64 \<times> u32 \<times> u8 list) list" where
  "submissions evs = concat (map submission_of evs)"

definition callbacks :: "('f, 'a) io_event list \<Rightarrow> ('f \<times> 'a \<times> xsan_error) list" where
  "callbacks evs = concat (map callback_of evs)"

definition frees :: "('f, 'a) io_event list \<Rightarrow> nat" where
  "frees evs = length (filter (\<lambda>e. e = Free_request) evs)"

lemmas event_defs = resources_def submissions_def callbacks_def frees_def

section \<open>Requests that were created\<close>

lemma create_Some:
  assumes "xsan_io_request_create malloc_ok vid buf off len bs is_read cb arg = Some r"
  shows "buf \<noteq> NULL" "0 < unat len" "0 < unat bs" "unat bs dvd unat off" "unat bs dvd unat len"
    and "r = \<lparr>target_volume_id = vid, target_disk_id = 0, target_bdev_name = [], is_read_op = is_read,
         user_buffer = buf, offset_bytes = off, length_bytes = len,
         offset_blocks = off div ucast bs, io_num_blocks = ucast (len div ucast bs),
         io_block_size_bytes = bs, user_cb = cb, user_cb_arg = arg, dma_buffer = NULL,
         dma_buffer_is_internal = False, dma_buffer_size = 0, bdev_desc = False, io_channel = False,
         own_spdk_resources = False, io_status = XSAN_OK\<rparr>" "cb \<noteq> NULL"
proof -
  have "off mod ucast bs = 0" "len mod ucast bs = 0" "len \<noteq> 0" "bs \<noteq> 0"
    using assms by (auto simp: xsan_io_request_create_def split: if_splits)
  moreover have "unat (off mod ucast bs) = unat off mod unat bs" "unat (len mod ucast bs) = unat len mod unat bs"
    by (simp_all add: unat_mod_distrib)
  ultimately show "unat bs dvd unat off" "unat bs dvd unat len" "0 < unat len" "0 < unat bs"
    by (auto simp: dvd_eq_mod_eq_0 unat_gt_0)
qed (use assms in \<open>auto simp: xsan_io_request_create_def split: if_splits\<close>)

text \<open>The number of blocks is cut to 32 bits; the length check of the submission finds out.\<close>

lemma blocks_exact:
  assumes "unat bs dvd unat len" "0 < unat (bs :: u32)" "0 < unat (len :: u64)"
  defines "n \<equiv> (ucast (len div ucast bs :: u64) :: u32)"
  shows "(n \<noteq> 0 \<and> len = ucast n * ucast bs) \<longleftrightarrow> unat len div unat bs < 2 ^ 32"
    and "unat len div unat bs < 2 ^ 32 \<Longrightarrow> unat n * unat bs = unat len"
proof -
  have n: "unat n = unat len div unat bs mod 2 ^ 32"
    by (simp add: n_def unsigned_ucast_eq unat_div_distrib take_bit_eq_mod)
  have q: "unat len div unat bs * unat bs = unat len" using assms(1) by simp
  show exact: "unat n * unat bs = unat len" if "unat len div unat bs < 2 ^ 32"
    using n q that by simp
  have eq: "len = ucast n * ucast bs \<longleftrightarrow> unat len = unat n * unat bs"
    by (simp add: word_unat_eq_iff unat_required)
  have n_less: "unat n < 2 ^ 32" using unsigned_less [of n, where 'a = nat] by simp
  show "(n \<noteq> 0 \<and> len = ucast n * ucast bs) \<longleftrightarrow> unat len div unat bs < 2 ^ 32"
  proof
    assume "n \<noteq> 0 \<and> len = ucast n * ucast bs"
    then have "unat len div unat bs = unat n" using eq assms(2) by simp
    then show "unat len div unat bs < 2 ^ 32" using n_less by simp
  next
    assume small: "unat len div unat bs < 2 ^ 32"
    then have "unat n * unat bs = unat len" by (rule exact)
    moreover from this have "n \<noteq> 0" using assms(3) by auto
    ultimately show "n \<noteq> 0 \<and> len = ucast n * ucast bs" using eq by simp
  qed
qed

section \<open>Submission of a fresh request\<close>

text \<open>A request as its creator hands it over: the device is named, a descriptor may be set, nothing else
  was taken yet.\<close>

definition fresh_request :: "('f, 'a) xsan_io_request \<Rightarrow> bool" where
  "fresh_request r \<longleftrightarrow>
     \<not> io_channel r \<and> \<not> own_spdk_resources r \<and> dma_buffer r = NULL \<and> \<not> dma_buffer_is_internal r \<and>
     user_cb r \<noteq> NULL \<and> target_bdev_name r \<noteq> [] \<and>
     (\<exists>b. user_buffer r = Some b \<and> unat (length_bytes r) \<le> length b)"

definition reaches_spdk :: "bdev_env \<Rightarrow> spdk_bdev \<Rightarrow> ('f, 'a) xsan_io_request \<Rightarrow> bool" where
  "reaches_spdk E bdev r \<longleftrightarrow>
     io_num_blocks r \<noteq> 0 \<and> length_bytes r = ucast (io_num_blocks r) * ucast (spdk_bdev_get_block_size bdev) \<and>
     spdk_thread E \<and> (bdev_desc r \<or> open_rc E = 0) \<and> channel_ok E \<and>
     xsan_bdev_dma_malloc E (length_bytes r) (spdk_bdev_get_buf_align bdev) \<noteq> NULL"

definition submit_possible :: "bdev_env \<Rightarrow> spdk_bdev \<Rightarrow> ('f, 'a) xsan_io_request \<Rightarrow> bool" where
  "submit_possible E bdev r \<longleftrightarrow> reaches_spdk E bdev r \<and> submit_rc E = 0"

text \<open>The bytes that are given to SPDK.\<close>

definition payload_of :: "bdev_env \<Rightarrow> spdk_bdev \<Rightarrow> ('f, 'a) xsan_io_request \<Rightarrow> u8 list" where
  "payload_of E bdev r =
     (if is_read_op r then
        (case xsan_bdev_dma_malloc E (length_bytes r) (spdk_bdev_get_buf_align bdev) of Some dma \<Rightarrow> dma | NULL \<Rightarrow> [])
      else (case user_buffer r of Some b \<Rightarrow> take (unat (length_bytes r)) b | NULL \<Rightarrow> []))"

definition submitted_request :: "bdev_env \<Rightarrow> spdk_bdev \<Rightarrow> ('f, 'a) xsan_io_request \<Rightarrow> ('f, 'a) xsan_io_request" where
  "submitted_request E bdev r =
     r\<lparr>bdev_desc := True, own_spdk_resources := \<not> bdev_desc r, io_channel := True,
       dma_buffer := Some (payload_of E bdev r), dma_buffer_is_internal := True,
       dma_buffer_size := length_bytes r\<rparr>"

definition taken_events :: "bool \<Rightarrow> ('f, 'a) io_event list" where
  "taken_events desc = (if desc then [] else [Resource (Take R_desc)]) @ [Resource (Take R_channel)]"

lemma acquire_fresh:
  assumes "fresh_request r" "bdev_desc r \<or> open_rc E = 0" "channel_ok E"
  shows "acquire_handles E r =
     (r\<lparr>bdev_desc := True, own_spdk_resources := \<not> bdev_desc r, io_channel := True\<rparr>, XSAN_OK, taken_events (bdev_desc r))"
  using assms by (cases "bdev_desc r") (auto simp: acquire_handles_def fresh_request_def taken_events_def)

lemma prepare_fresh:
  assumes "fresh_request r" "dma_ok E" "xsan_bdev_dma_malloc E (length_bytes r) (spdk_bdev_get_buf_align bdev) \<noteq> NULL"
  shows "prepare_buffer E bdev (length_bytes r)
       (r\<lparr>bdev_desc := True, own_spdk_resources := \<not> bdev_desc r, io_channel := True\<rparr>) =
     Done (submitted_request E bdev r, XSAN_OK, payload_of E bdev r, [Resource (Take R_dma)])"
    and "length (payload_of E bdev r) = unat (length_bytes r)"
proof -
  obtain dma where dma: "xsan_bdev_dma_malloc E (length_bytes r) (spdk_bdev_get_buf_align bdev) = Some dma"
    using assms(3) by blast
  have len: "length dma = unat (length_bytes r)"
    using dma assms(2) by (auto simp: dma_ok_def xsan_bdev_dma_malloc_def split: if_splits)
  obtain b where b: "user_buffer r = Some b" "unat (length_bytes r) \<le> length b"
    using assms(1) by (auto simp: fresh_request_def)
  show "prepare_buffer E bdev (length_bytes r)
       (r\<lparr>bdev_desc := True, own_spdk_resources := \<not> bdev_desc r, io_channel := True\<rparr>) =
     Done (submitted_request E bdev r, XSAN_OK, payload_of E bdev r, [Resource (Take R_dma)])"
    using assms(1) dma len b
    by (simp add: prepare_buffer_def fresh_request_def submitted_request_def payload_of_def copy_bytes_def Let_def)
  show "length (payload_of E bdev r) = unat (length_bytes r)" using dma len b by (simp add: payload_of_def)
qed

lemma submit_accepted:
  assumes "fresh_request r" "dma_ok E" "spdk_bdev_get_by_name E (target_bdev_name r) = Some bdev"
    and "submit_possible E bdev r"
  shows "xsan_io_submit_request_to_bdev E (Some r) =
     Done (Some (submitted_request E bdev r), XSAN_OK,
       taken_events (bdev_desc r) @ [Resource (Take R_dma),
         Submit (is_read_op r) (offset_blocks r) (io_num_blocks r) (payload_of E bdev r)])"
proof -
  have p: "spdk_thread E" "io_num_blocks r \<noteq> 0" "bdev_desc r \<or> open_rc E = 0" "channel_ok E" "submit_rc E = 0"
    "xsan_bdev_dma_malloc E (length_bytes r) (spdk_bdev_get_buf_align bdev) \<noteq> NULL"
    and len: "ucast (io_num_blocks r) * ucast (spdk_bdev_get_block_size bdev) = length_bytes r"
    using assms(4) unfolding submit_possible_def reaches_spdk_def by simp_all metis
  have f: "user_cb r \<noteq> NULL" "target_bdev_name r \<noteq> []" using assms(1) by (simp_all add: fresh_request_def)
  show ?thesis
    using p f prepare_fresh [OF assms(1,2) p(6)]
    by (simp add: xsan_io_submit_request_to_bdev_def assms(3) acquire_fresh [OF assms(1) p(3,4)] len
        submit_transfer_def submitted_request_def)
qed

lemma submit_refused:
  assumes fresh: "fresh_request r" and dma: "dma_ok E"
    and bdev: "spdk_bdev_get_by_name E (target_bdev_name r) = Some bdev"
    and no: "\<not> submit_possible E bdev r"
  shows "\<exists>res err evs. xsan_io_submit_request_to_bdev E (Some r) = Done (res, err, evs) \<and>
     err \<noteq> XSAN_OK \<and> submissions evs = [] \<and>
     (\<not> bdev_desc r \<longrightarrow> held {#} (resources evs) = Some {#}) \<and>
     (if reaches_spdk E bdev r
      then res = NULL \<and> err = (if submit_rc E = - ENOMEM then XSAN_ERROR_NO_MEMORY else XSAN_ERROR_IO) \<and>
        callbacks evs = [(the (user_cb r), user_cb_arg r, err)] \<and> frees evs = 1
      else res \<noteq> NULL \<and> callbacks evs = [] \<and> frees evs = 0)"
proof -
  have f: "user_cb r \<noteq> NULL" "target_bdev_name r \<noteq> []" "\<not> io_channel r" "\<not> own_spdk_resources r"
    using fresh by (simp_all add: fresh_request_def)
  note def = xsan_io_submit_request_to_bdev_def bdev
  consider "io_num_blocks r = 0 \<or> \<not> spdk_thread E"
    | "io_num_blocks r \<noteq> 0" "spdk_thread E" "\<not> (bdev_desc r \<or> open_rc E = 0) \<or> \<not> channel_ok E"
    | "io_num_blocks r \<noteq> 0" "spdk_thread E" "bdev_desc r \<or> open_rc E = 0" "channel_ok E"
    by blast
  then show ?thesis
  proof cases
    case 1
    then show ?thesis using f by (auto simp: def event_defs reaches_spdk_def)
  next
    case 2
    then show ?thesis using f by (auto simp: def event_defs acquire_handles_def reaches_spdk_def)
  next
    case 3
    note a = acquire_fresh [OF fresh 3(3,4)]
    let ?size = "ucast (io_num_blocks r) * ucast (spdk_bdev_get_block_size bdev) :: u64"
    consider "length_bytes r \<noteq> ?size"
      | "length_bytes r = ?size" "xsan_bdev_dma_malloc E (length_bytes r) (spdk_bdev_get_buf_align bdev) = NULL"
      | "length_bytes r = ?size" "xsan_bdev_dma_malloc E (length_bytes r) (spdk_bdev_get_buf_align bdev) \<noteq> NULL"
        "submit_rc E \<noteq> 0"
      using no 3 by (auto simp: submit_possible_def reaches_spdk_def)
    then show ?thesis
    proof cases
      case 1
      then show ?thesis using 3 f by (auto simp: def a event_defs release_owned_def taken_events_def reaches_spdk_def)
    next
      case 2
      then show ?thesis using 3 f fresh
        by (auto simp: def a event_defs release_owned_def taken_events_def prepare_buffer_def fresh_request_def
            reaches_spdk_def)
    next
      case c: 3
      then show ?thesis using 3 f prepare_fresh [OF fresh dma c(2)] c(1) [symmetric]
        by (auto simp: def a event_defs release_owned_def taken_events_def submit_transfer_def
            submitted_request_def dma_release_def xsan_bdev_dma_free_def call_user_def
            xsan_io_request_free_def reaches_spdk_def Let_def)
    qed
  qed
qed

section \<open>From creation to completion\<close>

lemma created_fresh:
  assumes "xsan_io_request_create malloc_ok vid (Some b) off len bs is_read (Some f) arg = Some r0"
    and "r = r0\<lparr>target_disk_id := did, target_bdev_name := nm, bdev_desc := desc\<rparr>"
    and "nm \<noteq> []" "unat len \<le> length b"
  shows "fresh_request r" "target_bdev_name r = nm" "bdev_desc r = desc" "length_bytes r = len"
    "user_cb r = Some f" "user_cb_arg r = arg" "is_read_op r = is_read" "user_buffer r = Some b"
    "offset_blocks r = off div ucast bs" "io_num_blocks r = ucast (len div ucast bs)"
  using create_Some(6) [OF assms(1)] assms(2-4) by (simp_all add: fresh_request_def)

lemma completion_events:
  assumes "fresh_request r" "user_cb r = Some f" "user_buffer r = Some b" "length data = unat (length_bytes r)"
  shows "xsan_io_spdk_completion_cb success (Some ((submitted_request E bdev r)\<lparr>dma_buffer := Some data\<rparr>)) =
     Done (Some (if success \<and> is_read_op r then data @ drop (unat (length_bytes r)) b else b),
       Free_bdev_io # (if bdev_desc r then [] else [Resource (Give R_channel), Resource (Give R_desc)]) @
       [Callback f (user_cb_arg r) (if success then XSAN_OK else XSAN_ERROR_IO), Resource (Give R_dma), Free_request])"
  using assms
  by (simp add: xsan_io_spdk_completion_cb_def submitted_request_def fresh_request_def copy_bytes_def
      release_owned_def call_user_def xsan_io_request_free_def dma_release_def xsan_bdev_dma_free_def)

text \<open>A request that comes with a descriptor does not own the channel it gets: the channel is not given
  back when the transfer ends.\<close>

lemma channel_kept:
  assumes "fresh_request r" "user_cb r = Some f" "user_buffer r = Some b" "length data = unat (length_bytes r)"
    and "bdev_desc r" "dma_ok E" "spdk_bdev_get_by_name E (target_bdev_name r) = Some bdev" "submit_possible E bdev r"
  shows "\<exists>s evs out evs'. xsan_io_submit_request_to_bdev E (Some r) = Done (Some s, XSAN_OK, evs) \<and>
     xsan_io_spdk_completion_cb success (Some (s\<lparr>dma_buffer := Some data\<rparr>)) = Done (out, evs') \<and>
     held {#} (resources (evs @ evs')) = Some {#R_channel#}"
  using submit_accepted [OF assms(1,6-8)] completion_events [OF assms(1-4), of success E bdev] assms(5)
  by (simp add: event_defs taken_events_def)

lemma created_submit:
  assumes created: "xsan_io_request_create malloc_ok vid (Some b) off len bs is_read (Some f) arg = Some r0"
    and r: "r = r0\<lparr>target_disk_id := did, target_bdev_name := nm, bdev_desc := desc\<rparr>"
    and nm: "nm \<noteq> []" and b: "unat len \<le> length b" and dma: "dma_ok E"
    and bdev: "spdk_bdev_get_by_name E nm = Some bdev" "spdk_bdev_get_block_size bdev = bs"
  shows "\<exists>res err evs. xsan_io_submit_request_to_bdev E (Some r) = Done (res, err, evs) \<and>
     (err = XSAN_OK \<longleftrightarrow>
        spdk_thread E \<and> unat len div unat bs < 2 ^ 32 \<and> (desc \<or> open_rc E = 0) \<and> channel_ok E \<and>
        xsan_bdev_dma_malloc E len (spdk_bdev_get_buf_align bdev) \<noteq> NULL \<and> submit_rc E = 0) \<and>
     (if err = XSAN_OK then
        \<exists>start n p. submissions evs = [(is_read, start, n, p)] \<and>
          unat start * unat bs = unat off \<and> unat n * unat bs = unat len \<and> length p = unat len \<and>
          (\<not> is_read \<longrightarrow> p = take (unat len) b)
      else submissions evs = [])"
proof -
  note c = create_Some [OF created] and fr = created_fresh [OF created r nm b]
  note n = blocks_exact [OF c(5,3,2)]
  have possible: "submit_possible E bdev r \<longleftrightarrow>
      spdk_thread E \<and> unat len div unat bs < 2 ^ 32 \<and> (desc \<or> open_rc E = 0) \<and> channel_ok E \<and>
      xsan_bdev_dma_malloc E len (spdk_bdev_get_buf_align bdev) \<noteq> NULL \<and> submit_rc E = 0"
    unfolding submit_possible_def reaches_spdk_def fr(3,4,10) bdev(2) n(1) [symmetric] by blast
  have start: "unat (off div ucast bs :: u64) * unat bs = unat off" using c(4) by (simp add: unat_div)
  show ?thesis
  proof (cases "submit_possible E bdev r")
    case True
    then have small: "unat len div unat bs < 2 ^ 32" and m: "xsan_bdev_dma_malloc E (length_bytes r) (spdk_bdev_get_buf_align bdev) \<noteq> NULL"
      using possible fr(4) by auto
    have "length (payload_of E bdev r) = unat len" using prepare_fresh(2) [OF fr(1) dma m] fr(4) by simp
    moreover have "\<not> is_read \<longrightarrow> payload_of E bdev r = take (unat len) b" using fr by (simp add: payload_of_def)
    ultimately show ?thesis
      using submit_accepted [OF fr(1) dma _ True] True possible start n(2) [OF small] fr bdev(1)
      by (simp add: event_defs taken_events_def)
  next
    case False
    then show ?thesis using submit_refused [OF fr(1) dma _ False] possible fr bdev(1) by fastforce
  qed
qed

section \<open>Properties\<close>

text \<open>C21: A request for a range of bytes that is submitted to a device with its block size
  moves exactly these bytes: the one transfer that SPDK gets starts at the requested byte, has the
  requested length, and for a write carries the user's data. The submission succeeds exactly if it is
  made on an SPDK thread, the number of blocks fits into 32 bits, and SPDK provides a descriptor, a
  channel, a buffer and accepts the transfer; otherwise no transfer is submitted.\<close>

theorem io_submit_exact:
  assumes created: "xsan_io_request_create malloc_ok vid (Some b) off len bs is_read (Some f) arg = Some r0"
    and r: "r = r0\<lparr>target_disk_id := did, target_bdev_name := nm, bdev_desc := desc\<rparr>"
    and nm: "nm \<noteq> []" and b: "unat len \<le> length b" and dma: "dma_ok E"
    and bdev: "spdk_bdev_get_by_name E nm = Some bdev" "spdk_bdev_get_block_size bdev = bs"
  shows "\<exists>res err evs. xsan_io_submit_request_to_bdev E (Some r) = Done (res, err, evs) \<and>
     (err = XSAN_OK \<longleftrightarrow>
        spdk_thread E \<and> unat len div unat bs < 2 ^ 32 \<and> (desc \<or> open_rc E = 0) \<and> channel_ok E \<and>
        xsan_bdev_dma_malloc E len (spdk_bdev_get_buf_align bdev) \<noteq> NULL \<and> submit_rc E = 0) \<and>
     (if err = XSAN_OK then
        \<exists>start n p. submissions evs = [(is_read, start, n, p)] \<and>
          unat start * unat bs = unat off \<and> unat n * unat bs = unat len \<and> length p = unat len \<and>
          (\<not> is_read \<longrightarrow> p = take (unat len) b)
      else submissions evs = [])"
  using assms by (rule created_submit)

theorem io_submit_exact_witness:
  "\<exists>r0. xsan_io_request_create True 7 (Some [1, 2, 3, 4]) 6 4 2 False (Some ()) (0 :: nat) = Some r0 \<and>
     (\<exists>res evs start n p. xsan_io_submit_request_to_bdev sample_bdev_env
         (Some (r0\<lparr>target_disk_id := 1, target_bdev_name := ''Malloc0'', bdev_desc := True\<rparr>)) = Done (res, XSAN_OK, evs) \<and>
       submissions evs = [(False, start, n, p)] \<and> unat start * 2 = 6 \<and> unat n * 2 = 4 \<and> p = [1, 2, 3, 4])"
proof -
  obtain r0 where r0: "xsan_io_request_create True 7 (Some [1, 2, 3, 4]) 6 4 2 False (Some ()) (0 :: nat) = Some r0"
    by (simp add: xsan_io_request_create_def)
  have "spdk_thread sample_bdev_env \<and> channel_ok sample_bdev_env \<and> submit_rc sample_bdev_env = 0 \<and>
      xsan_bdev_dma_malloc sample_bdev_env 4 (spdk_bdev_get_buf_align sample_bdev) \<noteq> NULL"
    by (simp add: sample_bdev_env_def xsan_bdev_dma_malloc_def)
  with io_submit_exact [OF r0 refl _ _ sample_bdev_env_ok(1,3), where did = 1 and desc = True] r0
  show ?thesis by (auto simp: sample_bdev_def)
qed

text \<open>C22: A request that brings no handles of its own gives back everything it takes. It reaches SPDK if it is
  submitted on an SPDK thread, its number of blocks is not zero and gives its length in blocks of the
  device, and the descriptor, the channel and the buffer can be had; the submission succeeds exactly if
  it reaches SPDK and SPDK accepts the transfer. If SPDK refuses it, nothing is held afterwards, the
  user's callback was called exactly once with the error that is also returned, and the request was freed
  exactly once. If it does not reach SPDK, nothing is held, neither happened and the request is still the
  caller's. If the submission succeeds, the completion of the transfer, with success or failure, gives back
  the descriptor, the channel and the buffer, delivers the data of a read, calls the user's callback
  exactly once with the status and frees the request exactly once.\<close>

theorem io_lifecycle:
  assumes created: "xsan_io_request_create malloc_ok vid (Some b) off len bs is_read (Some f) arg = Some r0"
    and r: "r = r0\<lparr>target_disk_id := did, target_bdev_name := nm\<rparr>"
    and nm: "nm \<noteq> []" and b: "unat len \<le> length b" and dma: "dma_ok E"
    and bdev: "spdk_bdev_get_by_name E nm = Some bdev"
  shows "\<exists>res err evs. xsan_io_submit_request_to_bdev E (Some r) = Done (res, err, evs) \<and>
     (err = XSAN_OK \<longleftrightarrow> reaches_spdk E bdev r \<and> submit_rc E = 0) \<and>
     (err \<noteq> XSAN_OK \<longrightarrow> held {#} (resources evs) = Some {#} \<and>
        (if reaches_spdk E bdev r
         then res = NULL \<and> err = (if submit_rc E = - ENOMEM then XSAN_ERROR_NO_MEMORY else XSAN_ERROR_IO) \<and>
           callbacks evs = [(f, arg, err)] \<and> frees evs = 1
         else res \<noteq> NULL \<and> callbacks evs = [] \<and> frees evs = 0)) \<and>
     (err = XSAN_OK \<longrightarrow> (\<exists>s. res = Some s \<and>
        (\<forall>success data. length data = unat len \<longrightarrow>
           (\<exists>evs'. xsan_io_spdk_completion_cb success (Some (s\<lparr>dma_buffer := Some data\<rparr>)) =
              Done (Some (if success \<and> is_read then data @ drop (unat len) b else b), evs') \<and>
            held {#} (resources (evs @ evs')) = Some {#} \<and>
            callbacks (evs @ evs') = [(f, arg, if success then XSAN_OK else XSAN_ERROR_IO)] \<and>
            frees (evs @ evs') = 1))))"
proof -
  have "r = r0\<lparr>target_disk_id := did, target_bdev_name := nm, bdev_desc := False\<rparr>"
    using r create_Some(6) [OF created] by simp
  note fr = created_fresh [OF created this nm b]
  have bd: "spdk_bdev_get_by_name E (target_bdev_name r) = Some bdev" using bdev fr(2) by simp
  show ?thesis
  proof (cases "submit_possible E bdev r")
    case True
    have "\<exists>evs'. xsan_io_spdk_completion_cb success (Some ((submitted_request E bdev r)\<lparr>dma_buffer := Some data\<rparr>)) =
              Done (Some (if success \<and> is_read then data @ drop (unat len) b else b), evs') \<and>
            held {#} (resources ((taken_events False @ [Resource (Take R_dma), sub]) @ evs')) = Some {#} \<and>
            callbacks ((taken_events False @ [Resource (Take R_dma), sub]) @ evs') =
              [(f, arg, if success then XSAN_OK else XSAN_ERROR_IO)] \<and>
            frees ((taken_events False @ [Resource (Take R_dma), sub]) @ evs') = 1"
      if "length data = unat len" "sub = Submit is_read (offset_blocks r) (io_num_blocks r) (payload_of E bdev r)"
      for success data sub
      using completion_events [OF fr(1,5,8), of data success E bdev] that fr
      by (simp add: event_defs taken_events_def)
    moreover have "reaches_spdk E bdev r" "submit_rc E = 0" using True by (simp_all add: submit_possible_def)
    ultimately show ?thesis using submit_accepted [OF fr(1) dma bd True] fr by auto
  next
    case False
    then have "\<not> (reaches_spdk E bdev r \<and> submit_rc E = 0)" by (simp add: submit_possible_def)
    moreover obtain res err evs where "xsan_io_submit_request_to_bdev E (Some r) = Done (res, err, evs)"
        "err \<noteq> XSAN_OK" "held {#} (resources evs) = Some {#}"
        "if reaches_spdk E bdev r
         then res = NULL \<and> err = (if submit_rc E = - ENOMEM then XSAN_ERROR_NO_MEMORY else XSAN_ERROR_IO) \<and>
           callbacks evs = [(f, arg, err)] \<and> frees evs = 1
         else res \<noteq> NULL \<and> callbacks evs = [] \<and> frees evs = 0"
      using submit_refused [OF fr(1) dma bd False] fr by auto
    ultimately show ?thesis by auto
  qed
qed

theorem io_lifecycle_witness:
  "\<exists>r0. xsan_io_request_create True 7 (Some [9, 9]) 6 2 2 True (Some ()) (0 :: nat) = Some r0 \<and>
     (\<exists>s evs evs'. xsan_io_submit_request_to_bdev sample_bdev_env
         (Some (r0\<lparr>target_disk_id := 1, target_bdev_name := ''Malloc0''\<rparr>)) = Done (Some s, XSAN_OK, evs) \<and>
       xsan_io_spdk_completion_cb True (Some (s\<lparr>dma_buffer := Some [1, 2]\<rparr>)) = Done (Some [1, 2], evs') \<and>
       held {#} (resources (evs @ evs')) = Some {#} \<and> callbacks (evs @ evs') = [((), 0, XSAN_OK)])"
proof -
  obtain r0 where r0: "xsan_io_request_create True 7 (Some [9, 9]) 6 2 2 True (Some ()) (0 :: nat) = Some r0"
    by (simp add: xsan_io_request_create_def)
  let ?r = "r0\<lparr>target_disk_id := 1, target_bdev_name := ''Malloc0''\<rparr>"
  obtain s evs where sub: "xsan_io_submit_request_to_bdev sample_bdev_env (Some ?r) = Done (Some s, XSAN_OK, evs)"
    using create_Some(6) [OF r0]
    by (simp add: xsan_io_submit_request_to_bdev_def sample_bdev_env_def sample_bdev_def acquire_handles_def
        prepare_buffer_def xsan_bdev_dma_malloc_def submit_transfer_def Let_def)
  have "\<forall>success data. length data = unat (2 :: u64) \<longrightarrow>
      (\<exists>evs'. xsan_io_spdk_completion_cb success (Some (s\<lparr>dma_buffer := Some data\<rparr>)) =
         Done (Some (if success \<and> True then data @ drop (unat (2 :: u64)) [9, 9] else [9, 9]), evs') \<and>
       held {#} (resources (evs @ evs')) = Some {#} \<and>
       callbacks (evs @ evs') = [((), 0, if success then XSAN_OK else XSAN_ERROR_IO)] \<and> frees (evs @ evs') = 1)"
    using io_lifecycle [OF r0 refl _ _ sample_bdev_env_ok(1,3), where did = 1] unfolding sub by auto
  from this [rule_format, of "[1, 2]" True] sub r0 show ?thesis by auto
qed

end
