(* ===== verification/Replication.thy ===== *)
theory Replication
  imports VolumeManager IoRequest NodeComm
begin

text \<open>
  The contexts of replicated operations: src/include/xsan\_replication.h, src/replication/xsan\_replication.c
  and src/replication/xsan\_replication\_common.c.

  Both source files define \<^verbatim>\<open>xsan_replicated_io_ctx_create\<close> and \<^verbatim>\<open>xsan_replicated_io_ctx_free\<close>, and
  both are in the same library. The archive lists xsan\_replication.c first, which alone has the
  functions for reads; its version is the one that the volume manager gets. The other one has the
  suffix \<open>_common\<close> here.
\<close>

section \<open>Writes\<close>

record 'a xsan_replicated_io_ctx =
  rc_volume_id :: uuid
  rc_user_buffer :: "u8 list ptr"
  rc_logical_byte_offset :: u64
  rc_length_bytes :: u64
  original_user_cb_arg :: 'a
  total_replicas_targeted :: u32
  successful_writes :: u32
  failed_writes :: u32
  final_status :: xsan_error
  rc_transaction_id :: u64
  local_io_req :: bool

definition new_replicated_io_ctx ::
  "'a \<Rightarrow> xsan_volume \<Rightarrow> u8 list ptr \<Rightarrow> u64 \<Rightarrow> u64 \<Rightarrow> u64 \<Rightarrow> u32 \<Rightarrow> 'a xsan_replicated_io_ctx" where
  "new_replicated_io_ctx arg vol buf off len tid targeted =
     \<lparr>rc_volume_id = vol_id vol, rc_user_buffer = buf, rc_logical_byte_offset = off, rc_length_bytes = len,
      original_user_cb_arg = arg, total_replicas_targeted = targeted, successful_writes = 0, failed_writes = 0,
      final_status = XSAN_OK, rc_transaction_id = tid, local_io_req = False\<rparr>"

definition xsan_replicated_io_ctx_create ::
  "bool \<Rightarrow> bool \<Rightarrow> 'a \<Rightarrow> xsan_volume ptr \<Rightarrow> u8 list ptr \<Rightarrow> u64 \<Rightarrow> u64 \<Rightarrow> u64
     \<Rightarrow> 'a xsan_replicated_io_ctx ptr" where
  "xsan_replicated_io_ctx_create malloc_ok has_cb arg vol buf off len tid =
     (case vol of
        NULL \<Rightarrow> NULL
      | Some v \<Rightarrow>
          if \<not> has_cb then NULL
          else if \<not> malloc_ok then NULL
          else
            let targeted = actual_replica_count v in
            if targeted = 0 \<or> targeted > of_nat XSAN_MAX_REPLICAS then NULL
            else Some (new_replicated_io_ctx arg v buf off len tid targeted))"

definition xsan_replicated_io_ctx_create_common ::
  "bool \<Rightarrow> bool \<Rightarrow> 'a \<Rightarrow> xsan_volume ptr \<Rightarrow> u8 list ptr \<Rightarrow> u64 \<Rightarrow> u64 \<Rightarrow> u64
     \<Rightarrow> 'a xsan_replicated_io_ctx ptr" where
  "xsan_replicated_io_ctx_create_common malloc_ok has_cb arg vol buf off len tid =
     (case vol of
        NULL \<Rightarrow> NULL
      | Some v \<Rightarrow>
          if \<not> has_cb \<or> (buf = NULL \<and> len > 0) \<or> len = 0 then NULL
          else if actual_replica_count v = 0 \<and> FTT v > 0 then NULL
          else if \<not> malloc_ok then NULL
          else
            let targeted = FTT v + 1;
                targeted = (if targeted > actual_replica_count v then actual_replica_count v else targeted);
                targeted = (if targeted > of_nat XSAN_MAX_REPLICAS then of_nat XSAN_MAX_REPLICAS else targeted)
            in if targeted = 0 \<and> len > 0 then NULL
               else Some (new_replicated_io_ctx arg v buf off len tid targeted))"

text \<open>What is freed with the context: it itself and, in the version of xsan\_replication\_common.c, the
  request of the local write if there still is one.\<close>

datatype ctx_free = Free_ctx | Free_local_io_req | Free_message | Free_op_ctx | Free_dma

definition xsan_replicated_io_ctx_free :: "'a xsan_replicated_io_ctx ptr \<Rightarrow> ctx_free list" where
  "xsan_replicated_io_ctx_free c = (case c of NULL \<Rightarrow> [] | Some c \<Rightarrow> [Free_ctx])"

definition xsan_replicated_io_ctx_free_common :: "'a xsan_replicated_io_ctx ptr \<Rightarrow> ctx_free list" where
  "xsan_replicated_io_ctx_free_common c =
     (case c of
        NULL \<Rightarrow> []
      | Some c \<Rightarrow> (if local_io_req c then [Free_local_io_req] else []) @ [Free_ctx])"

section \<open>Single replicas\<close>

text \<open>The context of an operation on one replica; its parent is known by the transaction.\<close>

record xsan_per_replica_op_ctx =
  parent_tid :: u64
  replica_location_info :: xsan_replica_location
  request_msg_to_send :: "xsan_message ptr"

section \<open>Reads\<close>

record 'a xsan_replica_read_coordinator_ctx =
  rd_vol :: xsan_volume
  rd_user_buffer :: "u8 list"
  rd_logical_byte_offset :: u64
  rd_length_bytes :: u64
  rd_user_cb_arg :: 'a
  current_replica_idx_to_try :: nat
  last_attempt_status :: xsan_error
  rd_transaction_id :: u64
  internal_dma_buffer :: "u8 list ptr"
  internal_dma_buffer_allocated :: bool
  current_remote_op_ctx :: "xsan_per_replica_op_ctx ptr"

definition xsan_replica_read_coordinator_ctx_create ::
  "bool \<Rightarrow> xsan_volume ptr \<Rightarrow> u8 list ptr \<Rightarrow> u64 \<Rightarrow> u64 \<Rightarrow> bool \<Rightarrow> 'a \<Rightarrow> u64
     \<Rightarrow> 'a xsan_replica_read_coordinator_ctx ptr" where
  "xsan_replica_read_coordinator_ctx_create malloc_ok vol buf off len has_cb arg tid =
     (case (vol, buf) of
        (Some v, Some b) \<Rightarrow>
          if \<not> has_cb then NULL
          else if \<not> malloc_ok then NULL
          else Some
            \<lparr>rd_vol = v, rd_user_buffer = b, rd_logical_byte_offset = off, rd_length_bytes = len,
             rd_user_cb_arg = arg, current_replica_idx_to_try = 0, last_attempt_status = XSAN_OK,
             rd_transaction_id = tid, internal_dma_buffer = NULL, internal_dma_buffer_allocated = False,
             current_remote_op_ctx = NULL\<rparr>
      | _ \<Rightarrow> NULL)"

definition xsan_replica_read_coordinator_ctx_free ::
  "'a xsan_replica_read_coordinator_ctx ptr \<Rightarrow> ctx_free list" where
  "xsan_replica_read_coordinator_ctx_free c =
     (case c of
        NULL \<Rightarrow> []
      | Some c \<Rightarrow>
          (if internal_dma_buffer_allocated c \<and> internal_dma_buffer c \<noteq> NULL then [Free_dma] else []) @
          (case current_remote_op_ctx c of
             NULL \<Rightarrow> []
           | Some p \<Rightarrow> (if request_msg_to_send p \<noteq> NULL then [Free_message] else []) @ [Free_op_ctx]) @
          [Free_ctx])"

section \<open>The two versions\<close>

text \<open>C25: The two definitions of \<^verbatim>\<open>xsan_replicated_io_ctx_create\<close> give the
  same result for a write of at least one byte from a buffer exactly if the volume has no replica, or
  if it has at most three and not more than it needs to tolerate its failures, or if it has more than
  three and the number of failures to tolerate is the largest 32-bit number, where adding one wraps
  to zero. In every other case the version of xsan\_replication\_common.c targets fewer replicas than
  the volume has.\<close>

theorem replicated_ctx_versions_agree:
  assumes "len \<noteq> 0" and "buf \<noteq> NULL"
  shows "xsan_replicated_io_ctx_create True True arg (Some vol) buf off len tid =
       xsan_replicated_io_ctx_create_common True True arg (Some vol) buf off len tid \<longleftrightarrow>
     actual_replica_count vol = 0 \<or>
     (actual_replica_count vol \<le> 3 \<and> actual_replica_count vol \<le> FTT vol + 1) \<or>
     (actual_replica_count vol > 3 \<and> FTT vol + 1 = 0)"
proof -
  have "len > 0" using assms(1) by (simp add: word_neq_0_conv)
  have eq: "new_replicated_io_ctx arg vol buf off len tid m = new_replicated_io_ctx arg vol buf off len tid n
      \<longleftrightarrow> m = n" for m n
    by (auto simp: new_replicated_io_ctx_def)
  have r: "(of_nat XSAN_MAX_REPLICAS :: u32) = 3" by (simp add: XSAN_MAX_REPLICAS_def)
  consider "actual_replica_count vol = 0" | "0 < actual_replica_count vol" "actual_replica_count vol \<le> 3"
    | "actual_replica_count vol > 3"
    by (meson not_le word_neq_0_conv)
  then show ?thesis
  proof cases
    case 1
    then show ?thesis using assms \<open>len > 0\<close> word_neq_0_conv [of "FTT vol + 1"]
      by (cases "FTT vol + 1 = 0")
        (simp_all add: xsan_replicated_io_ctx_create_def xsan_replicated_io_ctx_create_common_def Let_def)
  next
    case 2
    then have "actual_replica_count vol \<noteq> 0" "\<not> actual_replica_count vol > 3" by auto
    then show ?thesis using 2 assms \<open>len > 0\<close>
      by (auto simp: xsan_replicated_io_ctx_create_def xsan_replicated_io_ctx_create_common_def Let_def r eq
          not_less)
  next
    case 3
    then have "actual_replica_count vol \<noteq> 0" by auto
    then show ?thesis using 3 assms \<open>len > 0\<close>
      by (auto simp: xsan_replicated_io_ctx_create_def xsan_replicated_io_ctx_create_common_def Let_def r
          not_less not_le)
  qed
qed

theorem replicated_ctx_versions_agree_witness:
  "xsan_replicated_io_ctx_create True True () (Some (sample_volume\<lparr>actual_replica_count := 2, FTT := 1\<rparr>)) (Some [1]) 0 1 7 =
     xsan_replicated_io_ctx_create_common True True () (Some (sample_volume\<lparr>actual_replica_count := 2, FTT := 1\<rparr>)) (Some [1]) 0 1 7"
  using replicated_ctx_versions_agree [of 1 "Some [1]" "()" "sample_volume\<lparr>actual_replica_count := 2, FTT := 1\<rparr>" 0 7]
  by simp

end
