(* ===== verification/VolumeIo.thy ===== *)
theory VolumeIo
  imports VolumeMapping Replication
begin

text \<open>
  One local transfer for a range of a volume (\<^verbatim>\<open>_xsan_volume_submit_single_io_attempt\<close> and
  \<^verbatim>\<open>_xsan_physical_io_complete_cb\<close> of src/storage/volume\_manager.c): the volume manager maps the first block
  of the range to its place on a disk and hands the I/O layer of \<open>IoRequest\<close> a request for it.

  What a \<^verbatim>\<open>void *\<close> points to matters here: the callback takes its argument for a request, and the I/O
  layer gives it the context that was stored in the request.
\<close>

record ('g, 'b) xsan_vm_physical_io_ctx =
  actual_upper_cb :: "'g ptr"
  actual_upper_cb_arg :: 'b
  original_user_buffer :: "u8 list ptr"
  phys_is_read_op :: bool
  phys_length_bytes :: u64
  volume_id_for_log :: uuid

type_synonym ('g, 'b) vm_request = "(unit, ('g, 'b) xsan_vm_physical_io_ctx) xsan_io_request"
type_synonym ('g, 'b) vm_io_events = "(unit, ('g, 'b) xsan_vm_physical_io_ctx) io_event list"

datatype ('g, 'b) cb_object =
    Physical_io_ctx "('g, 'b) xsan_vm_physical_io_ctx"
  | Io_request "('g, 'b) vm_request"

text \<open>The callback. A context is shorter than the place of \<^verbatim>\<open>user_cb_arg\<close> in a request, so taking it for a
  request reads behind its end. The result is the buffer of the user and the call of the upper callback.\<close>

definition xsan_physical_io_complete_cb ::
  "('g, 'b) cb_object ptr \<Rightarrow> xsan_error \<Rightarrow> (u8 list ptr \<times> ('g \<times> 'b \<times> xsan_error) option) run" where
  "xsan_physical_io_complete_cb arg status =
     (case arg of
        NULL \<Rightarrow> Done (NULL, None)
      | Some (Physical_io_ctx _) \<Rightarrow> Bad_access
      | Some (Io_request r) \<Rightarrow>
          (let c = user_cb_arg r in
           bind_run
             (if phys_is_read_op c \<and> status = XSAN_OK \<and> dma_buffer_is_internal r then
                (case (dma_buffer r, original_user_buffer c) of
                   (Some dma, Some b) \<Rightarrow>
                     bind_run (copy_bytes (unat (phys_length_bytes c)) b dma) (\<lambda>b. Done (Some b, status))
                 | _ \<Rightarrow> Done (original_user_buffer c, XSAN_ERROR_INTERNAL))
              else Done (original_user_buffer c, status))
             (\<lambda>(b, status). Done (b, map_option (\<lambda>f. (f, actual_upper_cb_arg c, status)) (actual_upper_cb c)))))"

text \<open>The callbacks among the events, as the I/O layer calls them.\<close>

fun deliver :: "('g, 'b) vm_io_events \<Rightarrow> ('g \<times> 'b \<times> xsan_error) list run" where
  "deliver [] = Done []"
| "deliver (Callback _ c status # evs) =
     bind_run (xsan_physical_io_complete_cb (Some (Physical_io_ctx c)) status) (\<lambda>(b, upper).
     bind_run (deliver evs) (\<lambda>rest. Done (case upper of None \<Rightarrow> rest | Some u \<Rightarrow> u # rest)))"
| "deliver (_ # evs) = deliver evs"

text \<open>The events of the I/O layer are those of the call itself.\<close>

definition submit_to_disk ::
  "bdev_env \<Rightarrow> bool \<Rightarrow> bool \<Rightarrow> uuid \<Rightarrow> xsan_disk \<Rightarrow> u64 \<Rightarrow> u64 \<Rightarrow> u32 \<Rightarrow> u8 list ptr \<Rightarrow> bool \<Rightarrow> 'g ptr \<Rightarrow> 'b
     \<Rightarrow> (xsan_error \<times> ('g, 'b) vm_io_events) run" where
  "submit_to_disk B ctx_malloc_ok req_malloc_ok vid d start len pbs buf is_read cb arg =
     (if \<not> ctx_malloc_ok then Done (XSAN_ERROR_OUT_OF_MEMORY, [])
      else
        (case xsan_io_request_create req_malloc_ok vid buf (start * ucast pbs) len pbs is_read (Some ())
                \<lparr>actual_upper_cb = cb, actual_upper_cb_arg = arg, original_user_buffer = buf,
                 phys_is_read_op = is_read, phys_length_bytes = len, volume_id_for_log = vid\<rparr> of
           NULL \<Rightarrow> Done (XSAN_ERROR_OUT_OF_MEMORY, [])
         | Some r \<Rightarrow>
             bind_run
               (xsan_io_submit_request_to_bdev B (Some (r\<lparr>target_disk_id := disk_uuid d,
                  target_bdev_name := string_field XSAN_MAX_NAME_LEN (Some (disk_bdev_name d)),
                  bdev_desc := bdev_descriptor d\<rparr>)))
               (\<lambda>(res, err, evs). bind_run (deliver evs) (\<lambda>_. Done (err, evs)))))"

definition xsan_volume_submit_single_io_attempt ::
  "('db, 'it, 'dm) vm_env \<Rightarrow> bdev_env \<Rightarrow> bool \<Rightarrow> bool \<Rightarrow> ('db, 'dm) xsan_volume_manager \<Rightarrow> uuid \<Rightarrow> u64 \<Rightarrow> u64
     \<Rightarrow> u8 list ptr \<Rightarrow> bool \<Rightarrow> 'g ptr \<Rightarrow> 'b \<Rightarrow> (xsan_error \<times> ('g, 'b) vm_io_events) run" where
  "xsan_volume_submit_single_io_attempt E B ctx_malloc_ok req_malloc_ok vm vid off len buf is_read cb arg =
     (if \<not> vm_initialized vm then Done (XSAN_ERROR_INVALID_PARAM, [])
      else
        (case volume_get_by_id E vm vid of
           NULL \<Rightarrow> Done (XSAN_ERROR_NOT_FOUND, [])
         | Some vol \<Rightarrow>
             if block_size_bytes vol = 0 \<or> off mod ucast (block_size_bytes vol) \<noteq> 0 \<or>
                len mod ucast (block_size_bytes vol) \<noteq> 0 \<or> len = 0 \<or> off + len > size_bytes vol
             then Done (XSAN_ERROR_INVALID_PARAM_ALIGNMENT, [])
             else
               bind_run (xsan_volume_map_lba_to_physical E vm vid (off div ucast (block_size_bytes vol)) True) (\<lambda>mapped.
                 case mapped of
                   Inl map_err \<Rightarrow> Done (map_err, [])
                 | Inr (did, start, pbs) \<Rightarrow>
                     if pbs = 0 then Done (XSAN_ERROR_STORAGE_GENERIC, [])
                     else if len mod ucast pbs \<noteq> 0 then Done (XSAN_ERROR_INVALID_PARAM_ALIGNMENT, [])
                     else
                       (case find_disk_by_id E (disk_manager vm) did of
                          NULL \<Rightarrow> Done (XSAN_ERROR_STORAGE_GENERIC, [])
                        | Some d \<Rightarrow>
                            if \<not> bdev_descriptor d then Done (XSAN_ERROR_RESOURCE_UNAVAILABLE, [])
                            else submit_to_disk B ctx_malloc_ok req_malloc_ok vid d start len pbs buf is_read cb arg))))"

section \<open>The argument of the callback\<close>

lemma deliver_callback: "callbacks evs \<noteq> [] \<Longrightarrow> deliver evs = Bad_access"
proof (induction evs)
  case (Cons ev evs)
  then show ?case by (cases ev) (auto simp: event_defs xsan_physical_io_complete_cb_def)
qed (simp add: event_defs)

lemma deliver_none: "callbacks evs = [] \<Longrightarrow> deliver evs = Done []"
proof (induction evs)
  case (Cons ev evs)
  then show ?case by (cases ev) (auto simp: event_defs)
qed simp

text \<open>When a transfer ends, the callback of the volume manager gets the wrong argument, so the caller of the
  volume manager does not learn of it.\<close>

lemma local_completion_bad:
  assumes "fresh_request r" "user_cb r = Some ()" "user_buffer r = Some b" "length data = unat (length_bytes r)"
  shows "\<exists>out evs. xsan_io_spdk_completion_cb success
       (Some ((submitted_request B bdev r)\<lparr>dma_buffer := Some data\<rparr>)) = Done (out, evs) \<and> deliver evs = Bad_access"
  using completion_events [OF assms, of success B bdev] by (simp add: xsan_physical_io_complete_cb_def)

section \<open>The transfer\<close>

lemma submit_to_disk_exact:
  assumes ok: "submit_to_disk B cm rm vid d start len pbs (Some b) is_read cb arg = Done (XSAN_OK, evs)"
    and b: "unat len \<le> length b" and dma: "dma_ok B"
    and bdev: "spdk_bdev_get_by_name B (string_field XSAN_MAX_NAME_LEN (Some (disk_bdev_name d))) = Some bdev"
      "spdk_bdev_get_block_size bdev = pbs"
    and small: "unat start * unat pbs < 2 ^ 64"
  shows "\<exists>n p. submissions evs = [(is_read, start, n, p)] \<and> unat n * unat pbs = unat len \<and>
     length p = unat len \<and> (\<not> is_read \<longrightarrow> p = take (unat len) b)"
proof -
  let ?nm = "string_field XSAN_MAX_NAME_LEN (Some (disk_bdev_name d))"
  obtain r where r: "xsan_io_request_create rm vid (Some b) (start * ucast pbs) len pbs is_read (Some ())
      \<lparr>actual_upper_cb = cb, actual_upper_cb_arg = arg, original_user_buffer = Some b,
       phys_is_read_op = is_read, phys_length_bytes = len, volume_id_for_log = vid\<rparr> = Some r"
    using ok by (auto simp: submit_to_disk_def split: if_splits option.splits)
  let ?r = "r\<lparr>target_disk_id := disk_uuid d, target_bdev_name := ?nm, bdev_desc := bdev_descriptor d\<rparr>"
  obtain res where sub: "xsan_io_submit_request_to_bdev B (Some ?r) = Done (res, XSAN_OK, evs)"
    using ok r by (auto simp: submit_to_disk_def bind_run_Done split: if_splits)
  have "?nm \<noteq> []" using sub by (auto simp: xsan_io_submit_request_to_bdev_def)
  from created_submit [OF r refl this b dma bdev, where did = "disk_uuid d" and desc = "bdev_descriptor d"] sub
  obtain s n p where s: "submissions evs = [(is_read, s, n, p)]"
    "unat s * unat pbs = unat (start * ucast pbs)" "unat n * unat pbs = unat len" "length p = unat len"
    "\<not> is_read \<longrightarrow> p = take (unat len) b"
    by auto
  have "unat s * unat pbs = unat start * unat pbs" using s(2) small by (simp add: unat_mult_small)
  moreover have "0 < unat pbs" using create_Some(3) [OF r] .
  ultimately have "s = start" by (simp add: word_unat_eq_iff)
  with s show ?thesis by blast
qed

lemma single_attempt_mapped:
  assumes "xsan_volume_submit_single_io_attempt E B cm rm vm vid off len buf is_read cb arg = Done (XSAN_OK, evs)"
    and "volume_get_by_id E vm vid = Some vol"
    and "xsan_volume_map_lba_to_physical E vm vid (off div ucast (block_size_bytes vol)) True = Done (Inr (did, start, pbs))"
    and "find_disk_by_id E (disk_manager vm) did = Some d"
  shows "off mod ucast (block_size_bytes vol) = 0" "len mod ucast (block_size_bytes vol) = 0"
    "off + len \<le> size_bytes vol" "len \<noteq> 0" "vm_initialized vm" "block_size_bytes vol \<noteq> 0"
    "submit_to_disk B cm rm vid d start len pbs buf is_read cb arg = Done (XSAN_OK, evs)"
  using assms by (simp_all add: xsan_volume_submit_single_io_attempt_def not_less split: if_splits)

lemma single_attempt_checks:
  assumes "xsan_volume_submit_single_io_attempt E B cm rm vm vid off len buf is_read cb arg = Done (XSAN_OK, evs)"
    and "volume_get_by_id E vm vid = Some vol"
  shows "block_size_bytes vol \<noteq> 0" "off mod ucast (block_size_bytes vol) = 0" "len mod ucast (block_size_bytes vol) = 0"
    "len \<noteq> 0" "off + len \<le> size_bytes vol"
  using assms by (simp_all add: xsan_volume_submit_single_io_attempt_def not_less split: if_splits)

text \<open>The extent \<open>e\<close> on the disk \<open>d\<close> is the one that holds the block.\<close>

definition holder ::
  "('db, 'it, 'dm) vm_env \<Rightarrow> 'dm \<Rightarrow> u32 \<Rightarrow> xsan_volume_extent_mapping list \<Rightarrow> xsan_volume_extent_mapping
     \<Rightarrow> xsan_disk \<Rightarrow> u64 \<Rightarrow> bool" where
  "holder E dm lbs es e d lba \<longleftrightarrow>
     e \<in> set es \<and> find_disk_by_id E dm (disk_id e) = Some d \<and> extent_holds e d lbs lba \<and>
     (\<forall>f\<in>set es. \<forall>d'. find_disk_by_id E dm (disk_id f) = Some d' \<and> extent_holds f d' lbs lba \<longrightarrow> f = e)"

lemma map_holder:
  assumes m: "meta_stored E W vm vid m" and vol: "volume_get_by_id E vm vid = Some vol" "lba < num_blocks vol"
    and ok: "extents_ok E (disk_manager vm) (volume_logical_block_size m) (take (unat (num_extents m)) (extents m))"
    and h: "holder E (disk_manager vm) (volume_logical_block_size m) (take (unat (num_extents m)) (extents m)) e d lba"
  shows "\<exists>p. xsan_volume_map_lba_to_physical E vm vid lba True = Done (Inr (disk_id e, p, disk_block_size_bytes d)) \<and>
     unat p = physical_block e d (volume_logical_block_size m) lba"
proof -
  let ?es = "take (unat (num_extents m)) (extents m)" and ?dm = "disk_manager vm" and ?lbs = "volume_logical_block_size m"
  have wf: "alloc_meta_wf m" using m by (simp add: meta_stored_def)
  have "extents_cover E ?dm ?lbs ?es lba" using h by (auto simp: holder_def extents_cover_def)
  from map_with_meta_mapped [OF wf ok this] obtain i d' p where i: "i < unat (num_extents m)"
    "find_disk_by_id E ?dm (disk_id (extents m ! i)) = Some d'" "extent_holds (extents m ! i) d' ?lbs lba"
    "map_with_meta E ?dm lba m = Done (Inr (disk_id (extents m ! i), p, disk_block_size_bytes d'))"
    "unat p = physical_block (extents m ! i) d' ?lbs lba"
    by blast
  have "length (extents m) = XSAN_MAX_EXTENTS_PER_VOLUME" "unat (num_extents m) \<le> length (extents m)"
    using wf by (auto simp: alloc_meta_wf_def)
  then have "extents m ! i \<in> set ?es" using i(1) nth_mem [of i ?es] by simp
  then have "extents m ! i = e" using h i(2,3) by (auto simp: holder_def)
  moreover from this have "d' = d" using h i(2) by (simp add: holder_def)
  ultimately show ?thesis using map_lba_stored [OF m vol] i(4,5) by simp
qed

lemma block_of_range:
  assumes "unat (bs :: u32) \<noteq> 0" "off mod ucast bs = 0" "len mod ucast bs = 0"
    and "unat (off :: u64) + unat len < 2 ^ 64" "off + len \<le> sz" "unat sz = unat nb * unat bs"
    and "k < unat len div unat bs"
  shows "unat (off div ucast bs + of_nat k) = unat off div unat bs + k" and "off div ucast bs + of_nat k < (nb :: u64)"
proof -
  have m: "unat off mod unat bs = 0" "unat len mod unat bs = 0"
    using assms(2,3) by (simp_all add: word_unat_eq_iff unat_mod)
  have "unat off + unat len \<le> unat nb * unat bs"
    using assms(4-6) by (simp add: word_le_nat_alt unat_add_small)
  then have "(unat off div unat bs + unat len div unat bs) * unat bs \<le> unat nb * unat bs"
    using m by (simp add: add_mult_distrib mod_eq_0_iff_dvd)
  then have le: "unat off div unat bs + unat len div unat bs \<le> unat nb" using assms(1) by simp
  then have lt: "unat off div unat bs + k < unat nb" using assms(7) by simp
  moreover have nb: "unat nb < 2 ^ 64" using unsigned_less [of nb, where 'a = nat] by simp
  ultimately have "unat (of_nat k :: u64) = k" by (simp add: unat_of_nat)
  moreover have "unat (off div ucast bs) = unat off div unat bs" by (simp add: unat_div)
  ultimately show "unat (off div ucast bs + of_nat k) = unat off div unat bs + k"
    using lt nb unat_add_small [of "off div ucast bs" "of_nat k"] by simp
  with lt show "off div ucast bs + of_nat k < nb" by (simp add: word_less_nat_alt)
qed

lemma physical_block_add:
  assumes "extent_holds e d lbs l" and "unat l' = unat l + k"
  shows "physical_block e d lbs l' = physical_block e d lbs l + k * (unat lbs div unat (disk_block_size_bytes d))"
proof -
  have "unat l' - unat (volume_start_lba e) = unat l - unat (volume_start_lba e) + k"
    using assms by (simp add: extent_holds_def)
  then show ?thesis by (simp add: physical_block_def add_mult_distrib)
qed

lemma single_io_start:
  assumes m: "meta_stored E W vm vid m" and vol: "volume_get_by_id E vm vid = Some vol"
    and lbs: "block_size_bytes vol = volume_logical_block_size m" "lbs = volume_logical_block_size m"
    and es: "es = take (unat (num_extents m)) (extents m)" and ok: "extents_ok E (disk_manager vm) lbs es"
    and h0: "holder E (disk_manager vm) lbs es e d (off div ucast lbs)" and first: "off div ucast lbs < num_blocks vol"
    and disk: "(unat (start_block_on_disk e) + unat (num_blocks_on_disk e)) * unat (disk_block_size_bytes d) < 2 ^ 64"
    and bdev: "spdk_bdev_get_by_name B (string_field XSAN_MAX_NAME_LEN (Some (disk_bdev_name d))) = Some bdev"
      "spdk_bdev_get_block_size bdev = disk_block_size_bytes d" and dma: "dma_ok B" and b: "unat len \<le> length b"
    and accepted: "xsan_volume_submit_single_io_attempt E B cm rm vm vid off len (Some b) is_read cb arg = Done (XSAN_OK, evs)"
  shows "\<exists>start n p. submissions evs = [(is_read, start, n, p)] \<and> unat start = physical_block e d lbs (off div ucast lbs) \<and>
     unat n * unat (disk_block_size_bytes d) = unat len \<and> (\<not> is_read \<longrightarrow> p = take (unat len) b)"
proof -
  obtain start where start: "xsan_volume_map_lba_to_physical E vm vid (off div ucast lbs) True =
      Done (Inr (disk_id e, start, disk_block_size_bytes d))" "unat start = physical_block e d lbs (off div ucast lbs)"
    using map_holder [OF m vol first [unfolded lbs(2)] ok [unfolded es lbs(2)] h0 [unfolded es lbs(2)]]
    unfolding lbs(2) [symmetric] by blast
  have find: "find_disk_by_id E (disk_manager vm) (disk_id e) = Some d" using h0 by (simp add: holder_def)
  have "extent_fits e d lbs" using ok h0 find by (fastforce simp: extents_ok_def holder_def)
  then have "unat start \<le> unat (start_block_on_disk e) + unat (num_blocks_on_disk e)"
    using map_in_extent_exact [of e d lbs "off div ucast lbs"] h0 start(2) by (auto simp: holder_def)
  then have "unat start * unat (disk_block_size_bytes d) < 2 ^ 64" using disk by (meson le_less_trans mult_le_mono1)
  from submit_to_disk_exact [OF single_attempt_mapped(7) [OF accepted vol start(1) [unfolded lbs(2), folded lbs(1)] find] b dma bdev this]
    start(2)
  show ?thesis by blast
qed

text \<open>Only the first block is mapped: a transfer that is longer than the rest of the extent goes on behind
  the end of the extent, to blocks that the volume does not own.\<close>

lemma single_io_leaves_extent:
  assumes "meta_stored E W vm vid m" "volume_get_by_id E vm vid = Some vol"
    "block_size_bytes vol = volume_logical_block_size m" "lbs = volume_logical_block_size m"
    "es = take (unat (num_extents m)) (extents m)" and ok: "extents_ok E (disk_manager vm) lbs es"
    and h: "holder E (disk_manager vm) lbs es e d (off div ucast lbs)" and "off div ucast lbs < num_blocks vol"
    "(unat (start_block_on_disk e) + unat (num_blocks_on_disk e)) * unat (disk_block_size_bytes d) < 2 ^ 64"
    "spdk_bdev_get_by_name B (string_field XSAN_MAX_NAME_LEN (Some (disk_bdev_name d))) = Some bdev"
    "spdk_bdev_get_block_size bdev = disk_block_size_bytes d" "dma_ok B" "unat len \<le> length b"
    "xsan_volume_submit_single_io_attempt E B cm rm vm vid off len (Some b) is_read cb arg = Done (XSAN_OK, evs)"
    and long: "unat (num_blocks_on_disk e) * unat (disk_block_size_bytes d) <
      (unat (off div ucast lbs) - unat (volume_start_lba e)) * unat lbs + unat len"
  shows "\<exists>start n p. submissions evs = [(is_read, start, n, p)] \<and>
     unat (start_block_on_disk e) + unat (num_blocks_on_disk e) < unat start + unat n"
proof -
  obtain start n p where s: "submissions evs = [(is_read, start, n, p)]"
    "unat start = physical_block e d lbs (off div ucast lbs)" "unat n * unat (disk_block_size_bytes d) = unat len"
    using single_io_start [OF assms(1-14)] by blast
  define q b0 where "q = unat lbs div unat (disk_block_size_bytes d)" and "b0 = unat (disk_block_size_bytes d)"
  have "extent_fits e d lbs" using ok h by (fastforce simp: extents_ok_def holder_def)
  then have q: "unat lbs = q * b0" by (auto simp: q_def b0_def extent_fits_def)
  have "unat (num_blocks_on_disk e) * b0 <
      ((unat (off div ucast lbs) - unat (volume_start_lba e)) * q + unat n) * b0"
    using long s(3) q by (simp add: b0_def add_mult_distrib mult.assoc)
  then have "unat (num_blocks_on_disk e) < (unat (off div ucast lbs) - unat (volume_start_lba e)) * q + unat n"
    by simp
  then show ?thesis using s(1,2) by (simp add: physical_block_def q_def)
qed

section \<open>Property\<close>

text \<open>C20: A local read or write that the volume manager accepts for a range of blocks
  that one extent of the volume holds, on a disk whose block size divides that of the volume, is submitted
  as one transfer of exactly the requested length, for a write with the user's data, and every block of the
  range is to be moved to or from the physical blocks that the map of the volume gives for that block.\<close>

theorem single_io_in_extent:
  assumes m: "meta_stored E W vm vid m" and vol: "volume_get_by_id E vm vid = Some vol"
    and lbs: "block_size_bytes vol = volume_logical_block_size m" "lbs = volume_logical_block_size m"
    and sz: "unat (size_bytes vol) = unat (num_blocks vol) * unat lbs"
    and es: "es = take (unat (num_extents m)) (extents m)" and ok: "extents_ok E (disk_manager vm) lbs es"
    and held: "\<forall>k<unat len div unat lbs. holder E (disk_manager vm) lbs es e d (off div ucast lbs + of_nat k)"
    and disk: "(unat (start_block_on_disk e) + unat (num_blocks_on_disk e)) * unat (disk_block_size_bytes d) < 2 ^ 64"
    and bdev: "spdk_bdev_get_by_name B (string_field XSAN_MAX_NAME_LEN (Some (disk_bdev_name d))) = Some bdev"
      "spdk_bdev_get_block_size bdev = disk_block_size_bytes d" and dma: "dma_ok B"
    and b: "unat len \<le> length b" and range: "unat off + unat len < 2 ^ 64"
    and accepted: "xsan_volume_submit_single_io_attempt E B cm rm vm vid off len (Some b) is_read cb arg = Done (XSAN_OK, evs)"
  shows "\<exists>start n p. submissions evs = [(is_read, start, n, p)] \<and>
     unat n * unat (disk_block_size_bytes d) = unat len \<and> (\<not> is_read \<longrightarrow> p = take (unat len) b) \<and>
     (\<forall>k<unat len div unat lbs. \<exists>q.
        xsan_volume_map_lba_to_physical E vm vid (off div ucast lbs + of_nat k) True = Done (Inr (disk_id e, q, disk_block_size_bytes d)) \<and>
        unat q = unat start + k * (unat lbs div unat (disk_block_size_bytes d)))"
proof -
  let ?bs = "disk_block_size_bytes d"
  note checks = single_attempt_checks [OF accepted vol, unfolded lbs(1), folded lbs(2)]
  have lbs0: "unat lbs \<noteq> 0" using checks(1) by (simp add: unat_eq_zero)
  note range = block_of_range [OF lbs0 checks(2,3) range checks(5) sz]
  have "unat lbs dvd unat len" using checks(3) by (simp add: word_unat_eq_iff unat_mod mod_eq_0_iff_dvd)
  moreover have "0 < unat len" using checks(4) by (simp add: unat_gt_0)
  ultimately have pos: "0 < unat len div unat lbs" using lbs0 by (simp add: div_greater_zero_iff dvd_imp_le)
  have h0: "holder E (disk_manager vm) lbs es e d (off div ucast lbs)" using held [rule_format, OF pos] by simp
  then have e0: "extent_holds e d lbs (off div ucast lbs)" by (simp add: holder_def)
  have mapped: "\<exists>q. xsan_volume_map_lba_to_physical E vm vid (off div ucast lbs + of_nat k) True =
      Done (Inr (disk_id e, q, ?bs)) \<and> unat q = physical_block e d lbs (off div ucast lbs) + k * (unat lbs div unat ?bs)"
    if k: "k < unat len div unat lbs" for k
  proof -
    have "unat (off div ucast lbs + of_nat k) = unat (off div ucast lbs) + k"
      using range(1) [OF k] by (simp add: unat_div)
    note add = physical_block_add [OF e0 this]
    show ?thesis
      using map_holder [OF m vol range(2) [OF k, unfolded lbs(2)] ok [unfolded es lbs(2)] held [rule_format, OF k, unfolded es lbs(2)]]
      unfolding lbs(2) [symmetric] add .
  qed
  have first: "off div ucast lbs < num_blocks vol" using range(2) [OF pos] by simp
  from single_io_start [OF m vol lbs es ok h0 first disk bdev dma b accepted]
  obtain start n p where "submissions evs = [(is_read, start, n, p)]"
    "unat start = physical_block e d lbs (off div ucast lbs)" "unat n * unat ?bs = unat len"
    "\<not> is_read \<longrightarrow> p = take (unat len) b"
    by blast
  with mapped show ?thesis by auto
qed

definition sample_io_bdev_env :: bdev_env where
  "sample_io_bdev_env = sample_bdev_env\<lparr>spdk_bdev_get_by_name :=
     (\<lambda>nm. if nm = ''Malloc0'' then Some (sample_bdev\<lparr>spdk_bdev_get_block_size := 512\<rparr>) else NULL)\<rparr>"

theorem single_io_in_extent_witness:
  "\<exists>evs n. xsan_volume_submit_single_io_attempt sample_env sample_io_bdev_env True True sample_stored_vm 5
       12288 8192 (Some (replicate 8192 7)) False (Some ()) () = Done (XSAN_OK, evs) \<and>
     submissions evs = [(False, 2 ^ 40 + 24, n, replicate 8192 7)] \<and> unat n = 16"
proof -
  let ?E = sample_env and ?vm = sample_stored_vm and ?B = sample_io_bdev_env
  define b where "b = replicate 8192 (7 :: u8)"
  have b: "length b = 8192" by (simp add: b_def)
  define d where "d = \<lparr>disk_block_size_bytes = 512, disk_uuid = 9, disk_bdev_name = ''Malloc0'', bdev_descriptor = True\<rparr>"
  define e where "e = (\<lparr>disk_id = 9, start_block_on_disk = 2 ^ 40, num_blocks_on_disk = 100, volume_start_lba = 0\<rparr>
    :: xsan_volume_extent_mapping)"
  have d: "find_disk_by_id ?E dm 9 = Some d" for dm by (simp add: sample_env_def d_def)
  note st = sample_meta_stored
  have vol: "volume_get_by_id ?E ?vm 5 = Some sample_volume" "block_size_bytes sample_volume = 4096"
    "size_bytes sample_volume = 409600" "num_blocks sample_volume = 100"
    by (simp_all add: sample_env_def sample_stored_vm_def sample_volume_def)
  have m: "take (unat (num_extents sample_meta)) (extents sample_meta) = [e]" "volume_logical_block_size sample_meta = 4096"
    by (simp_all add: sample_meta_def e_def)
  have ok: "extents_ok ?E (disk_manager ?vm) 4096 [e]"
    by (simp add: extents_ok_def extent_fits_def e_def d) (simp add: d_def)
  have h: "holder ?E (disk_manager ?vm) 4096 [e] e d l" if "unat l < 12" for l
    using that by (simp add: holder_def extent_holds_def e_def d) (simp add: d_def)
  have nm: "string_field XSAN_MAX_NAME_LEN (Some (disk_bdev_name d)) = ''Malloc0''"
    by (simp add: d_def string_field_eq XSAN_MAX_NAME_LEN_def)
  have B: "spdk_bdev_get_by_name ?B ''Malloc0'' = Some (sample_bdev\<lparr>spdk_bdev_get_block_size := 512\<rparr>)" "dma_ok ?B"
    by (simp_all add: sample_io_bdev_env_def dma_ok_def sample_bdev_env_def)
  obtain p where p: "xsan_volume_map_lba_to_physical ?E ?vm 5 3 True = Done (Inr (9, p, 512))" "unat p = 2 ^ 40 + 24"
    using map_holder [OF st vol(1), of 3 e d] ok h [of 3] m vol(4)
    by (auto simp: word_less_nat_alt physical_block_def e_def d_def)
  have pv: "p = 1099511627800" using p(2) by (simp add: word_unat_eq_iff)
  obtain evs where evs: "xsan_volume_submit_single_io_attempt ?E ?B True True ?vm 5 12288 8192 (Some b) False (Some ()) ()
      = Done (XSAN_OK, evs)"
    using vol p(1) d pv b nm B
    by (simp add: xsan_volume_submit_single_io_attempt_def submit_to_disk_def xsan_io_request_create_def d_def
        xsan_io_submit_request_to_bdev_def acquire_handles_def prepare_buffer_def submit_transfer_def copy_bytes_def
        sample_stored_vm_def sample_vm_def sample_io_bdev_env_def sample_bdev_env_def xsan_bdev_dma_malloc_def Let_def)
  have "\<exists>start n p. submissions evs = [(False, start, n, p)] \<and> unat n * unat (disk_block_size_bytes d) = unat (8192 :: u64) \<and>
     (\<not> False \<longrightarrow> p = take (unat (8192 :: u64)) b) \<and>
     (\<forall>k<unat (8192 :: u64) div unat (4096 :: u32). \<exists>q.
        xsan_volume_map_lba_to_physical ?E ?vm 5 (12288 div ucast (4096 :: u32) + of_nat k) True = Done (Inr (disk_id e, q, disk_block_size_bytes d)) \<and>
        unat q = unat start + k * (unat (4096 :: u32) div unat (disk_block_size_bytes d)))"
    by (rule single_io_in_extent [OF st vol(1) _ _ _ m(1) [symmetric] ok _ _ _ _ B(2) _ _ evs])
      (use vol m(2) h b nm B in \<open>auto simp: e_def d_def unat_word_ariths unat_of_nat\<close>)
  then obtain start n q where r: "submissions evs = [(False, start, n, b)]" "unat n * 512 = 8192"
    "xsan_volume_map_lba_to_physical ?E ?vm 5 3 True = Done (Inr (disk_id e, q, disk_block_size_bytes d))" "unat q = unat start"
    using b by (auto simp: d_def dest!: spec [of _ 0])
  have "q = p" using r(3) p(1) by simp
  then have "start = 2 ^ 40 + 24" using r(4) pv by (simp add: word_unat_eq_iff)
  with evs r show ?thesis by (auto simp: b_def)
qed

end
