(* ===== verification/WritePath.thy ===== *)
theory WritePath
  imports VolumeIo
begin

text \<open>
  Replicated writes: \<^verbatim>\<open>xsan_volume_write_async\<close> of src/storage/volume\_manager.c and the callbacks that
  count the results of the replicas (\<^verbatim>\<open>_xsan_local_replica_write_complete_cb\<close>,
  \<^verbatim>\<open>_xsan_remote_replica_connect_then_send_cb\<close>, \<^verbatim>\<open>_xsan_remote_replica_request_send_actual_cb\<close>,
  \<^verbatim>\<open>xsan_volume_manager_process_replica_write_response\<close>).

  The context of a write lives in the table of pending operations under its transaction; a callback
  that finds it freed ends in \<open>Bad_access\<close>. The world also has the operations that were started and
  whose callback is still to come. Three functions that the code calls are declared but defined
  nowhere, and are parameters: \<^verbatim>\<open>xsan_volume_get_by_id\<close>, \<^verbatim>\<open>xsan_node_comm_get_active_connection\<close>, and
  \<^verbatim>\<open>_xsan_check_replicated_write_completion\<close>. Of the last, \<open>completion_frame\<close> says that it touches nothing but
  the write it is called for: it may end it, which calls the user's callback and frees the context, as the
  comments on \<^verbatim>\<open>original_user_cb\<close> in xsan\_replication.h and in \<^verbatim>\<open>xsan_replicated_io_ctx_free\<close> have it. When it does
  so is left open. The values of the error codes that no header defines are the parameter \<open>code_of\<close>.
\<close>

section \<open>The world\<close>

datatype flight =
    Local_write "(unit, u64) xsan_vm_physical_io_ctx"
  | Connecting xsan_per_replica_op_ctx
  | Sending xsan_per_replica_op_ctx
  | Awaiting u64 uuid
  | Dropped xsan_per_replica_op_ctx

text \<open>A replica of a write whose result is still to come: a callback that somebody has to call, or the answer
  of the other node. \<open>Dropped\<close> are those where connecting was refused without a call of the callback; the
  code does not look at the result of the connect.\<close>

fun flight_tid :: "flight \<Rightarrow> u64" where
  "flight_tid (Local_write c) = actual_upper_cb_arg c"
| "flight_tid (Connecting p) = parent_tid p"
| "flight_tid (Sending p) = parent_tid p"
| "flight_tid (Awaiting t nid) = t"
| "flight_tid (Dropped p) = parent_tid p"

record ('db, 'dm, 'a) io_world =
  io_vm :: "('db, 'dm) xsan_volume_manager"
  pending_replicated_ios :: "u64 \<rightharpoonup> 'a xsan_replicated_io_ctx"
  s_wtid_ctr :: u64
  comm :: "xsan_per_replica_op_ctx node_comm_ctx"
  connections :: "nat \<rightharpoonup> xsan_per_replica_op_ctx xsan_connection_ctx"
  in_flight :: "flight multiset"
  user_calls :: "('a \<times> xsan_error) list"

text \<open>What a call gets from outside. \<open>volume_at\<close> is the place in the list of the volume that
  \<^verbatim>\<open>xsan_volume_get_by_id\<close> points to; sockets are numbers, and so are the replicas that allocations are
  made for. A callback that is kept in a connection is known by its argument.\<close>

record ('db, 'it, 'dm, 'a) write_env =
  w_vm :: "('db, 'it, 'dm) vm_env"
  w_bdev :: bdev_env
  w_order :: byte_order
  volume_at :: "('db, 'dm) xsan_volume_manager \<Rightarrow> uuid \<Rightarrow> nat ptr"
  check_completion :: "('db, 'dm, 'a) io_world \<Rightarrow> u64 \<Rightarrow> ('db, 'dm, 'a) io_world run"
  code_of :: "xsan_error \<Rightarrow> int"
  rep_ctx_malloc_ok :: bool
  table_put_ok :: bool
  phys_malloc_ok :: bool
  io_req_malloc_ok :: bool
  op_malloc_ok :: "nat \<Rightarrow> bool"
  msg_malloc :: "nat \<Rightarrow> malloc_results"
  msg_fresh :: "nat \<Rightarrow> u8 list"
  msg_raw :: "nat \<Rightarrow> u8 list"
  active_connection :: "string \<Rightarrow> u16 \<Rightarrow> nat ptr"
  on_spdk_thread :: bool
  connect_malloc_ok :: "nat \<Rightarrow> bool"
  sock_connect_ext :: "string \<Rightarrow> u16 \<Rightarrow> connect_result"
  sock_writev :: "nat \<Rightarrow> u8 list \<Rightarrow> writev_result"
  w_time_us :: u64

abbreviation (input) XSAN_STORAGE_STATE_FAILED :: xsan_storage_state where "XSAN_STORAGE_STATE_FAILED \<equiv> 5"

definition no_connection :: "xsan_per_replica_op_ctx xsan_connection_ctx" where
  "no_connection = the (create_connection_ctx True True True NULL)"

section \<open>Contexts and volumes\<close>

definition update_ctx ::
  "u64 \<Rightarrow> ('a xsan_replicated_io_ctx \<Rightarrow> 'a xsan_replicated_io_ctx) \<Rightarrow> ('db, 'dm, 'a) io_world
     \<Rightarrow> ('db, 'dm, 'a) io_world run" where
  "update_ctx t f w =
     (case pending_replicated_ios w t of
        None \<Rightarrow> Bad_access
      | Some c \<Rightarrow> Done (w\<lparr>pending_replicated_ios := (pending_replicated_ios w)(t \<mapsto> f c)\<rparr>))"

definition count_success :: "'a xsan_replicated_io_ctx \<Rightarrow> 'a xsan_replicated_io_ctx" where
  "count_success c = c\<lparr>successful_writes := successful_writes c + 1\<rparr>"

definition count_failure :: "xsan_error \<Rightarrow> 'a xsan_replicated_io_ctx \<Rightarrow> 'a xsan_replicated_io_ctx" where
  "count_failure err c =
     c\<lparr>failed_writes := failed_writes c + 1,
       final_status := if final_status c = XSAN_OK then err else final_status c\<rparr>"

definition count_result :: "xsan_error \<Rightarrow> 'a xsan_replicated_io_ctx \<Rightarrow> 'a xsan_replicated_io_ctx" where
  "count_result status = (if status = XSAN_OK then count_success else count_failure status)"

definition settle ::
  "('db, 'it, 'dm, 'a) write_env \<Rightarrow> u64 \<Rightarrow> ('a xsan_replicated_io_ctx \<Rightarrow> 'a xsan_replicated_io_ctx)
     \<Rightarrow> ('db, 'dm, 'a) io_world \<Rightarrow> ('db, 'dm, 'a) io_world run" where
  "settle P t f w = bind_run (update_ctx t f w) (\<lambda>w. check_completion P w t)"

definition with_lock ::
  "(('db, 'dm) xsan_volume_manager \<Rightarrow> ('db, 'dm) xsan_volume_manager) \<Rightarrow> ('db, 'dm, 'a) io_world
     \<Rightarrow> ('db, 'dm, 'a) io_world run" where
  "with_lock f w = bind_run (lock (io_vm w)) (\<lambda>vm. Done (w\<lparr>io_vm := unlock (f vm)\<rparr>))"

definition set_replica ::
  "nat \<Rightarrow> nat \<Rightarrow> (xsan_replica_location \<Rightarrow> xsan_replica_location) \<Rightarrow> ('db, 'dm) xsan_volume_manager
     \<Rightarrow> ('db, 'dm) xsan_volume_manager" where
  "set_replica i k f vm =
     (let vol = managed_volumes vm ! i in
      vm\<lparr>managed_volumes := (managed_volumes vm)[i :=
        vol\<lparr>replica_nodes := (replica_nodes vol)[k := f (replica_nodes vol ! k)]\<rparr>]\<rparr>)"

text \<open>The search for the remote replica of a node, from the second entry on.\<close>

fun replica_index :: "uuid \<Rightarrow> nat \<Rightarrow> xsan_replica_location list \<Rightarrow> nat option" where
  "replica_index nid k [] = None"
| "replica_index nid k (r # rs) = (if rl_node_id r = nid then Some k else replica_index nid (Suc k) rs)"

definition find_replica :: "xsan_volume \<Rightarrow> uuid \<Rightarrow> nat option run" where
  "find_replica vol nid =
     (case replica_index nid 1 (drop 1 (take (unat (actual_replica_count vol)) (replica_nodes vol))) of
        Some k \<Rightarrow> Done (Some k)
      | None \<Rightarrow> if unat (actual_replica_count vol) > length (replica_nodes vol) then Bad_access else Done None)"

definition locate_replica ::
  "('db, 'it, 'dm, 'a) write_env \<Rightarrow> ('db, 'dm, 'a) io_world \<Rightarrow> uuid \<Rightarrow> uuid \<Rightarrow> (nat \<times> nat) option run" where
  "locate_replica P w vid nid =
     (case volume_at P (io_vm w) vid of
        NULL \<Rightarrow> Done None
      | Some i \<Rightarrow>
          bind_run (lock (io_vm w)) (\<lambda>vm.
            bind_run (find_replica (managed_volumes vm ! i) nid) (\<lambda>k. Done (map_option (Pair i) k))))"

definition set_located ::
  "(nat \<times> nat) option \<Rightarrow> (xsan_replica_location \<Rightarrow> xsan_replica_location) \<Rightarrow> ('db, 'dm, 'a) io_world
     \<Rightarrow> ('db, 'dm, 'a) io_world run" where
  "set_located place f w =
     (case place of None \<Rightarrow> Done w | Some (i, k) \<Rightarrow> with_lock (set_replica i k f) w)"

section \<open>Callbacks\<close>

definition contact :: "('db, 'it, 'dm, 'a) write_env \<Rightarrow> xsan_storage_state \<Rightarrow> xsan_error
     \<Rightarrow> xsan_replica_location \<Rightarrow> xsan_replica_location" where
  "contact P bad status r =
     (if status = XSAN_OK
      then r\<lparr>rl_state := XSAN_STORAGE_STATE_ONLINE, last_successful_contact_time_us := w_time_us P\<rparr>
      else r\<lparr>rl_state := bad\<rparr>)"

definition xsan_local_replica_write_complete_cb ::
  "('db, 'it, 'dm, 'a) write_env \<Rightarrow> ('db, 'dm, 'a) io_world \<Rightarrow> u64 \<Rightarrow> xsan_error \<Rightarrow> ('db, 'dm, 'a) io_world run" where
  "xsan_local_replica_write_complete_cb P w t status =
     (case pending_replicated_ios w t of
        None \<Rightarrow> Bad_access
      | Some c \<Rightarrow>
          bind_run
            (case volume_at P (io_vm w) (rc_volume_id c) of
               NULL \<Rightarrow> Done w
             | Some i \<Rightarrow>
                 if actual_replica_count (managed_volumes (io_vm w) ! i) > 0
                 then with_lock (set_replica i 0 (contact P XSAN_STORAGE_STATE_FAILED status)) w
                 else Done w)
            (settle P t (\<lambda>c. (count_result status c)\<lparr>local_io_req := False\<rparr>)))"

definition xsan_remote_replica_request_send_actual_cb ::
  "('db, 'it, 'dm, 'a) write_env \<Rightarrow> ('db, 'dm, 'a) io_world \<Rightarrow> xsan_per_replica_op_ctx \<Rightarrow> int
     \<Rightarrow> ('db, 'dm, 'a) io_world run" where
  "xsan_remote_replica_request_send_actual_cb P w p comm_status =
     (case pending_replicated_ios w (parent_tid p) of
        None \<Rightarrow> Bad_access
      | Some c \<Rightarrow>
          bind_run (locate_replica P w (rc_volume_id c) (rl_node_id (replica_location_info p))) (\<lambda>place.
            if comm_status \<noteq> 0 then
              bind_run (set_located place (rl_state_update (\<lambda>_. XSAN_STORAGE_STATE_OFFLINE)) w)
                (settle P (parent_tid p) (count_failure (xsan_error_from_errno (- comm_status))))
            else
              Done (w\<lparr>in_flight := add_mset (Awaiting (parent_tid p) (rl_node_id (replica_location_info p))) (in_flight w)\<rparr>)))"

text \<open>The context of the replica is freed in the callback above. If the send has called it and also returns
  an error, the code calls it again with the freed context.\<close>

definition send_request ::
  "('db, 'it, 'dm, 'a) write_env \<Rightarrow> ('db, 'dm, 'a) io_world \<Rightarrow> xsan_per_replica_op_ctx \<Rightarrow> nat
     \<Rightarrow> send_result \<times> ('db, 'dm, 'a) io_world" where
  "send_request P w p s =
     (case connections w s of
        None \<Rightarrow> (fst (xsan_node_comm_send_msg (w_order P) (comm w) True (on_spdk_thread P) no_connection False
                        (request_msg_to_send p) (Some p) (sock_writev P s)), w)
      | Some c \<Rightarrow>
          (case xsan_node_comm_send_msg (w_order P) (comm w) True (on_spdk_thread P) c True
                  (request_msg_to_send p) (Some p) (sock_writev P s) of
             (res, c) \<Rightarrow> (res, w\<lparr>connections := (connections w)(s \<mapsto> c)\<rparr>)))"

definition xsan_remote_replica_connect_then_send_cb ::
  "('db, 'it, 'dm, 'a) write_env \<Rightarrow> ('db, 'dm, 'a) io_world \<Rightarrow> xsan_per_replica_op_ctx \<Rightarrow> nat ptr \<Rightarrow> int
     \<Rightarrow> ('db, 'dm, 'a) io_world run" where
  "xsan_remote_replica_connect_then_send_cb P w p sock status =
     (if request_msg_to_send p = NULL then Done w
      else
        (case pending_replicated_ios w (parent_tid p) of
           None \<Rightarrow> Bad_access
         | Some c \<Rightarrow>
             bind_run (locate_replica P w (rc_volume_id c) (rl_node_id (replica_location_info p))) (\<lambda>place.
               if status = 0 \<and> sock \<noteq> NULL then
                 (case send_request P w p (the sock) of
                    (res, w) \<Rightarrow>
                      (case cb_status res of
                         Some st \<Rightarrow>
                           bind_run (xsan_remote_replica_request_send_actual_cb P w p st) (\<lambda>w.
                             if send_status res \<noteq> XSAN_OK then Bad_access else Done w)
                       | None \<Rightarrow>
                           if send_status res \<noteq> XSAN_OK
                           then xsan_remote_replica_request_send_actual_cb P w p (code_of P (send_status res))
                           else Done (w\<lparr>in_flight := add_mset (Sending p) (in_flight w)\<rparr>)))
               else
                 bind_run (set_located place (rl_state_update (\<lambda>_. XSAN_STORAGE_STATE_OFFLINE)) w)
                   (settle P (parent_tid p) (count_failure (xsan_error_from_errno (- status)))))))"

definition xsan_volume_manager_process_replica_write_response ::
  "('db, 'it, 'dm, 'a) write_env \<Rightarrow> ('db, 'dm, 'a) io_world \<Rightarrow> u64 \<Rightarrow> uuid \<Rightarrow> xsan_error
     \<Rightarrow> ('db, 'dm, 'a) io_world run" where
  "xsan_volume_manager_process_replica_write_response P w t nid status =
     (if \<not> vm_initialized (io_vm w) then Done w
      else
        (case pending_replicated_ios w t of
           None \<Rightarrow> Done w
         | Some c \<Rightarrow>
             bind_run (locate_replica P w (rc_volume_id c) nid) (\<lambda>place.
             bind_run (set_located place (contact P XSAN_STORAGE_STATE_DEGRADED status) w)
               (settle P t (count_result status)))))"

section \<open>The write\<close>

text \<open>The packed structure of a write request, in the byte order of the host.\<close>

definition write_req_payload :: "byte_order \<Rightarrow> uuid \<Rightarrow> u64 \<Rightarrow> u32 \<Rightarrow> u8 list" where
  "write_req_payload bo vid lba n = le_bytes 16 vid @ mem_bytes bo 8 lba @ mem_bytes bo 4 n"

definition write_message ::
  "('db, 'it, 'dm, 'a) write_env \<Rightarrow> nat \<Rightarrow> u64 \<Rightarrow> uuid \<Rightarrow> u64 \<Rightarrow> u64 \<Rightarrow> u32 \<Rightarrow> u8 list \<Rightarrow> xsan_message ptr" where
  "write_message P i t vid off len bs buf =
     xsan_protocol_message_create_with_data (w_order P) (msg_malloc P i) (msg_fresh P i) (msg_raw P i)
       XSAN_MSG_TYPE_REPLICA_WRITE_BLOCK_REQ t
       (Some (write_req_payload (w_order P) vid (off div ucast bs) (ucast (len div ucast bs)))) 28
       (Some buf) (ucast len)"

definition writable :: "xsan_replica_location \<Rightarrow> bool" where
  "writable r \<longleftrightarrow> rl_state r = XSAN_STORAGE_STATE_ONLINE \<or> rl_state r = XSAN_STORAGE_STATE_DEGRADED"

definition op_ctx :: "u64 \<Rightarrow> xsan_replica_location \<Rightarrow> xsan_message ptr \<Rightarrow> xsan_per_replica_op_ctx" where
  "op_ctx t loc msg = \<lparr>parent_tid = t, replica_location_info = loc, request_msg_to_send = msg\<rparr>"

definition local_ctx :: "u64 \<Rightarrow> uuid \<Rightarrow> u64 \<Rightarrow> u8 list \<Rightarrow> (unit, u64) xsan_vm_physical_io_ctx" where
  "local_ctx t vid len buf = \<lparr>actual_upper_cb = Some (), actual_upper_cb_arg = t, original_user_buffer = Some buf,
     phys_is_read_op = False, phys_length_bytes = len, volume_id_for_log = vid\<rparr>"

definition write_local ::
  "('db, 'it, 'dm, 'a) write_env \<Rightarrow> ('db, 'dm, 'a) io_world \<Rightarrow> u64 \<Rightarrow> uuid \<Rightarrow> u64 \<Rightarrow> u64 \<Rightarrow> u8 list
     \<Rightarrow> ('db, 'dm, 'a) io_world run" where
  "write_local P w t vid off len buf =
     bind_run (xsan_volume_submit_single_io_attempt
                 ((w_vm P)\<lparr>volume_get_by_id := \<lambda>vm vid. map_option ((!) (managed_volumes vm)) (volume_at P vm vid)\<rparr>) (w_bdev P) (phys_malloc_ok P) (io_req_malloc_ok P)
                 (io_vm w) vid off len (Some buf) False (Some ()) t) (\<lambda>(submit_status, evs).
       if submit_status \<noteq> XSAN_OK then xsan_local_replica_write_complete_cb P w t submit_status
       else Done (w\<lparr>in_flight := add_mset (Local_write (local_ctx t vid len buf)) (in_flight w)\<rparr>))"

definition write_remote ::
  "('db, 'it, 'dm, 'a) write_env \<Rightarrow> ('db, 'dm, 'a) io_world \<Rightarrow> u64 \<Rightarrow> uuid \<Rightarrow> u64 \<Rightarrow> u64 \<Rightarrow> u32 \<Rightarrow> u8 list
     \<Rightarrow> nat \<Rightarrow> xsan_replica_location \<Rightarrow> ('db, 'dm, 'a) io_world run" where
  "write_remote P w t vid off len bs buf i loc =
     (if \<not> op_malloc_ok P i then settle P t (count_failure XSAN_ERROR_OUT_OF_MEMORY) w
      else
        (case write_message P i t vid off len bs buf of
           NULL \<Rightarrow> settle P t (count_failure XSAN_ERROR_OUT_OF_MEMORY) w
         | Some msg \<Rightarrow>
             (let p = op_ctx t loc (Some msg) in
              (case active_connection P (node_ip_addr loc) (node_comm_port loc) of
                 Some sock \<Rightarrow> xsan_remote_replica_connect_then_send_cb P w p (Some sock) 0
               | NULL \<Rightarrow>
                   (case xsan_node_comm_connect (comm w) (on_spdk_thread P) (connect_malloc_ok P i)
                           (Some (node_ip_addr loc)) (node_comm_port loc) True (sock_connect_ext P) of
                      (err, Some status) \<Rightarrow> xsan_remote_replica_connect_then_send_cb P w p NULL status
                    | (err, None) \<Rightarrow>
                        Done (w\<lparr>in_flight := add_mset (if err = XSAN_OK then Connecting p else Dropped p)
                                                (in_flight w)\<rparr>))))))"

definition write_replica ::
  "('db, 'it, 'dm, 'a) write_env \<Rightarrow> ('db, 'dm, 'a) io_world \<Rightarrow> u64 \<Rightarrow> uuid \<Rightarrow> u64 \<Rightarrow> u64 \<Rightarrow> u32 \<Rightarrow> u8 list
     \<Rightarrow> nat \<Rightarrow> xsan_replica_location \<Rightarrow> ('db, 'dm, 'a) io_world run" where
  "write_replica P w t vid off len bs buf i loc =
     (if \<not> writable loc then
        (if i = 0 then xsan_local_replica_write_complete_cb P w t XSAN_ERROR_RESOURCE_UNAVAILABLE
         else if op_malloc_ok P i then
           xsan_remote_replica_request_send_actual_cb P w (op_ctx t loc NULL) (code_of P XSAN_ERROR_RESOURCE_UNAVAILABLE)
         else settle P t (count_failure XSAN_ERROR_RESOURCE_UNAVAILABLE) w)
      else if i = 0 then write_local P w t vid off len buf
      else write_remote P w t vid off len bs buf i loc)"

fun write_loop ::
  "('db, 'it, 'dm, 'a) write_env \<Rightarrow> ('db, 'dm, 'a) io_world \<Rightarrow> u64 \<Rightarrow> uuid \<Rightarrow> u64 \<Rightarrow> u64 \<Rightarrow> u32 \<Rightarrow> u8 list
     \<Rightarrow> nat \<Rightarrow> xsan_replica_location list \<Rightarrow> ('db, 'dm, 'a) io_world run" where
  "write_loop P w t vid off len bs buf i [] = Done w"
| "write_loop P w t vid off len bs buf i (loc # locs) =
     bind_run (write_replica P w t vid off len bs buf i loc) (\<lambda>w.
       write_loop P w t vid off len bs buf (Suc i) locs)"

text \<open>After the loop, when no replica was in a state to be written to.\<close>

definition no_replica_writable ::
  "('db, 'it, 'dm, 'a) write_env \<Rightarrow> ('db, 'dm, 'a) io_world \<Rightarrow> u64 \<Rightarrow> ('db, 'dm, 'a) io_world run" where
  "no_replica_writable P w t =
     settle P t (\<lambda>c. c\<lparr>final_status := XSAN_ERROR_REPLICATION_UNAVAILABLE,
                        failed_writes := failed_writes c + total_replicas_targeted c\<rparr>) w"

definition write_replicas ::
  "('db, 'it, 'dm, 'a) write_env \<Rightarrow> ('db, 'dm, 'a) io_world \<Rightarrow> u64 \<Rightarrow> xsan_volume \<Rightarrow> uuid \<Rightarrow> u64 \<Rightarrow> u64 \<Rightarrow> u8 list
     \<Rightarrow> (('db, 'dm, 'a) io_world \<times> xsan_error) run" where
  "write_replicas P w t vol vid off len buf =
     (let copies = take (unat (actual_replica_count vol)) (replica_nodes vol) in
      bind_run (write_loop P w t vid off len (block_size_bytes vol) buf 0 copies) (\<lambda>w.
        if \<not> list_ex writable copies
        then bind_run (no_replica_writable P w t) (\<lambda>w. Done (w, XSAN_ERROR_REPLICATION_UNAVAILABLE))
        else Done (w, XSAN_OK)))"

definition xsan_volume_write_async ::
  "('db, 'it, 'dm, 'a) write_env \<Rightarrow> ('db, 'dm, 'a) io_world \<Rightarrow> uuid \<Rightarrow> u64 \<Rightarrow> u64 \<Rightarrow> u8 list ptr \<Rightarrow> bool \<Rightarrow> 'a
     \<Rightarrow> (('db, 'dm, 'a) io_world \<times> xsan_error) run" where
  "xsan_volume_write_async P w vid off len user_buf has_cb arg =
     (case user_buf of
        NULL \<Rightarrow> Done (w, XSAN_ERROR_INVALID_PARAM)
      | Some buf \<Rightarrow>
          if \<not> vm_initialized (io_vm w) \<or> len = 0 \<or> \<not> has_cb \<or> spdk_uuid_is_null (uu (w_vm P)) vid
          then Done (w, XSAN_ERROR_INVALID_PARAM)
          else
            (case volume_at P (io_vm w) vid of
               NULL \<Rightarrow> Done (w, XSAN_ERROR_NOT_FOUND)
             | Some i \<Rightarrow>
                 bind_run (lock (io_vm w)) (\<lambda>vm.
                   let vol = managed_volumes vm ! i; bs = block_size_bytes vol in
                   if vol_state vol = XSAN_STORAGE_STATE_OFFLINE \<or> vol_state vol = XSAN_STORAGE_STATE_FAILED
                   then Done (w, XSAN_ERROR_RESOURCE_UNAVAILABLE)
                   else if bs = 0 \<or> off mod ucast bs \<noteq> 0 \<or> len mod ucast bs \<noteq> 0 \<or> off + len > size_bytes vol
                   then Done (w, XSAN_ERROR_INVALID_PARAM_ALIGNMENT)
                   else if actual_replica_count vol = 0 then Done (w, XSAN_ERROR_REPLICATION_UNAVAILABLE)
                   else
                     let t = s_wtid_ctr w; w = w\<lparr>s_wtid_ctr := t + 1\<rparr> in
                     (case xsan_replicated_io_ctx_create (rep_ctx_malloc_ok P) has_cb arg (Some vol) user_buf off len t of
                        NULL \<Rightarrow> Done (w, XSAN_ERROR_OUT_OF_MEMORY)
                      | Some c \<Rightarrow>
                          if \<not> table_put_ok P then Done (w, XSAN_ERROR_OUT_OF_MEMORY)
                          else write_replicas P
                                 (w\<lparr>pending_replicated_ios := (pending_replicated_ios w)(t \<mapsto> c)\<rparr>)
                                 t vol vid off len buf))))"

section \<open>The laws of the parameters\<close>

definition ended :: "u64 \<Rightarrow> 'a xsan_replicated_io_ctx \<Rightarrow> xsan_error \<Rightarrow> ('db, 'dm, 'a) io_world \<Rightarrow> ('db, 'dm, 'a) io_world" where
  "ended t c status w = w\<lparr>pending_replicated_ios := (pending_replicated_ios w)(t := None),
     user_calls := user_calls w @ [(original_user_cb_arg c, status)]\<rparr>"

definition completion_frame :: "('db, 'it, 'dm, 'a) write_env \<Rightarrow> bool" where
  "completion_frame P \<longleftrightarrow>
     (\<forall>w t c. pending_replicated_ios w t = Some c \<longrightarrow>
        check_completion P w t = Done w \<or> (\<exists>status. check_completion P w t = Done (ended t c status w)))"

text \<open>The check does not end a write before all its replicas are counted; and it ends it then.\<close>

definition all_counted :: "'a xsan_replicated_io_ctx \<Rightarrow> bool" where
  "all_counted c \<longleftrightarrow> unat (successful_writes c) + unat (failed_writes c) = unat (total_replicas_targeted c)"

definition waits_for_all :: "('db, 'it, 'dm, 'a) write_env \<Rightarrow> bool" where
  "waits_for_all P \<longleftrightarrow>
     (\<forall>w t c. pending_replicated_ios w t = Some c \<longrightarrow> \<not> all_counted c \<longrightarrow> check_completion P w t = Done w)"

definition ends_when_all :: "('db, 'it, 'dm, 'a) write_env \<Rightarrow> bool" where
  "ends_when_all P \<longleftrightarrow>
     (\<forall>w t c. pending_replicated_ios w t = Some c \<longrightarrow> all_counted c \<longrightarrow>
        (\<exists>status. check_completion P w t = Done (ended t c status w)))"

definition write_env_ok :: "('db, 'it, 'dm, 'a) write_env \<Rightarrow> bool" where
  "write_env_ok P \<longleftrightarrow> completion_frame P \<and>
     (\<forall>vm vid i. volume_at P vm vid = Some i \<longrightarrow> i < length (managed_volumes vm)) \<and>
     (\<forall>e. e \<noteq> XSAN_OK \<longrightarrow> code_of P e \<noteq> 0) \<and>
     (\<forall>ip port e. sock_connect_ext P ip port = Connect_failed e \<longrightarrow> e \<noteq> 0)"

text \<open>The laws together with those of the two that are wanted.\<close>

definition env_ok :: "bool \<Rightarrow> bool \<Rightarrow> ('db, 'it, 'dm, 'a) write_env \<Rightarrow> bool" where
  "env_ok waits ends P \<longleftrightarrow> write_env_ok P \<and> (waits \<longrightarrow> waits_for_all P) \<and> (ends \<longrightarrow> ends_when_all P)"

lemma env_laws:
  assumes "env_ok W E P"
  shows "volume_at P vm vid = Some i \<Longrightarrow> i < length (managed_volumes vm)"
    and "e \<noteq> XSAN_OK \<Longrightarrow> code_of P e \<noteq> 0"
    and "sock_connect_ext P ip port = Connect_failed n \<Longrightarrow> n \<noteq> 0"
  using assms by (auto simp: env_ok_def write_env_ok_def)

lemma completion_law:
  assumes "env_ok W E P" "pending_replicated_ios w t = Some c"
  obtains "check_completion P w t = Done w" "E \<Longrightarrow> \<not> all_counted c"
  | status where "check_completion P w t = Done (ended t c status w)" "W \<Longrightarrow> all_counted c"
proof (cases "check_completion P w t = Done w \<and> (E \<longrightarrow> \<not> all_counted c)")
  case False
  have "\<exists>status. check_completion P w t = Done (ended t c status w) \<and> (W \<longrightarrow> all_counted c)"
  proof (cases "all_counted c \<and> E")
    case True
    then show ?thesis using assms by (auto simp: env_ok_def ends_when_all_def)
  next
    case e: False
    then have no: "check_completion P w t \<noteq> Done w" using False by auto
    then have "W \<longrightarrow> all_counted c" using assms by (auto simp: env_ok_def waits_for_all_def)
    with no show ?thesis using assms unfolding env_ok_def write_env_ok_def completion_frame_def by blast
  qed
  with that(2) show thesis by blast
qed (use that(1) in blast)

section \<open>The books of a write\<close>

text \<open>\<open>k\<close> is the number of replicas that the loop still has to start. If the check waits for all replicas, a
  context is gone only when nothing is to come; if it ends a write then, something is to come as long as
  the context is there.\<close>

definition flights :: "u64 \<Rightarrow> ('db, 'dm, 'a) io_world \<Rightarrow> nat" where
  "flights t w = size (filter_mset (\<lambda>f. flight_tid f = t) (in_flight w))"

definition books :: "bool \<Rightarrow> bool \<Rightarrow> nat \<Rightarrow> ('db, 'dm, 'a) io_world \<Rightarrow> u64 \<Rightarrow> bool" where
  "books waits ends k w t \<longleftrightarrow>
     (case pending_replicated_ios w t of
        None \<Rightarrow> waits \<longrightarrow> k = 0 \<and> flights t w = 0
      | Some c \<Rightarrow>
          unat (successful_writes c) + unat (failed_writes c) + flights t w + k = unat (total_replicas_targeted c) \<and>
          unat (total_replicas_targeted c) \<le> XSAN_MAX_REPLICAS \<and> (ends \<longrightarrow> 0 < k + flights t w) \<and>
          (final_status c = XSAN_OK \<longleftrightarrow> failed_writes c = 0))"

definition waiting :: "(u64 \<rightharpoonup> 'a xsan_replicated_io_ctx) \<Rightarrow> 'a multiset" where
  "waiting m = image_mset (\<lambda>t. original_user_cb_arg (the (m t))) (mset_set (dom m))"

definition tally :: "('db, 'dm, 'a) io_world \<Rightarrow> 'a multiset" where
  "tally w = mset (map fst (user_calls w)) + waiting (pending_replicated_ios w)"

lemma waiting_rest:
  assumes "finite (dom m)"
  shows "waiting (m(t := None)) = image_mset (\<lambda>t. original_user_cb_arg (the (m t))) (mset_set (dom m - {t}))"
  using assms by (auto simp: waiting_def intro!: image_mset_cong)

lemma waiting_update:
  assumes "finite (dom m)"
  shows "waiting (m(t \<mapsto> c)) = add_mset (original_user_cb_arg c) (waiting (m(t := None)))"
proof -
  have "waiting (m(t \<mapsto> c)) = add_mset (original_user_cb_arg c)
      (image_mset (\<lambda>t'. original_user_cb_arg (the ((m(t \<mapsto> c)) t'))) (mset_set (dom m - {t})))"
    using assms by (simp add: waiting_def mset_set.insert_remove)
  also have "image_mset (\<lambda>t'. original_user_cb_arg (the ((m(t \<mapsto> c)) t'))) (mset_set (dom m - {t})) = waiting (m(t := None))"
    unfolding waiting_rest [OF assms] using assms by (intro image_mset_cong) simp
  finally show ?thesis .
qed

lemma waiting_same:
  "finite (dom m) \<Longrightarrow> m t = Some c \<Longrightarrow> original_user_cb_arg d = original_user_cb_arg c \<Longrightarrow> waiting (m(t \<mapsto> d)) = waiting m"
  using waiting_update [of m t c] waiting_update [of m t d] by (simp add: map_upd_triv)

definition idle :: "('db, 'dm, 'a) io_world \<Rightarrow> bool" where
  "idle w \<longleftrightarrow> vm_initialized (io_vm w) \<and> \<not> vm_lock (io_vm w) \<and> finite (dom (pending_replicated_ios w)) \<and>
     (\<forall>p. Connecting p \<in># in_flight w \<longrightarrow> request_msg_to_send p \<noteq> NULL) \<and>
     (\<forall>v\<in>set (managed_volumes (io_vm w)). unat (actual_replica_count v) \<le> length (replica_nodes v))"

definition keeps :: "bool \<Rightarrow> bool \<Rightarrow> u64 \<Rightarrow> nat \<Rightarrow> ('db, 'dm, 'a) io_world \<Rightarrow> ('db, 'dm, 'a) io_world \<Rightarrow> bool" where
  "keeps W E t k w w' \<longleftrightarrow> idle w' \<and> books W E k w' t \<and> tally w' = tally w \<and>
     (\<forall>t'. t' \<noteq> t \<longrightarrow> books W E 0 w t' \<longrightarrow> books W E 0 w' t')"

lemma keeps_trans: "keeps W E t k w w' \<Longrightarrow> keeps W E t j w' w'' \<Longrightarrow> keeps W E t j w w''"
  by (auto simp: keeps_def)

lemma books_cong:
  "pending_replicated_ios w' t = pending_replicated_ios w t \<Longrightarrow> flights t w' = flights t w \<Longrightarrow>
     books W E k w' t = books W E k w t"
  by (simp add: books_def split: option.split)

lemma flights_update [simp]:
  "flights t (w\<lparr>pending_replicated_ios := p\<rparr>) = flights t w"
  "flights t (w\<lparr>user_calls := u\<rparr>) = flights t w"
  "flights t (w\<lparr>io_vm := vm\<rparr>) = flights t w"
  "flights t (w\<lparr>s_wtid_ctr := n\<rparr>) = flights t w"
  "flights t (w\<lparr>connections := cs\<rparr>) = flights t w"
  "flights t (w\<lparr>in_flight := add_mset f (in_flight w)\<rparr>) = (if flight_tid f = t then Suc (flights t w) else flights t w)"
  by (simp_all add: flights_def)

text \<open>A result that is counted.\<close>

definition counts :: "('a xsan_replicated_io_ctx \<Rightarrow> 'a xsan_replicated_io_ctx) \<Rightarrow> bool" where
  "counts f \<longleftrightarrow> (\<forall>c. unat (successful_writes c) + unat (failed_writes c) < XSAN_MAX_REPLICAS \<longrightarrow>
      unat (successful_writes (f c)) + unat (failed_writes (f c)) =
        Suc (unat (successful_writes c) + unat (failed_writes c)) \<and>
      ((final_status c = XSAN_OK \<longleftrightarrow> failed_writes c = 0) \<longrightarrow>
         (final_status (f c) = XSAN_OK \<longleftrightarrow> failed_writes (f c) = 0))) \<and>
     (\<forall>c. total_replicas_targeted (f c) = total_replicas_targeted c \<and>
       original_user_cb_arg (f c) = original_user_cb_arg c)"

lemma unat_Suc_small: "unat (x :: u32) < XSAN_MAX_REPLICAS \<Longrightarrow> unat (x + 1) = Suc (unat x) \<and> x + 1 \<noteq> 0"
proof -
  assume "unat x < XSAN_MAX_REPLICAS"
  then have "unat (x + 1) = Suc (unat x)" by (simp add: XSAN_MAX_REPLICAS_def unat_word_ariths)
  then show ?thesis by (metis Zero_not_Suc unat_0)
qed

lemma counts_success: "counts count_success"
  using unat_Suc_small by (auto simp: counts_def count_success_def)

lemma counts_failure: "err \<noteq> XSAN_OK \<Longrightarrow> counts (count_failure err)"
  using unat_Suc_small by (auto simp: counts_def count_failure_def)

lemma counts_result: "counts (count_result status)"
  by (simp add: count_result_def counts_success counts_failure)

lemma counts_local: "counts f \<Longrightarrow> counts (\<lambda>c. (f c)\<lparr>local_io_req := b\<rparr>)"
  by (simp add: counts_def)

lemma settle_keeps:
  assumes P: "env_ok W E P" and w: "idle w" and b: "books W E (Suc k) w t" and f: "counts f"
    and c: "pending_replicated_ios w t = Some c"
  shows "\<exists>w'. settle P t f w = Done w' \<and> keeps W E t k w w' \<and> in_flight w' = in_flight w"
proof -
  let ?w = "w\<lparr>pending_replicated_ios := (pending_replicated_ios w)(t \<mapsto> f c)\<rparr>"
  have n: "unat (successful_writes c) + unat (failed_writes c) + flights t w + Suc k = unat (total_replicas_targeted c)"
    "unat (total_replicas_targeted c) \<le> XSAN_MAX_REPLICAS" "final_status c = XSAN_OK \<longleftrightarrow> failed_writes c = 0"
    using b c by (auto simp: books_def)
  have fc: "unat (successful_writes (f c)) + unat (failed_writes (f c)) + flights t w + k = unat (total_replicas_targeted (f c))"
    "total_replicas_targeted (f c) = total_replicas_targeted c" "original_user_cb_arg (f c) = original_user_cb_arg c"
    "final_status (f c) = XSAN_OK \<longleftrightarrow> failed_writes (f c) = 0"
    using f n unfolding counts_def by auto
  have fin: "finite (dom (pending_replicated_ios w))" using w by (simp add: idle_def)
  have s: "settle P t f w = check_completion P ?w t" using c by (simp add: settle_def update_ctx_def)
  have "pending_replicated_ios ?w t = Some (f c)" by simp
  from P this show ?thesis
  proof (cases rule: completion_law)
    case 1
    have "keeps W E t k w ?w"
      using 1(2) w fin waiting_same [OF fin c fc(3)] fc n(2)
      by (auto simp: keeps_def idle_def books_def tally_def all_counted_def split: option.splits)
    with 1(1) s show ?thesis by simp
  next
    case (2 status)
    have "W \<Longrightarrow> flights t w + k = 0" using 2(2) fc(1) by (simp add: all_counted_def)
    then have "keeps W E t k w (ended t (f c) status ?w)"
      using w fin waiting_update [OF fin, of t c] c
      by (auto simp: keeps_def idle_def books_def tally_def ended_def fc(3) map_upd_triv split: option.splits)
    with 2(1) s show ?thesis by (simp add: ended_def)
  qed
qed

lemma settle_gone: "pending_replicated_ios w t = None \<Longrightarrow> settle P t f w = Bad_access"
  by (simp add: settle_def update_ctx_def)

text \<open>The states of the replicas do not matter to the books.\<close>

definition only_volumes :: "('db, 'dm, 'a) io_world \<Rightarrow> ('db, 'dm, 'a) io_world \<Rightarrow> bool" where
  "only_volumes w w' \<longleftrightarrow> (\<exists>vm conns. w' = w\<lparr>io_vm := vm, connections := conns\<rparr>) \<and> idle w'"

lemma only_volumes_books:
  assumes "only_volumes w w'"
  shows "books W E k w' t = books W E k w t" and "tally w' = tally w" and "idle w'"
    and "pending_replicated_ios w' = pending_replicated_ios w" and "in_flight w' = in_flight w"
    and "s_wtid_ctr w' = s_wtid_ctr w" and "user_calls w' = user_calls w"
  using assms by (auto simp: only_volumes_def books_def tally_def split: option.split)

lemma only_volumes_keeps:
  "only_volumes w w' \<Longrightarrow> keeps W E t k w' w'' \<Longrightarrow> keeps W E t k w w''"
  using only_volumes_books [of w w'] by (simp add: keeps_def)

lemma only_volumes_refl: "idle w \<Longrightarrow> only_volumes w w"
  unfolding only_volumes_def by (rule conjI, rule exI [of _ "io_vm w"], rule exI [of _ "connections w"]) simp_all

lemma set_replica_counts:
  assumes "\<forall>v\<in>set vols. unat (actual_replica_count v) \<le> length (replica_nodes v)"
  shows "\<forall>v\<in>set (vols[i := (vols ! i)\<lparr>replica_nodes := (replica_nodes (vols ! i))[k := r]\<rparr>]).
      unat (actual_replica_count v) \<le> length (replica_nodes v)"
  using assms by (cases "i < length vols") (auto simp: list_update_beyond dest!: set_update_subset_insert [THEN subsetD])

lemma set_replica_idle:
  assumes w: "idle w"
  shows "only_volumes w (w\<lparr>io_vm := unlock (set_replica i k f (io_vm w\<lparr>vm_lock := True\<rparr>))\<rparr>)"
proof -
  have "idle (w\<lparr>io_vm := unlock (set_replica i k f (io_vm w\<lparr>vm_lock := True\<rparr>))\<rparr>)"
    using w set_replica_counts [of "managed_volumes (io_vm w)"] by (simp add: idle_def set_replica_def unlock_def Let_def)
  moreover have "w\<lparr>io_vm := vm\<rparr> = w\<lparr>io_vm := vm, connections := connections w\<rparr>" for vm by simp
  ultimately show ?thesis unfolding only_volumes_def by blast
qed

lemma with_lock_idle: "idle w \<Longrightarrow> \<exists>w'. with_lock (set_replica i k f) w = Done w' \<and> only_volumes w w'"
  using set_replica_idle [of w i k f] by (auto simp: with_lock_def lock_def idle_def)

lemma set_located_idle: "idle w \<Longrightarrow> \<exists>w'. set_located place f w = Done w' \<and> only_volumes w w'"
  using with_lock_idle [of w] only_volumes_refl [of w] by (auto simp: set_located_def split: option.split)

lemma locate_idle: "env_ok W E P \<Longrightarrow> idle w \<Longrightarrow> \<exists>place. locate_replica P w vid nid = Done place"
  using env_laws(1) [of W E P "io_vm w" vid] nth_mem [of _ "managed_volumes (io_vm w)"]
  by (auto simp: locate_replica_def idle_def lock_def find_replica_def not_less [symmetric] split: option.split)

lemma located_settle:
  assumes P: "env_ok W E P" and w: "idle w" and b: "books W E (Suc k) w t" and f: "counts f"
    and c: "pending_replicated_ios w t = Some c"
  shows "\<exists>w'. bind_run (set_located place g w) (settle P t f) = Done w' \<and> keeps W E t k w w' \<and> in_flight w' = in_flight w"
proof -
  obtain v where v: "set_located place g w = Done v" "only_volumes w v" using set_located_idle [OF w] by blast
  note ov = only_volumes_books [OF v(2)]
  obtain w' where "settle P t f v = Done w'" "keeps W E t k v w'" "in_flight w' = in_flight v"
    using settle_keeps [OF P ov(3) _ f, of k] ov(1,4) b c by metis
  with v ov(5) show ?thesis by (auto intro: only_volumes_keeps)
qed

section \<open>Callbacks keep the books\<close>

text \<open>Every callback first looks into the context: it runs exactly if the context is still there.\<close>

lemma local_cb_keeps:
  assumes P: "env_ok W E P" and w: "idle w" and b: "books W E (Suc k) w t" and c: "pending_replicated_ios w t = Some c"
  shows "\<exists>w'. xsan_local_replica_write_complete_cb P w t status = Done w' \<and> keeps W E t k w w' \<and> in_flight w' = in_flight w"
proof -
  let ?upd = "case volume_at P (io_vm w) (rc_volume_id c) of
               NULL \<Rightarrow> Done w
             | Some i \<Rightarrow>
                 if actual_replica_count (managed_volumes (io_vm w) ! i) > 0
                 then with_lock (set_replica i 0 (contact P XSAN_STORAGE_STATE_FAILED status)) w
                 else Done w"
  have "\<exists>v. ?upd = Done v \<and> only_volumes w v"
    using with_lock_idle [OF w] only_volumes_refl [OF w] by (auto split: option.split)
  then obtain v where v: "?upd = Done v" "only_volumes w v" by blast
  note ov = only_volumes_books [OF v(2)]
  obtain w' where "settle P t (\<lambda>c. (count_result status c)\<lparr>local_io_req := False\<rparr>) v = Done w'" "keeps W E t k v w'"
      "in_flight w' = in_flight v"
    using settle_keeps [OF P ov(3) _ counts_local [OF counts_result], of k t c False status] ov(1,4) b c by metis
  with v c ov(5) show ?thesis
    by (auto simp: xsan_local_replica_write_complete_cb_def intro: only_volumes_keeps)
qed

lemma cb_gone:
  "pending_replicated_ios w t = None \<Longrightarrow> xsan_local_replica_write_complete_cb P w t status = Bad_access"
  "pending_replicated_ios w (parent_tid p) = None \<Longrightarrow> xsan_remote_replica_request_send_actual_cb P w p st = Bad_access"
  "pending_replicated_ios w (parent_tid p) = None \<Longrightarrow> request_msg_to_send p \<noteq> NULL \<Longrightarrow>
     xsan_remote_replica_connect_then_send_cb P w p sock st = Bad_access"
  by (simp_all add: xsan_local_replica_write_complete_cb_def xsan_remote_replica_request_send_actual_cb_def
      xsan_remote_replica_connect_then_send_cb_def)

lemma started_keeps:
  assumes "idle w" "books W E (Suc k) w t" "flight_tid f = t" "\<And>p. f = Connecting p \<Longrightarrow> request_msg_to_send p \<noteq> NULL"
  shows "keeps W E t k w (w\<lparr>in_flight := add_mset f (in_flight w)\<rparr>)"
  using assms by (auto simp: keeps_def idle_def books_def tally_def split: option.splits)

lemma send_cb_keeps:
  assumes P: "env_ok W E P" and w: "idle w" and b: "books W E (Suc k) w (parent_tid p)"
    and c: "pending_replicated_ios w (parent_tid p) = Some c"
  shows "\<exists>w'. xsan_remote_replica_request_send_actual_cb P w p status = Done w' \<and> keeps W E (parent_tid p) k w w' \<and>
      (status \<noteq> 0 \<longrightarrow> in_flight w' = in_flight w)"
proof -
  obtain place where "locate_replica P w (rc_volume_id c) (rl_node_id (replica_location_info p)) = Done place"
    using locate_idle [OF P w] by blast
  then show ?thesis
    using c located_settle [OF P w b counts_failure c, of "xsan_error_from_errno (- status)" place
        "rl_state_update (\<lambda>_. XSAN_STORAGE_STATE_OFFLINE)"]
      started_keeps [OF w b, of "Awaiting (parent_tid p) (rl_node_id (replica_location_info p))"]
    by (auto simp: xsan_remote_replica_request_send_actual_cb_def)
qed

lemma response_keeps:
  assumes P: "env_ok W E P" and w: "idle w" and b: "books W E (Suc 0) w t"
  shows "\<exists>w'. xsan_volume_manager_process_replica_write_response P w t nid status = Done w' \<and> keeps W E t 0 w w'"
proof (cases "pending_replicated_ios w t")
  case None
  then show ?thesis
    using w b by (auto simp: xsan_volume_manager_process_replica_write_response_def keeps_def books_def)
next
  case c: (Some c)
  obtain place where "locate_replica P w (rc_volume_id c) nid = Done place" using locate_idle [OF P w] by blast
  then show ?thesis
    using c w located_settle [OF P w b counts_result c, of place "contact P XSAN_STORAGE_STATE_DEGRADED status" status]
    by (auto simp: xsan_volume_manager_process_replica_write_response_def idle_def)
qed

text \<open>A send that calls the callback although it returns an error.\<close>

definition send_breaks :: "('db, 'it, 'dm, 'a) write_env \<Rightarrow> ('db, 'dm, 'a) io_world \<Rightarrow> xsan_per_replica_op_ctx \<Rightarrow> nat \<Rightarrow> bool" where
  "send_breaks P w p s \<longleftrightarrow>
     (case fst (send_request P w p s) of res \<Rightarrow> cb_status res \<noteq> NULL \<and> send_status res \<noteq> XSAN_OK)"

text \<open>It is a send on a connection that takes it, for which \<^verbatim>\<open>spdk_sock_writev\<close> reports an error.\<close>

lemma send_breaks_iff:
  assumes "request_msg_to_send p = Some m" "\<And>bs e. sock_writev P s bs = WriteError e \<Longrightarrow> e \<noteq> 0"
  shows "send_breaks P w p s \<longleftrightarrow>
     module_initialized (comm w) \<and> on_spdk_thread P \<and>
     (\<exists>conn e. connections w s = Some conn \<and> current_send_cb conn = NULL \<and>
        sock_writev P s (header_wire (header m) @
          (case payload m of
             Some b \<Rightarrow> if payload_length (header m) > 0 then take (unat (payload_length (header m))) b else []
           | NULL \<Rightarrow> [])) = WriteError e)"
  using assms
  by (auto simp: send_breaks_def send_request_def xsan_node_comm_send_msg_def Let_def
      split: option.splits prod.splits if_splits writev_result.splits)

lemma send_request_volumes:
  assumes w: "idle w" and r: "send_request P w p s = (res, w')"
  shows "only_volumes w w'"
proof -
  have conns: "only_volumes w (w\<lparr>connections := cs\<rparr>)" for cs
  proof -
    have "w\<lparr>connections := cs\<rparr> = w\<lparr>io_vm := io_vm w, connections := cs\<rparr>" by simp
    moreover have "idle (w\<lparr>connections := cs\<rparr>)" using w by (simp add: idle_def)
    ultimately show ?thesis unfolding only_volumes_def by blast
  qed
  show ?thesis
    using r conns only_volumes_refl [OF w] by (auto simp: send_request_def split: option.splits prod.splits)
qed

lemma connect_cb_outcome:
  assumes P: "env_ok W E P" and w: "idle w" and b: "books W E (Suc k) w (parent_tid p)"
    and c: "pending_replicated_ios w (parent_tid p) = Some c"
    and msg: "request_msg_to_send p \<noteq> NULL" and st: "status = 0 \<Longrightarrow> sock \<noteq> NULL"
  shows "if status = 0 \<and> send_breaks P w p (the sock)
     then xsan_remote_replica_connect_then_send_cb P w p sock status = Bad_access
     else \<exists>w'. xsan_remote_replica_connect_then_send_cb P w p sock status = Done w' \<and> keeps W E (parent_tid p) k w w'"
proof -
  obtain place where place: "locate_replica P w (rc_volume_id c) (rl_node_id (replica_location_info p)) = Done place"
    using locate_idle [OF P w] by blast
  show ?thesis
  proof (cases "status = 0")
    case True
    obtain res v where v: "send_request P w p (the sock) = (res, v)" by fastforce
    note ov = send_request_volumes [OF w v]
    have vb: "idle v" "books W E (Suc k) v (parent_tid p)" "pending_replicated_ios v (parent_tid p) = Some c"
      using only_volumes_books [OF ov] b c by auto
    have cb: "\<exists>w'. xsan_remote_replica_request_send_actual_cb P v p n = Done w' \<and> keeps W E (parent_tid p) k w w'" for n
      using send_cb_keeps [OF P vb, of n] only_volumes_keeps [OF ov] by blast
    have started: "keeps W E (parent_tid p) k w (v\<lparr>in_flight := add_mset (Sending p) (in_flight v)\<rparr>)"
      using started_keeps [OF vb(1,2), of "Sending p"] only_volumes_keeps [OF ov] by simp
    obtain u where u: "xsan_remote_replica_request_send_actual_cb P v p (the (cb_status res)) = Done u"
      "keeps W E (parent_tid p) k w u" using cb by blast
    from True st c place msg v cb started u show ?thesis
      by (cases "cb_status res") (auto simp: xsan_remote_replica_connect_then_send_cb_def send_breaks_def)
  next
    case False
    then have "xsan_error_from_errno (- status) \<noteq> XSAN_OK" by auto
    from located_settle [OF P w b counts_failure [OF this] c] False c place msg show ?thesis
      by (auto simp: xsan_remote_replica_connect_then_send_cb_def)
  qed
qed

lemma connect_cb_keeps:
  assumes P: "env_ok W E P" and w: "idle w" and b: "books W E (Suc k) w (parent_tid p)"
    and msg: "request_msg_to_send p \<noteq> NULL" and st: "status = 0 \<Longrightarrow> sock \<noteq> NULL"
    and r: "xsan_remote_replica_connect_then_send_cb P w p sock status = Done w'"
  shows "keeps W E (parent_tid p) k w w'"
proof -
  obtain c where "pending_replicated_ios w (parent_tid p) = Some c"
    using r cb_gone(3) [OF _ msg, of w P sock status] by (cases "pending_replicated_ios w (parent_tid p)") auto
  from connect_cb_outcome [OF P w b this msg, of status sock] st r show ?thesis by (auto split: if_splits)
qed

section \<open>The write keeps the books\<close>

lemma settle_done:
  assumes P: "env_ok W E P" and w: "idle w" and b: "books W E (Suc k) w t" and f: "counts f"
    and r: "settle P t f w = Done w'"
  shows "keeps W E t k w w'"
proof -
  obtain c where "pending_replicated_ios w t = Some c"
    using r settle_gone [of w t P f] by (cases "pending_replicated_ios w t") auto
  from settle_keeps [OF P w b f this] r show ?thesis by auto
qed

lemma local_cb_done:
  assumes P: "env_ok W E P" and w: "idle w" and b: "books W E (Suc k) w t"
    and r: "xsan_local_replica_write_complete_cb P w t status = Done w'"
  shows "keeps W E t k w w'"
proof -
  obtain c where "pending_replicated_ios w t = Some c"
    using r cb_gone(1) [of w t P status] by (cases "pending_replicated_ios w t") auto
  from local_cb_keeps [OF P w b this, of status] r show ?thesis by auto
qed

lemma send_cb_done:
  assumes P: "env_ok W E P" and w: "idle w" and b: "books W E (Suc k) w (parent_tid p)"
    and r: "xsan_remote_replica_request_send_actual_cb P w p status = Done w'"
  shows "keeps W E (parent_tid p) k w w'"
proof -
  obtain c where "pending_replicated_ios w (parent_tid p) = Some c"
    using r cb_gone(2) [of w p P status] by (cases "pending_replicated_ios w (parent_tid p)") auto
  from send_cb_keeps [OF P w b this, of status] r show ?thesis by auto
qed

lemma write_local_keeps:
  assumes P: "env_ok W E P" and w: "idle w" and b: "books W E (Suc k) w t"
    and r: "write_local P w t vid off len buf = Done w'"
  shows "keeps W E t k w w'"
proof -
  obtain st evs where "xsan_volume_submit_single_io_attempt
        ((w_vm P)\<lparr>volume_get_by_id := \<lambda>vm vid. map_option ((!) (managed_volumes vm)) (volume_at P vm vid)\<rparr>)
        (w_bdev P) (phys_malloc_ok P) (io_req_malloc_ok P) (io_vm w) vid off len (Some buf) False (Some ()) t = Done (st, evs)"
    using r by (auto simp: write_local_def bind_run_Done)
  then show ?thesis
    using r local_cb_done [OF P w b, of st] started_keeps [OF w b, of "Local_write (local_ctx t vid len buf)"]
    by (auto simp: write_local_def local_ctx_def split: if_splits)
qed

lemma write_remote_keeps:
  assumes P: "env_ok W E P" and w: "idle w" and b: "books W E (Suc k) w t"
    and r: "write_remote P w t vid off len bs buf i loc = Done w'"
  shows "keeps W E t k w w'"
proof -
  have no_mem: "settle P t (count_failure XSAN_ERROR_OUT_OF_MEMORY) w = Done w' \<Longrightarrow> ?thesis"
    using settle_done [OF P w b counts_failure] by fastforce
  have conn: "xsan_remote_replica_connect_then_send_cb P w (op_ctx t loc (Some msg)) (Some sock) 0 = Done w' \<Longrightarrow> ?thesis"
    "xsan_remote_replica_connect_then_send_cb P w (op_ctx t loc (Some msg)) NULL status = Done w' \<Longrightarrow> status \<noteq> 0 \<Longrightarrow> ?thesis"
    for msg sock status
    using connect_cb_keeps [OF P w, of k "op_ctx t loc (Some msg)" 0 "Some sock"]
      connect_cb_keeps [OF P w, of k "op_ctx t loc (Some msg)" status NULL] b by (auto simp: op_ctx_def)
  have started: "keeps W E t k w (w\<lparr>in_flight := add_mset (Connecting (op_ctx t loc (Some msg))) (in_flight w)\<rparr>)"
    "keeps W E t k w (w\<lparr>in_flight := add_mset (Dropped (op_ctx t loc (Some msg))) (in_flight w)\<rparr>)" for msg
    by (rule started_keeps [OF w b]; simp add: op_ctx_def)+
  have errno: "status \<noteq> 0"
    if "xsan_node_comm_connect (comm w) (on_spdk_thread P) m ip port True (sock_connect_ext P) = (err, Some status)"
    for m ip port err status
    using that env_laws(3) [OF P]
    by (auto simp: xsan_node_comm_connect_def split: if_splits option.splits connect_result.splits)
  obtain err cb where cb: "xsan_node_comm_connect (comm w) (on_spdk_thread P) (connect_malloc_ok P i)
      (Some (node_ip_addr loc)) (node_comm_port loc) True (sock_connect_ext P) = (err, cb)" by force
  show ?thesis
    using r no_mem conn started errno cb
    by (cases cb) (auto simp: write_remote_def Let_def split: option.splits if_splits)
qed

lemma write_replica_keeps:
  assumes P: "env_ok W E P" and w: "idle w" and b: "books W E (Suc k) w t"
    and r: "write_replica P w t vid off len bs buf i loc = Done w'"
  shows "keeps W E t k w w'"
  using r write_local_keeps [OF P w b] write_remote_keeps [OF P w b] local_cb_done [OF P w b]
    send_cb_done [OF P w, of k "op_ctx t loc NULL"] b
    settle_done [OF P w b counts_failure, of XSAN_ERROR_RESOURCE_UNAVAILABLE]
  by (auto simp: write_replica_def op_ctx_def split: if_splits)

lemma write_loop_keeps:
  assumes P: "env_ok W E P"
  shows "idle w \<Longrightarrow> locs \<noteq> [] \<Longrightarrow> books W E (length locs) w t \<Longrightarrow>
    write_loop P w t vid off len bs buf i locs = Done w' \<Longrightarrow> keeps W E t 0 w w'"
proof (induction locs arbitrary: w i)
  case (Cons loc locs)
  obtain v where v: "write_replica P w t vid off len bs buf i loc = Done v"
    and rest: "write_loop P v t vid off len bs buf (Suc i) locs = Done w'"
    using Cons.prems(4) by (auto simp: bind_run_Done)
  have k: "keeps W E t (length locs) w v" using write_replica_keeps [OF P Cons.prems(1) _ v] Cons.prems(3) by simp
  show ?case
  proof (cases "locs = []")
    case False
    with Cons.IH [OF _ False _ rest] k have "keeps W E t 0 v w'" by (simp add: keeps_def)
    with k show ?thesis by (rule keeps_trans)
  qed (use k rest in simp)
qed simp

text \<open>If no replica can be written to, the loop has counted all of them as failed. If the check has ended the write
  then, the code goes on with the freed context.\<close>

lemma unwritable_keeps:
  assumes P: "env_ok True E P" and w: "idle w" and b: "books True E (Suc k) w t" and loc: "\<not> writable loc"
  shows "\<exists>w'. write_replica P w t vid off len bs buf i loc = Done w' \<and> keeps True E t k w w' \<and> in_flight w' = in_flight w"
proof -
  obtain c where c: "pending_replicated_ios w t = Some c" using b by (auto simp: books_def split: option.splits)
  have "code_of P XSAN_ERROR_RESOURCE_UNAVAILABLE \<noteq> 0" using env_laws(2) [OF P] by simp
  then show ?thesis
    using loc local_cb_keeps [OF P w b c] b c
      send_cb_keeps [OF P w, of k "op_ctx t loc NULL" c "code_of P XSAN_ERROR_RESOURCE_UNAVAILABLE"]
      settle_keeps [OF P w b counts_failure c, of XSAN_ERROR_RESOURCE_UNAVAILABLE]
    by (auto simp: write_replica_def op_ctx_def)
qed

lemma unwritable_loop:
  assumes P: "env_ok True E P"
  shows "idle w \<Longrightarrow> books True E (length locs) w t \<Longrightarrow> \<not> list_ex writable locs \<Longrightarrow>
    \<exists>w'. write_loop P w t vid off len bs buf i locs = Done w' \<and> books True E 0 w' t \<and> in_flight w' = in_flight w"
proof (induction locs arbitrary: w i)
  case (Cons loc locs)
  then obtain v where v: "write_replica P w t vid off len bs buf i loc = Done v" "keeps True E t (length locs) w v"
    "in_flight v = in_flight w"
    using unwritable_keeps [OF P Cons.prems(1), of "length locs" t loc] by fastforce
  with Cons.IH [of v "Suc i"] Cons.prems show ?case by (auto simp: keeps_def)
qed simp

lemma no_writable_replica_bad:
  assumes P: "env_ok True True P" and w: "idle w" and b: "books True True (unat (actual_replica_count vol)) w t"
    and n: "unat (actual_replica_count vol) \<le> length (replica_nodes vol)" and fl: "flights t w = 0"
    and unwritable: "\<not> list_ex writable (take (unat (actual_replica_count vol)) (replica_nodes vol))"
  shows "write_replicas P w t vol vid off len buf = Bad_access"
proof -
  have "books True True (length (take (unat (actual_replica_count vol)) (replica_nodes vol))) w t" using b n by simp
  from unwritable_loop [OF P w this unwritable] obtain w' where
    w': "write_loop P w t vid off len (block_size_bytes vol) buf 0
      (take (unat (actual_replica_count vol)) (replica_nodes vol)) = Done w'" "books True True 0 w' t"
      "in_flight w' = in_flight w"
    by blast
  then have "flights t w' = 0" using fl by (simp add: flights_def)
  then have "pending_replicated_ios w' t = None" using w'(2) by (auto simp: books_def split: option.splits)
  with w' unwritable show ?thesis by (simp add: write_replicas_def Let_def no_replica_writable_def settle_gone)
qed

lemma new_ctx_books:
  assumes w: "idle w" and none: "pending_replicated_ios w t = None" and fl: "flights t w = 0"
    and c: "xsan_replicated_io_ctx_create ok has_cb arg (Some vol) ub off len t = Some c"
  shows "books W E (unat (actual_replica_count vol)) (w\<lparr>pending_replicated_ios := (pending_replicated_ios w)(t \<mapsto> c)\<rparr>) t"
    and "idle (w\<lparr>pending_replicated_ios := (pending_replicated_ios w)(t \<mapsto> c)\<rparr>)"
    and "tally (w\<lparr>pending_replicated_ios := (pending_replicated_ios w)(t \<mapsto> c)\<rparr>) = add_mset arg (tally w)"
    and "t' \<noteq> t \<Longrightarrow> books W E 0 (w\<lparr>pending_replicated_ios := (pending_replicated_ios w)(t \<mapsto> c)\<rparr>) t' = books W E 0 w t'"
    and "0 < unat (actual_replica_count vol)"
proof -
  have n: "actual_replica_count vol \<noteq> 0" "\<not> actual_replica_count vol > of_nat XSAN_MAX_REPLICAS"
    and c: "c = new_replicated_io_ctx arg vol ub off len t (actual_replica_count vol)"
    using c by (auto simp: xsan_replicated_io_ctx_create_def Let_def split: if_splits)
  from n(1) show pos: "0 < unat (actual_replica_count vol)" by (simp add: unat_gt_0)
  have "unat (actual_replica_count vol) \<le> XSAN_MAX_REPLICAS"
    using n(2) by (simp add: XSAN_MAX_REPLICAS_def word_less_nat_alt)
  then show "books W E (unat (actual_replica_count vol)) (w\<lparr>pending_replicated_ios := (pending_replicated_ios w)(t \<mapsto> c)\<rparr>) t"
    using pos fl none by (simp add: books_def c new_replicated_io_ctx_def)
  have fin: "finite (dom (pending_replicated_ios w))" using w by (simp add: idle_def)
  show "idle (w\<lparr>pending_replicated_ios := (pending_replicated_ios w)(t \<mapsto> c)\<rparr>)" using w by (simp add: idle_def)
  show "tally (w\<lparr>pending_replicated_ios := (pending_replicated_ios w)(t \<mapsto> c)\<rparr>) = add_mset arg (tally w)"
    using waiting_update [OF fin, of t c] none by (simp add: tally_def fun_upd_idem c new_replicated_io_ctx_def)
  show "t' \<noteq> t \<Longrightarrow> books W E 0 (w\<lparr>pending_replicated_ios := (pending_replicated_ios w)(t \<mapsto> c)\<rparr>) t' = books W E 0 w t'"
    by (rule books_cong) simp_all
qed

lemma write_replicas_keeps:
  assumes P: "env_ok W E P" and w: "idle w" and b: "books W E (unat (actual_replica_count vol)) w t"
    and n: "unat (actual_replica_count vol) \<le> length (replica_nodes vol)" "0 < unat (actual_replica_count vol)"
    and r: "write_replicas P w t vol vid off len buf = Done (w', st)" "st \<noteq> XSAN_ERROR_REPLICATION_UNAVAILABLE"
  shows "keeps W E t 0 w w' \<and> st = XSAN_OK"
proof -
  let ?copies = "take (unat (actual_replica_count vol)) (replica_nodes vol)"
  have "write_loop P w t vid off len (block_size_bytes vol) buf 0 ?copies = Done w'" "st = XSAN_OK"
    using r by (auto simp: write_replicas_def Let_def bind_run_Done split: if_splits)
  moreover have "?copies \<noteq> []" "length ?copies = unat (actual_replica_count vol)" using n by auto
  ultimately show ?thesis using write_loop_keeps [OF P w, of ?copies t] b by simp
qed

section \<open>Runs\<close>

text \<open>What becomes known of an operation that was started, and the callback that it is given to. The end of a local
  transfer goes to \<^verbatim>\<open>_xsan_physical_io_complete_cb\<close> with the context of the transfer, as \<open>VolumeIo\<close> has it. A
  connect that fails reports an error number.\<close>

datatype news = Finished xsan_error | Connected nat | Not_connected int | Comm_status int

definition local_transfer_done ::
  "('db, 'it, 'dm, 'a) write_env \<Rightarrow> ('db, 'dm, 'a) io_world \<Rightarrow> (unit, u64) xsan_vm_physical_io_ctx \<Rightarrow> xsan_error
     \<Rightarrow> ('db, 'dm, 'a) io_world run" where
  "local_transfer_done P w c status =
     bind_run (xsan_physical_io_complete_cb (Some (Physical_io_ctx c)) status) (\<lambda>(b, upper).
       case upper of
         None \<Rightarrow> Done w
       | Some (_, t, status) \<Rightarrow> xsan_local_replica_write_complete_cb P w t status)"

fun handle :: "('db, 'it, 'dm, 'a) write_env \<Rightarrow> ('db, 'dm, 'a) io_world \<Rightarrow> flight \<Rightarrow> news \<Rightarrow> ('db, 'dm, 'a) io_world run option" where
  "handle P w (Local_write c) (Finished status) = Some (local_transfer_done P w c status)"
| "handle P w (Connecting p) (Connected s) = Some (xsan_remote_replica_connect_then_send_cb P w p (Some s) 0)"
| "handle P w (Connecting p) (Not_connected status) =
     (if status = 0 then None else Some (xsan_remote_replica_connect_then_send_cb P w p NULL status))"
| "handle P w (Sending p) (Comm_status status) = Some (xsan_remote_replica_request_send_actual_cb P w p status)"
| "handle P w (Awaiting t nid) (Finished status) = Some (xsan_volume_manager_process_replica_write_response P w t nid status)"
| "handle P w _ _ = None"

definition landed :: "flight \<Rightarrow> ('db, 'dm, 'a) io_world \<Rightarrow> ('db, 'dm, 'a) io_world" where
  "landed f w = w\<lparr>in_flight := in_flight w - {#f#}\<rparr>"

text \<open>The callbacks that end in an invalid access: the end of a local transfer, whose callback takes its argument
  for something else; a callback whose context is gone; and a connection on which the send breaks.\<close>

fun invalid_callback :: "('db, 'it, 'dm, 'a) write_env \<Rightarrow> ('db, 'dm, 'a) io_world \<Rightarrow> flight \<Rightarrow> news \<Rightarrow> bool" where
  "invalid_callback P w (Local_write c) n \<longleftrightarrow> True"
| "invalid_callback P w (Connecting p) n \<longleftrightarrow>
     pending_replicated_ios w (parent_tid p) = None \<or> (case n of Connected s \<Rightarrow> send_breaks P w p s | _ \<Rightarrow> False)"
| "invalid_callback P w (Sending p) n \<longleftrightarrow> pending_replicated_ios w (parent_tid p) = None"
| "invalid_callback P w (Awaiting t nid) n \<longleftrightarrow> False"
| "invalid_callback P w (Dropped p) n \<longleftrightarrow> False"

text \<open>The worlds that are reached by writes and by callbacks, each of which comes once; what follows an invalid
  access is not defined, and is not among them. The second argument are the
  callback arguments of the writes that were accepted. The transaction counter does not come round to a
  transaction that is pending or of which something is to come. A write that finds no replica to write to
  (\<open>XSAN_ERROR_REPLICATION_UNAVAILABLE\<close>) counts every replica twice or uses a freed context
  (\<open>no_writable_replica_bad\<close>); there are none in these runs.\<close>

inductive reach :: "('db, 'it, 'dm, 'a) write_env set \<Rightarrow> ('db, 'dm, 'a) io_world \<Rightarrow> 'a list \<Rightarrow> bool"
  for envs :: "('db, 'it, 'dm, 'a) write_env set" where
  Start: "idle w \<Longrightarrow> pending_replicated_ios w = Map.empty \<Longrightarrow> in_flight w = {#} \<Longrightarrow> user_calls w = [] \<Longrightarrow> reach envs w []"
| Write: "reach envs w args \<Longrightarrow> P \<in> envs \<Longrightarrow> pending_replicated_ios w (s_wtid_ctr w) = None \<Longrightarrow>
    flights (s_wtid_ctr w) w = 0 \<Longrightarrow>
    xsan_volume_write_async P w vid off len ub has_cb arg = Done (w', st) \<Longrightarrow>
    st \<noteq> XSAN_ERROR_REPLICATION_UNAVAILABLE \<Longrightarrow>
    reach envs w' (if st = XSAN_OK then arg # args else args)"
| Callback: "reach envs w args \<Longrightarrow> P \<in> envs \<Longrightarrow> f \<in># in_flight w \<Longrightarrow>
    handle P (landed f w) f n = Some (Done w') \<Longrightarrow> reach envs w' args"

definition replicated_inv :: "bool \<Rightarrow> bool \<Rightarrow> ('db, 'dm, 'a) io_world \<Rightarrow> 'a list \<Rightarrow> bool" where
  "replicated_inv W E w args \<longleftrightarrow> idle w \<and> (\<forall>t. books W E 0 w t) \<and> tally w = mset args"

lemma keeps_inv:
  assumes "keeps W E t 0 w w'" "\<And>t'. t' \<noteq> t \<Longrightarrow> books W E 0 w t'" "tally w = mset args"
  shows "replicated_inv W E w' args"
  using assms unfolding keeps_def replicated_inv_def by (metis)

lemma landed_books:
  assumes "replicated_inv W E w args" "f \<in># in_flight w"
  shows "idle (landed f w)" and "books W E (Suc 0) (landed f w) (flight_tid f)" and "tally (landed f w) = mset args"
    and "t \<noteq> flight_tid f \<Longrightarrow> books W E 0 (landed f w) t"
proof -
  obtain fs where fs: "in_flight w = add_mset f fs" using assms(2) by (metis insert_DiffM)
  have fl: "flights (flight_tid f) w = Suc (flights (flight_tid f) (landed f w))"
    "t \<noteq> flight_tid f \<Longrightarrow> flights t (landed f w) = flights t w" for t
    using fs by (auto simp: flights_def landed_def)
  have p: "pending_replicated_ios (landed f w) = pending_replicated_ios w" by (simp add: landed_def)
  have b: "books W E 0 w t" for t using assms(1) by (simp add: replicated_inv_def)
  show "idle (landed f w)" "tally (landed f w) = mset args"
    using assms fs by (auto simp: replicated_inv_def idle_def landed_def tally_def)
  show "books W E (Suc 0) (landed f w) (flight_tid f)"
    using b [of "flight_tid f"] fl(1) p by (auto simp: books_def split: option.splits)
  show "books W E 0 (landed f w) t" if "t \<noteq> flight_tid f"
    using b [of t] fl(2) [OF that] p books_cong [of "landed f w" t w] by simp
qed

lemma handle_keeps:
  assumes inv: "replicated_inv W E w args" and P: "env_ok W E P" and f: "f \<in># in_flight w"
    and h: "handle P (landed f w) f n = Some r"
  shows "if invalid_callback P (landed f w) f n then r = Bad_access
    else \<exists>w'. r = Done w' \<and> keeps W E (flight_tid f) 0 (landed f w) w'"
proof -
  note l = landed_books [OF inv f]
  have msg: "request_msg_to_send p \<noteq> NULL" if "f = Connecting p" for p
    using inv f that by (auto simp: replicated_inv_def idle_def)
  show ?thesis
  proof (cases f)
    case (Local_write c)
    then show ?thesis using h by (cases n) (auto simp: local_transfer_done_def xsan_physical_io_complete_cb_def)
  next
    case (Connecting p)
    show ?thesis
    proof (cases "pending_replicated_ios (landed f w) (parent_tid p)")
      case None
      then show ?thesis using h Connecting cb_gone(3) [OF None msg] by (cases n) (auto split: if_splits)
    next
      case (Some c)
      have b: "books W E (Suc 0) (landed f w) (parent_tid p)" using l(2) Connecting by simp
      show ?thesis
        using h Connecting Some connect_cb_outcome [OF P l(1) b Some msg, of 0 "Some s" for s]
          connect_cb_outcome [OF P l(1) b Some msg, of st NULL for st]
        by (cases n) (auto split: if_splits)
    qed
  next
    case (Sending p)
    have b: "books W E (Suc 0) (landed f w) (parent_tid p)" using l(2) Sending by simp
    show ?thesis
      using h Sending cb_gone(2) [of "landed f w" p P] send_cb_keeps [OF P l(1) b]
      by (cases n; cases "pending_replicated_ios (landed f w) (parent_tid p)") auto
  next
    case (Awaiting t nid)
    then show ?thesis using h response_keeps [OF P l(1,2)] by (cases n) auto
  next
    case (Dropped p)
    then show ?thesis using h by (cases n) simp_all
  qed
qed

lemma handle_inv:
  assumes "replicated_inv W E w args" "env_ok W E P" "f \<in># in_flight w" "handle P (landed f w) f n = Some (Done w')"
  shows "replicated_inv W E w' args"
proof -
  have "keeps W E (flight_tid f) 0 (landed f w) w'" using handle_keeps [OF assms] by (auto split: if_splits)
  from keeps_inv [OF this landed_books(4) [OF assms(1,3)] landed_books(3) [OF assms(1,3)]] show ?thesis .
qed

lemma write_inv:
  assumes inv: "replicated_inv W E w args" and P: "env_ok W E P"
    and fresh: "pending_replicated_ios w (s_wtid_ctr w) = None" "flights (s_wtid_ctr w) w = 0"
    and r: "xsan_volume_write_async P w vid off len ub has_cb arg = Done (w', st)" "st \<noteq> XSAN_ERROR_REPLICATION_UNAVAILABLE"
  shows "replicated_inv W E w' (if st = XSAN_OK then arg # args else args)"
proof -
  let ?t = "s_wtid_ctr w" and ?v = "w\<lparr>s_wtid_ctr := s_wtid_ctr w + 1\<rparr>"
  have v: "replicated_inv W E ?v args"
    using inv by (simp add: replicated_inv_def idle_def tally_def books_cong [of ?v _ w])
  have idle: "idle w" using inv by (simp add: replicated_inv_def)
  consider "w' = w" "st \<noteq> XSAN_OK" | "w' = ?v" "st \<noteq> XSAN_OK"
    | vol i c buf where "managed_volumes (io_vm w) ! i = vol" "volume_at P (io_vm w) vid = Some i"
      "xsan_replicated_io_ctx_create (rep_ctx_malloc_ok P) has_cb arg (Some vol) ub off len ?t = Some c"
      "write_replicas P (?v\<lparr>pending_replicated_ios := (pending_replicated_ios ?v)(?t \<mapsto> c)\<rparr>) ?t vol vid off len buf
         = Done (w', st)"
    using r idle by (auto simp: xsan_volume_write_async_def lock_def idle_def Let_def split: option.splits if_splits)
  then show ?thesis
  proof cases
    case 3
    have idle: "idle ?v" and b: "\<And>t. books W E 0 ?v t" and tally: "tally ?v = mset args" using v by (auto simp: replicated_inv_def)
    note new = new_ctx_books [OF idle _ _ 3(3)]
    let ?u = "?v\<lparr>pending_replicated_ios := (pending_replicated_ios ?v)(?t \<mapsto> c)\<rparr>"
    have "vol \<in> set (managed_volumes (io_vm w))" using 3(1,2) env_laws(1) [OF P] by auto
    then have n: "unat (actual_replica_count vol) \<le> length (replica_nodes vol)" using idle by (simp add: idle_def)
    have k: "keeps W E ?t 0 ?u w'" "st = XSAN_OK"
      using write_replicas_keeps [OF P new(2,1) n new(5) 3(4) r(2)] fresh by simp_all
    show ?thesis using keeps_inv [OF k(1), of "arg # args"] new(3,4) b tally k(2) fresh by simp
  qed (use inv v in simp_all)
qed

lemma reach_inv:
  assumes "reach envs w args" and envs: "\<And>P. P \<in> envs \<Longrightarrow> env_ok W E P"
  shows "replicated_inv W E w args"
  using assms(1)
proof (induction rule: reach.induct)
  case (Start w)
  then show ?case by (simp add: replicated_inv_def tally_def waiting_def books_def flights_def)
next
  case Write
  then show ?case using write_inv [OF _ envs] by blast
next
  case (Callback w args P f n w')
  then show ?case using handle_inv [OF _ envs] by blast
qed


text \<open>A node with one volume of two replicas: the local one is not in a state to be written to, the other one is
  to be connected to.\<close>

definition sample_check :: "('db, 'dm, 'a) io_world \<Rightarrow> u64 \<Rightarrow> ('db, 'dm, 'a) io_world run" where
  "sample_check w t =
     (case pending_replicated_ios w t of
        None \<Rightarrow> Bad_access
      | Some c \<Rightarrow>
          if unat (successful_writes c) + unat (failed_writes c) = unat (total_replicas_targeted c)
          then Done (w\<lparr>pending_replicated_ios := (pending_replicated_ios w)(t := None),
                       user_calls := user_calls w @ [(original_user_cb_arg c, final_status c)]\<rparr>)
          else Done w)"

definition sample_write_env :: "(write_log, log_iter, u64, nat) write_env" where
  "sample_write_env =
     \<lparr>w_vm = sample_env, w_bdev = sample_io_bdev_env, w_order = LITTLE_ENDIAN,
      volume_at = (\<lambda>vm vid. if vid = 5 \<and> managed_volumes vm \<noteq> [] then Some 0 else NULL),
      check_completion = sample_check, code_of = (\<lambda>e. case e of XSAN_CODE n \<Rightarrow> n | _ \<Rightarrow> -1),
      rep_ctx_malloc_ok = True, table_put_ok = True, phys_malloc_ok = True, io_req_malloc_ok = True,
      op_malloc_ok = (\<lambda>_. True), msg_malloc = (\<lambda>_. \<lparr>msg_ok = True, payload_ok = True, cks_ok = True\<rparr>),
      msg_fresh = (\<lambda>_. []), msg_raw = (\<lambda>_. replicate 4124 0), active_connection = (\<lambda>_ _. NULL), on_spdk_thread = True,
      connect_malloc_ok = (\<lambda>_. True), sock_connect_ext = (\<lambda>_ _. Connect_started),
      sock_writev = (\<lambda>_ bs. Written (length bs)), w_time_us = 1\<rparr>"

definition sample_world :: "(write_log, u64, nat) io_world" where
  "sample_world =
     \<lparr>io_vm = sample_vm\<lparr>managed_volumes := [sample_volume\<lparr>replica_nodes :=
        [zero_replica, zero_replica\<lparr>rl_node_id := 2, node_comm_port := 8080, rl_state := XSAN_STORAGE_STATE_ONLINE\<rparr>,
         zero_replica]\<rparr>]\<rparr>,
      pending_replicated_ios = Map.empty, s_wtid_ctr = 1000,
      comm = \<lparr>module_initialized = True, global_app_msg_handler_cb = NULL, specific_handlers = []\<rparr>,
      connections = Map.empty, in_flight = {#}, user_calls = []\<rparr>"

lemma sample_write_env_ok: "write_env_ok sample_write_env" "waits_for_all sample_write_env" "ends_when_all sample_write_env"
  by (auto simp: write_env_ok_def completion_frame_def waits_for_all_def ends_when_all_def all_counted_def ended_def
      sample_write_env_def sample_check_def split: xsan_error.splits)

lemma sample_reach:
  obtains w p c where "reach {sample_write_env} w [7]" "in_flight w = {#Connecting p#}" "parent_tid p = 1000"
    "pending_replicated_ios w 1000 = Some c" "failed_writes c = 1" "total_replicas_targeted c = 2"
proof -
  let ?P = sample_write_env
  have start: "reach {?P} sample_world []"
    by (rule reach.Start)
      (simp_all add: idle_def sample_world_def sample_vm_def sample_volume_def zero_volume_def)
  obtain m where m: "write_message ?P 1 1000 5 0 4096 4096 (replicate 4096 9) = Some m"
    by (auto simp: write_message_def sample_write_env_def xsan_protocol_message_create_with_data_def Let_def
        XSAN_PROTOCOL_MAX_PAYLOAD_SIZE_def message_checksummed_def)
  define p where "p = op_ctx 1000 (replica_nodes (managed_volumes (io_vm sample_world) ! 0) ! 1) (Some m)"
  have "\<exists>w c. xsan_volume_write_async ?P sample_world 5 0 4096 (Some (replicate 4096 9)) True 7 = Done (w, XSAN_OK) \<and>
      in_flight w = {#Connecting p#} \<and> pending_replicated_ios w 1000 = Some c \<and> failed_writes c = 1 \<and>
      total_replicas_targeted c = 2"
    using m
    by (simp add: xsan_volume_write_async_def sample_world_def sample_vm_def sample_volume_def zero_volume_def lock_def
        Let_def xsan_replicated_io_ctx_create_def XSAN_MAX_REPLICAS_def write_replicas_def write_replica_def writable_def
        zero_replica_def write_remote_def sample_write_env_def sample_env_def sample_uuid_def
        xsan_local_replica_write_complete_cb_def with_lock_def set_replica_def unlock_def settle_def update_ctx_def
        sample_check_def count_result_def count_failure_def new_replicated_io_ctx_def contact_def
        xsan_node_comm_connect_def p_def op_ctx_def)
  then obtain w c where w: "xsan_volume_write_async ?P sample_world 5 0 4096 (Some (replicate 4096 9)) True 7 = Done (w, XSAN_OK)"
    "in_flight w = {#Connecting p#}" "pending_replicated_ios w 1000 = Some c" "failed_writes c = 1" "total_replicas_targeted c = 2"
    by blast
  have "reach {?P} w [7]" using reach.Write [OF start _ _ _ w(1)] by (simp add: sample_world_def flights_def)
  with w(2-) that [of w p c] show thesis by (simp add: p_def op_ctx_def)
qed




section \<open>Where the books break\<close>

text \<open>A send that fails calls the callback and returns an error, and the caller calls the callback again, whose
  argument is freed by then.\<close>

lemma send_failure_bad:
  assumes P: "env_ok W E P" and w: "idle w" and b: "books W E (Suc k) w (parent_tid p)"
    and c: "pending_replicated_ios w (parent_tid p) = Some c" and m: "request_msg_to_send p = Some m"
    and conn: "connections w s = Some conn" "current_send_cb conn = NULL" "module_initialized (comm w)" "on_spdk_thread P"
    and fails: "\<And>bs. sock_writev P s bs = WriteError e" "e \<noteq> 0"
  shows "xsan_remote_replica_connect_then_send_cb P w p (Some s) 0 = Bad_access"
proof -
  have "send_breaks P w p s" using send_breaks_iff [OF m, of P s w] conn fails by simp
  with connect_cb_outcome [OF P w b c, of 0 "Some s"] m show ?thesis by simp
qed

text \<open>The answer of a replica is counted without a look at which replicas have answered: the answer that makes up
  the number completes the write, from whatever node it comes.\<close>

lemma any_response_completes:
  assumes P: "env_ok W True P" and w: "idle w" and c: "pending_replicated_ios w t = Some c"
    and last: "Suc (unat (successful_writes c) + unat (failed_writes c)) = unat (total_replicas_targeted c)"
      "unat (total_replicas_targeted c) \<le> XSAN_MAX_REPLICAS"
  shows "\<exists>w'. xsan_volume_manager_process_replica_write_response P w t nid status = Done w' \<and>
    pending_replicated_ios w' t = None \<and> in_flight w' = in_flight w"
proof -
  obtain place where place: "locate_replica P w (rc_volume_id c) nid = Done place" using locate_idle [OF P w] by blast
  obtain v where v: "set_located place (contact P XSAN_STORAGE_STATE_DEGRADED status) w = Done v" "only_volumes w v"
    using set_located_idle [OF w] by blast
  let ?c = "count_result status c"
  let ?v = "v\<lparr>pending_replicated_ios := (pending_replicated_ios v)(t \<mapsto> ?c)\<rparr>"
  have "all_counted ?c" unfolding all_counted_def
    using counts_result [of status, unfolded counts_def, THEN conjunct1, rule_format, of c]
      counts_result [of status, unfolded counts_def, THEN conjunct2, rule_format, of c] last by simp
  then obtain st where "check_completion P ?v t = Done (ended t ?c st ?v)"
    using P by (force simp: env_ok_def ends_when_all_def)
  with place v w c only_volumes_books(4,5) [OF v(2)] show ?thesis
    by (simp add: xsan_volume_manager_process_replica_write_response_def idle_def settle_def update_ctx_def ended_def)
qed

end
