(* ===== verification/ReplicaHandler.thy ===== *)
theory ReplicaHandler
  imports WritePath
begin

text \<open>
  The node that holds a replica: \<^verbatim>\<open>xsan_volume_manager_handle_replica_write_req\<close> and
  \<^verbatim>\<open>xsan_volume_manager_handle_replica_read_req\<close> of src/storage/volume\_manager.c, which are called with the
  messages that another node has sent.

  The callback of the local transfer, \<^verbatim>\<open>_handle_replica_local_io_complete_cb\<close>, is declared but defined nowhere:
  its calls are results of the model, as are the error answers.
\<close>

section \<open>Requests and answers\<close>

text \<open>The packed structures, in the byte order of the host.\<close>

record xsan_replica_req_payload =
  rq_volume_id :: uuid
  block_lba_on_volume :: u64
  rq_num_blocks :: u32

definition req_payload_size :: nat where
  "req_payload_size = 28"

definition req_payload_of :: "byte_order \<Rightarrow> u8 list \<Rightarrow> xsan_replica_req_payload" where
  "req_payload_of bo bs =
     \<lparr>rq_volume_id = le_word (take 16 bs), block_lba_on_volume = mem_word bo (take 8 (drop 16 bs)),
      rq_num_blocks = mem_word bo (take 4 (drop 24 bs))\<rparr>"

definition write_resp_payload :: "byte_order \<Rightarrow> int \<Rightarrow> u64 \<Rightarrow> u32 \<Rightarrow> u8 list" where
  "write_resp_payload bo status lba n = mem_bytes bo 4 (word_of_int status :: u32) @ mem_bytes bo 8 lba @ mem_bytes bo 4 n"

definition read_resp_payload :: "byte_order \<Rightarrow> int \<Rightarrow> uuid \<Rightarrow> u64 \<Rightarrow> u32 \<Rightarrow> u8 list" where
  "read_resp_payload bo status vid lba n =
     mem_bytes bo 4 (word_of_int status :: u32) @ le_bytes 16 vid @ mem_bytes bo 8 lba @ mem_bytes bo 4 n"

record xsan_replica_op_handler_ctx =
  original_req_header :: xsan_message_header
  req_payload_data :: xsan_replica_req_payload
  handler_dma_buffer :: "u8 list ptr"
  data_len_bytes :: u64
  is_read_op_on_replica :: bool

text \<open>What a handler has done: nothing, an error answer that was made and sent or could not be, a local transfer
  that was started with the events of the I/O layer, or a call of the completion callback because the
  transfer could not be started. The request is destroyed in each case.\<close>

datatype replica_outcome =
    Ignored
  | Error_answer xsan_error "xsan_message ptr"
  | Io_started xsan_replica_op_handler_ctx "(unit, xsan_replica_op_handler_ctx) vm_io_events"
  | Io_failed xsan_replica_op_handler_ctx xsan_error

text \<open>\<open>ctx_ok\<close>, \<open>resp_ctx_ok\<close> and \<open>answer_malloc\<close> are the allocations of the context, of the context of the
  answer and of its message; the other fields are those of the environment of a write.\<close>

record ('db, 'it, 'dm, 'a) handler_env = "('db, 'it, 'dm, 'a) write_env" +
  ctx_ok :: bool
  resp_ctx_ok :: bool
  answer_malloc :: malloc_results
  answer_fresh :: "u8 list"
  answer_raw :: "u8 list"

definition handler_volume ::
  "('db, 'it, 'dm, 'a, 'z) handler_env_scheme \<Rightarrow> ('db, 'dm) xsan_volume_manager \<Rightarrow> uuid \<Rightarrow> xsan_volume ptr" where
  "handler_volume H vm vid = map_option ((!) (managed_volumes vm)) (volume_at H vm vid)"

definition handler_submit ::
  "('db, 'it, 'dm, 'a, 'z) handler_env_scheme \<Rightarrow> ('db, 'dm) xsan_volume_manager \<Rightarrow> uuid \<Rightarrow> u64 \<Rightarrow> u64 \<Rightarrow> u8 list \<Rightarrow> bool
     \<Rightarrow> xsan_replica_op_handler_ctx \<Rightarrow> replica_outcome run" where
  "handler_submit H vm vid off len buf is_read c =
     bind_run (xsan_volume_submit_single_io_attempt ((w_vm H)\<lparr>volume_get_by_id := handler_volume H\<rparr>) (w_bdev H)
                 (phys_malloc_ok H) (io_req_malloc_ok H) vm vid off len (Some buf) is_read (Some ()) c) (\<lambda>(err, evs).
       Done (if err = XSAN_OK then Io_started c evs else Io_failed c err))"

section \<open>Writing\<close>

definition write_error_answer ::
  "('db, 'it, 'dm, 'a, 'z) handler_env_scheme \<Rightarrow> xsan_message \<Rightarrow> xsan_replica_req_payload ptr \<Rightarrow> xsan_error \<Rightarrow> replica_outcome" where
  "write_error_answer H msg req err =
     Error_answer err
       (case xsan_protocol_message_create (w_order H) (answer_malloc H) (answer_fresh H)
               XSAN_MSG_TYPE_REPLICA_WRITE_BLOCK_RESP (transaction_id (header msg))
               (Some (write_resp_payload (w_order H) (code_of H err)
                  (case req of NULL \<Rightarrow> 0 | Some q \<Rightarrow> block_lba_on_volume q) 0)) 16 of
          NULL \<Rightarrow> NULL
        | Some m \<Rightarrow> if resp_ctx_ok H then Some m else NULL)"

definition xsan_volume_manager_handle_replica_write_req ::
  "('db, 'it, 'dm, 'a, 'z) handler_env_scheme \<Rightarrow> bool \<Rightarrow> xsan_message ptr \<Rightarrow> ('db, 'dm) xsan_volume_manager ptr
     \<Rightarrow> replica_outcome run" where
  "xsan_volume_manager_handle_replica_write_req H has_conn msg vm =
     (case (msg, vm) of
        (Some m, Some vm) \<Rightarrow>
          if \<not> has_conn then Done Ignored
          else if ucast (msg_type (header m)) \<noteq> XSAN_MSG_TYPE_REPLICA_WRITE_BLOCK_REQ
          then Done (write_error_answer H m NULL XSAN_ERROR_INVALID_MSG_TYPE)
          else if unat (payload_length (header m)) < req_payload_size
          then Done (write_error_answer H m NULL XSAN_ERROR_PROTOCOL_GENERIC)
          else
            (case payload m of
               NULL \<Rightarrow> Bad_access
             | Some bs \<Rightarrow>
                 if length bs < unat (payload_length (header m)) then Bad_access
                 else
                   (let req = req_payload_of (w_order H) bs;
                        actual_data_len = payload_length (header m) - of_nat req_payload_size;
                        data_to_write = drop req_payload_size bs
                    in case handler_volume H vm (rq_volume_id req) of
                         NULL \<Rightarrow> Done (write_error_answer H m (Some req) XSAN_ERROR_NOT_FOUND)
                       | Some vol \<Rightarrow>
                           if block_size_bytes vol = 0 \<or> rq_num_blocks req = 0
                           then Done (write_error_answer H m (Some req) XSAN_ERROR_INVALID_PARAM)
                           else if ucast actual_data_len \<noteq> (ucast (rq_num_blocks req) * ucast (block_size_bytes vol) :: u64)
                           then Done (write_error_answer H m (Some req) XSAN_ERROR_INVALID_PARAM_SIZE)
                           else if \<not> ctx_ok H
                           then Done (write_error_answer H m (Some req) XSAN_ERROR_OUT_OF_MEMORY)
                           else
                             handler_submit H vm (rq_volume_id req)
                               (block_lba_on_volume req * ucast (block_size_bytes vol)) (ucast actual_data_len)
                               data_to_write False
                               \<lparr>original_req_header = header m, req_payload_data = req, handler_dma_buffer = NULL,
                                data_len_bytes = ucast actual_data_len, is_read_op_on_replica = False\<rparr>))
      | _ \<Rightarrow> Done Ignored)"

section \<open>Reading\<close>

text \<open>The alignment of the first disk of the group, and 4096 if there is none.\<close>

definition replica_buf_align ::
  "('db, 'it, 'dm, 'a, 'z) handler_env_scheme \<Rightarrow> ('db, 'dm) xsan_volume_manager \<Rightarrow> xsan_volume \<Rightarrow> u64" where
  "replica_buf_align H vm vol =
     (case find_disk_group_by_id (w_vm H) (disk_manager vm) (source_group_id vol) of
        NULL \<Rightarrow> 4096
      | Some dg \<Rightarrow>
          (case dg_disk_ids dg of
             [] \<Rightarrow> 4096
           | did # _ \<Rightarrow>
               (case find_disk_by_id (w_vm H) (disk_manager vm) did of
                  NULL \<Rightarrow> 4096
                | Some d \<Rightarrow>
                    if disk_bdev_name d = [] then 4096
                    else xsan_bdev_get_buf_align (w_bdev H) (Some (disk_bdev_name d)))))"

definition read_error_answer ::
  "('db, 'it, 'dm, 'a, 'z) handler_env_scheme \<Rightarrow> xsan_message \<Rightarrow> xsan_replica_req_payload ptr \<Rightarrow> xsan_error \<Rightarrow> replica_outcome" where
  "read_error_answer H msg req err =
     Error_answer err
       (case xsan_protocol_message_create_with_data (w_order H) (answer_malloc H) (answer_fresh H) (answer_raw H)
               XSAN_MSG_TYPE_REPLICA_READ_BLOCK_RESP (transaction_id (header msg))
               (Some (read_resp_payload (w_order H) (code_of H err)
                  (case req of NULL \<Rightarrow> 0 | Some q \<Rightarrow> rq_volume_id q)
                  (case req of NULL \<Rightarrow> 0 | Some q \<Rightarrow> block_lba_on_volume q) 0)) 32 NULL 0 of
          NULL \<Rightarrow> NULL
        | Some m \<Rightarrow> if resp_ctx_ok H then Some m else NULL)"

definition xsan_volume_manager_handle_replica_read_req ::
  "('db, 'it, 'dm, 'a, 'z) handler_env_scheme \<Rightarrow> bool \<Rightarrow> xsan_message ptr \<Rightarrow> ('db, 'dm) xsan_volume_manager ptr
     \<Rightarrow> replica_outcome run" where
  "xsan_volume_manager_handle_replica_read_req H has_conn msg vm =
     (case (msg, vm) of
        (Some m, Some vm) \<Rightarrow>
          if \<not> has_conn then Done Ignored
          else if ucast (msg_type (header m)) \<noteq> XSAN_MSG_TYPE_REPLICA_READ_BLOCK_REQ
          then Done (read_error_answer H m NULL XSAN_ERROR_INVALID_MSG_TYPE)
          else if unat (payload_length (header m)) \<noteq> req_payload_size
          then Done (read_error_answer H m NULL XSAN_ERROR_PROTOCOL_GENERIC)
          else
            (case payload m of
               NULL \<Rightarrow> Bad_access
             | Some bs \<Rightarrow>
                 if length bs < req_payload_size then Bad_access
                 else
                   (let req = req_payload_of (w_order H) bs in
                    case handler_volume H vm (rq_volume_id req) of
                      NULL \<Rightarrow> Done (read_error_answer H m (Some req) XSAN_ERROR_NOT_FOUND)
                    | Some vol \<Rightarrow>
                        if block_size_bytes vol = 0 \<or> rq_num_blocks req = 0
                        then Done (read_error_answer H m (Some req) XSAN_ERROR_INVALID_PARAM)
                        else if \<not> ctx_ok H
                        then Done (read_error_answer H m (Some req) XSAN_ERROR_OUT_OF_MEMORY)
                        else
                          (let data_len = (ucast (rq_num_blocks req) * ucast (block_size_bytes vol) :: u64) in
                           case xsan_bdev_dma_malloc (w_bdev H) data_len (replica_buf_align H vm vol) of
                             NULL \<Rightarrow> Done (read_error_answer H m (Some req) XSAN_ERROR_OUT_OF_MEMORY)
                           | Some dma \<Rightarrow>
                               handler_submit H vm (rq_volume_id req)
                                 (block_lba_on_volume req * ucast (block_size_bytes vol)) data_len dma True
                                 \<lparr>original_req_header = header m, req_payload_data = req,
                                  handler_dma_buffer = Some dma, data_len_bytes = data_len,
                                  is_read_op_on_replica = True\<rparr>)))
      | _ \<Rightarrow> Done Ignored)"

section \<open>Payloads\<close>

lemma req_payload_round_trip:
  "req_payload_of bo (write_req_payload bo vid lba n @ rest) =
     \<lparr>rq_volume_id = vid, block_lba_on_volume = lba, rq_num_blocks = n\<rparr>"
  by (simp add: req_payload_of_def write_req_payload_def)

text \<open>What the receiver of a write request finds in it.\<close>

lemma write_message_parts:
  assumes m: "write_message P i t vid off len bs buf = Some m"
    and len: "unat len \<le> length buf" "unat len < 2 ^ 32" and raw: "length (msg_raw P i) = 28 + unat len"
  shows "ucast (msg_type (header m)) = XSAN_MSG_TYPE_REPLICA_WRITE_BLOCK_REQ"
    and "unat (payload_length (header m)) = 28 + unat len"
    and "payload m = Some (write_req_payload (w_order P) vid (off div ucast bs) (ucast (len div ucast bs)) @ take (unat len) buf)"
    and "unat len \<le> 16777216"
proof -
  let ?pl = "write_req_payload (w_order P) vid (off div ucast bs) (ucast (len div ucast bs))"
  have l: "length ?pl = 28" by (simp add: write_req_payload_def)
  have u: "unat (ucast len :: u32) = unat len" using len(2) by (simp add: unsigned_ucast_eq take_bit_eq_mod)
  have r: "xsan_protocol_message_create_with_data (w_order P) (msg_malloc P i) (msg_fresh P i) (msg_raw P i)
      XSAN_MSG_TYPE_REPLICA_WRITE_BLOCK_REQ t (Some ?pl) 28 (Some buf) (ucast len) = Some m"
    using m by (simp add: write_message_def)
  have eq: "28 + unat len \<le> XSAN_PROTOCOL_MAX_PAYLOAD_SIZE"
    "xsan_protocol_message_create (w_order P) (msg_malloc P i) (msg_fresh P i) XSAN_MSG_TYPE_REPLICA_WRITE_BLOCK_REQ t
      (Some (?pl @ take (unat len) buf)) (28 + ucast len) = Some m"
    using r message_with_data [of 28 ?pl "ucast len" buf "msg_raw P i"] l u len(1) raw by (auto split: if_splits)
  have n: "unat (28 + ucast len :: u32) = 28 + unat len"
    using eq(1) u by (simp add: unat_word_ariths XSAN_PROTOCOL_MAX_PAYLOAD_SIZE_def)
  then have pos: "(28 + ucast len :: u32) \<noteq> 0" by (metis add_eq_0_iff_both_eq_0 unat_0 zero_neq_numeral)
  show "ucast (msg_type (header m)) = XSAN_MSG_TYPE_REPLICA_WRITE_BLOCK_REQ" "unat (payload_length (header m)) = 28 + unat len"
    "payload m = Some (?pl @ take (unat len) buf)" "unat len \<le> 16777216"
    using eq n pos l len(1)
    by (auto simp: message_create_eq message_checksummed_def create_payload_def xsan_protocol_header_init_def Let_def
        XSAN_PROTOCOL_MAX_PAYLOAD_SIZE_def split: if_splits)
qed

text \<open>C8: The request that the primary sends for a write of whole blocks is understood by a replica of the same
  byte order as exactly that write: if the replica has the volume with the same block size and memory for its
  context, it starts the local transfer of the same range of the volume with the same bytes.\<close>

theorem replica_write_delivered:
  assumes "write_message P i t vid off len bs buf = Some m"
    and "unat len = length buf" "length buf < 2 ^ 32" "length (msg_raw P i) = 28 + length buf"
    and "unat len mod unat bs = 0" "unat off mod unat bs = 0" "bs \<noteq> 0" "len \<noteq> 0"
    and "w_order H = w_order P" "ctx_ok H" "handler_volume H vm vid = Some vol" "block_size_bytes vol = bs"
  shows "xsan_volume_manager_handle_replica_write_req H True (Some m) (Some vm) =
    handler_submit H vm vid off len buf False
      \<lparr>original_req_header = header m,
       req_payload_data = \<lparr>rq_volume_id = vid, block_lba_on_volume = off div ucast bs, rq_num_blocks = ucast (len div ucast bs)\<rparr>,
       handler_dma_buffer = NULL, data_len_bytes = len, is_read_op_on_replica = False\<rparr>"
proof -
  note parts = write_message_parts [OF assms(1)]
  let ?pl = "write_req_payload (w_order P) vid (off div ucast bs) (ucast (len div ucast bs))"
  have l: "length ?pl = 28" by (simp add: write_req_payload_def)
  have m: "ucast (msg_type (header m)) = XSAN_MSG_TYPE_REPLICA_WRITE_BLOCK_REQ"
    "unat (payload_length (header m)) = 28 + unat len" "payload m = Some (?pl @ buf)" "unat len \<le> 16777216"
    using parts assms(2,3,4) by auto
  have bs: "unat (ucast bs :: u64) = unat bs" by simp
  have d: "unat (ucast (payload_length (header m) - of_nat req_payload_size) :: u64) = unat len"
    using m(2) by (simp add: req_payload_size_def unat_sub word_le_nat_alt)
  then have d': "ucast (payload_length (header m) - of_nat req_payload_size) = len" by (simp add: word_unat_eq_iff)
  have "unat (off div ucast bs * ucast bs :: u64) = unat off"
    using assms(6) unat_mult_small [of "off div ucast bs" "ucast bs"] unsigned_less [of off, where 'a = nat]
    by (simp add: unat_div bs mod_eq_0_iff_dvd)
  then have off: "off div ucast bs * ucast bs = off" by (simp add: word_unat_eq_iff)
  have k: "unat len div unat bs < 2 ^ 32" 
    by (rule le_less_trans [OF div_le_dividend]) (use m(4) in simp)
  have nb: "unat (ucast (len div ucast bs) :: u32) = unat len div unat bs"
    using k by (simp add: unsigned_ucast_eq take_bit_eq_mod unat_div bs)
  have "unat len = unat len div unat bs * unat bs" using assms(5) by (simp add: mod_eq_0_iff_dvd)
  moreover have "unat len \<noteq> 0" using assms(8) by (simp add: unat_eq_0)
  ultimately have "0 < unat len div unat bs" by (metis mult_0 neq0_conv)
  with nb have nb0: "(ucast (len div ucast bs) :: u32) \<noteq> 0" by (metis less_irrefl unat_0)
  have "unat (ucast (ucast (len div ucast bs) :: u32) * ucast bs :: u64) = unat len"
    using assms(5) nb m(4) by (subst unat_mult_small) auto
  then have size: "(ucast (ucast (len div ucast bs) :: u32) * ucast bs :: u64) = len" by (simp add: word_unat_eq_iff)
  show ?thesis using m l d' off nb0 size assms
    by (simp add: xsan_volume_manager_handle_replica_write_req_def req_payload_round_trip req_payload_size_def Let_def)
qed

definition sample_handler_env :: "(write_log, log_iter, u64, nat) handler_env" where
  "sample_handler_env = write_env.extend sample_write_env
     (handler_env.fields True True \<lparr>msg_ok = True, payload_ok = True, cks_ok = True\<rparr> [] [])"

theorem replica_write_delivered_witness:
  "\<exists>m. write_message sample_write_env 1 1000 5 8192 4096 4096 (replicate 4096 9) = Some m \<and>
     xsan_volume_manager_handle_replica_write_req sample_handler_env True (Some m) (Some (io_vm sample_world)) =
       handler_submit sample_handler_env (io_vm sample_world) 5 8192 4096 (replicate 4096 9) False
         \<lparr>original_req_header = header m,
          req_payload_data = \<lparr>rq_volume_id = 5, block_lba_on_volume = 2, rq_num_blocks = 1\<rparr>,
          handler_dma_buffer = NULL, data_len_bytes = 4096, is_read_op_on_replica = False\<rparr>"
proof -
  let ?buf = "replicate 4096 (9 :: u8)" and ?vol = "managed_volumes (io_vm sample_world) ! 0"
  obtain m where m: "write_message sample_write_env 1 1000 5 8192 4096 4096 ?buf = Some m"
    by (auto simp: write_message_def sample_write_env_def xsan_protocol_message_create_with_data_def Let_def
        XSAN_PROTOCOL_MAX_PAYLOAD_SIZE_def message_checksummed_def)
  have vol: "handler_volume sample_handler_env (io_vm sample_world) 5 = Some ?vol" "block_size_bytes ?vol = 4096"
    by (simp_all add: handler_volume_def sample_handler_env_def write_env.defs handler_env.defs sample_write_env_def
        sample_world_def sample_volume_def sample_vm_def)
  have env: "w_order sample_handler_env = w_order sample_write_env" "ctx_ok sample_handler_env"
    "length (msg_raw sample_write_env 1) = 28 + length ?buf"
    by (simp_all add: sample_handler_env_def write_env.defs handler_env.defs sample_write_env_def)
  from replica_write_delivered [OF m _ _ env(3) _ _ _ _ env(1,2) vol] m show ?thesis by simp
qed

end
