(* ===== verification/DList.thy ===== *)
theory DList
  imports Interfaces "HOL-Library.Monad_Syntax"
begin

text \<open>
  src/common/list.c: the doubly linked list, on an explicit heap. A node lives at an address; the
  list structure holds the addresses of its first and last node. Every operation reads and
  writes nodes through their addresses in the order of the source, and is \<^const>\<open>None\<close> if it
  would touch an address where there is no node. \<^verbatim>\<open>malloc\<close> is a parameter: it gives the address
  for a new node, or none when memory is exhausted.
\<close>

section \<open>Nodes, heap and list\<close>

type_synonym addr = nat

record 'a xsan_list_node =
  node_value :: "'a ptr"
  node_prev :: "addr ptr"
  node_next :: "addr ptr"

type_synonym 'a heap = "addr \<rightharpoonup> 'a xsan_list_node"

record 'a xsan_list =
  nodes :: "'a heap"
  head :: "addr ptr"
  tail :: "addr ptr"
  list_size :: nat
  value_destroy_func :: bool

text \<open>Reading a node, and writing one of its fields.\<close>

definition load :: "'a xsan_list \<Rightarrow> addr \<Rightarrow> 'a xsan_list_node option" where
  "load l a = nodes l a"

definition set_prev :: "addr \<Rightarrow> addr ptr \<Rightarrow> 'a xsan_list \<Rightarrow> 'a xsan_list option" where
  "set_prev a p l =
     (case nodes l a of None \<Rightarrow> None
      | Some n \<Rightarrow> Some (l\<lparr>nodes := (nodes l)(a \<mapsto> n\<lparr>node_prev := p\<rparr>)\<rparr>))"

definition set_next :: "addr \<Rightarrow> addr ptr \<Rightarrow> 'a xsan_list \<Rightarrow> 'a xsan_list option" where
  "set_next a p l =
     (case nodes l a of None \<Rightarrow> None
      | Some n \<Rightarrow> Some (l\<lparr>nodes := (nodes l)(a \<mapsto> n\<lparr>node_next := p\<rparr>)\<rparr>))"

definition free_node :: "addr \<Rightarrow> 'a xsan_list \<Rightarrow> 'a xsan_list option" where
  "free_node a l =
     (case nodes l a of None \<Rightarrow> None | Some _ \<Rightarrow> Some (l\<lparr>nodes := (nodes l)(a := None)\<rparr>))"

section \<open>Operations\<close>

definition xsan_list_create :: "bool \<Rightarrow> bool \<Rightarrow> 'a xsan_list ptr" where
  "xsan_list_create malloc_ok destroy =
     (if \<not> malloc_ok then NULL
      else Some \<lparr>nodes = Map.empty, head = NULL, tail = NULL, list_size = 0,
                 value_destroy_func = destroy\<rparr>)"

definition create_new_node ::
  "('a heap \<Rightarrow> addr ptr) \<Rightarrow> 'a ptr \<Rightarrow> 'a xsan_list \<Rightarrow> addr ptr \<times> 'a xsan_list" where
  "create_new_node malloc v l =
     (case malloc (nodes l) of
        NULL \<Rightarrow> (NULL, l)
      | Some a \<Rightarrow> (Some a, l\<lparr>nodes := (nodes l)(a \<mapsto> \<lparr>node_value = v, node_prev = NULL, node_next = NULL\<rparr>)\<rparr>))"

definition xsan_list_append ::
  "('a heap \<Rightarrow> addr ptr) \<Rightarrow> 'a ptr \<Rightarrow> 'a xsan_list \<Rightarrow> (addr ptr \<times> 'a xsan_list) option" where
  "xsan_list_append malloc v l =
     (case create_new_node malloc v l of
        (NULL, l) \<Rightarrow> Some (NULL, l)
      | (Some node, l) \<Rightarrow>
          (case tail l of
             NULL \<Rightarrow>
               Some (Some node, l\<lparr>head := Some node, tail := Some node, list_size := list_size l + 1\<rparr>)
           | Some t \<Rightarrow> do {
               l \<leftarrow> set_next t (Some node) l;
               l \<leftarrow> set_prev node (tail l) l;
               Some (Some node, l\<lparr>tail := Some node, list_size := list_size l + 1\<rparr>)
             }))"

definition xsan_list_prepend ::
  "('a heap \<Rightarrow> addr ptr) \<Rightarrow> 'a ptr \<Rightarrow> 'a xsan_list \<Rightarrow> (addr ptr \<times> 'a xsan_list) option" where
  "xsan_list_prepend malloc v l =
     (case create_new_node malloc v l of
        (NULL, l) \<Rightarrow> Some (NULL, l)
      | (Some node, l) \<Rightarrow>
          (case head l of
             NULL \<Rightarrow>
               Some (Some node, l\<lparr>head := Some node, tail := Some node, list_size := list_size l + 1\<rparr>)
           | Some h \<Rightarrow> do {
               l \<leftarrow> set_prev h (Some node) l;
               l \<leftarrow> set_next node (head l) l;
               Some (Some node, l\<lparr>head := Some node, list_size := list_size l + 1\<rparr>)
             }))"

definition xsan_list_insert_after ::
  "('a heap \<Rightarrow> addr ptr) \<Rightarrow> addr ptr \<Rightarrow> 'a ptr \<Rightarrow> 'a xsan_list \<Rightarrow> (addr ptr \<times> 'a xsan_list) option" where
  "xsan_list_insert_after malloc prev_node v l =
     (case prev_node of
        NULL \<Rightarrow> Some (NULL, l)
      | Some p \<Rightarrow>
          if Some p = tail l then xsan_list_append malloc v l
          else
            (case create_new_node malloc v l of
               (NULL, l) \<Rightarrow> Some (NULL, l)
             | (Some new_node, l) \<Rightarrow> do {
                 pn \<leftarrow> load l p;
                 l \<leftarrow> set_next new_node (node_next pn) l;
                 l \<leftarrow> set_prev new_node (Some p) l;
                 pn \<leftarrow> load l p;
                 l \<leftarrow> (case node_next pn of NULL \<Rightarrow> Some l | Some q \<Rightarrow> set_prev q (Some new_node) l);
                 l \<leftarrow> set_next p (Some new_node) l;
                 Some (Some new_node, l\<lparr>list_size := list_size l + 1\<rparr>)
               }))"

definition xsan_list_insert_before ::
  "('a heap \<Rightarrow> addr ptr) \<Rightarrow> addr ptr \<Rightarrow> 'a ptr \<Rightarrow> 'a xsan_list \<Rightarrow> (addr ptr \<times> 'a xsan_list) option" where
  "xsan_list_insert_before malloc next_node v l =
     (case next_node of
        NULL \<Rightarrow> Some (NULL, l)
      | Some q \<Rightarrow>
          if Some q = head l then xsan_list_prepend malloc v l
          else
            (case create_new_node malloc v l of
               (NULL, l) \<Rightarrow> Some (NULL, l)
             | (Some new_node, l) \<Rightarrow> do {
                 qn \<leftarrow> load l q;
                 l \<leftarrow> set_prev new_node (node_prev qn) l;
                 l \<leftarrow> set_next new_node (Some q) l;
                 qn \<leftarrow> load l q;
                 l \<leftarrow> (case node_prev qn of NULL \<Rightarrow> Some l | Some p \<Rightarrow> set_next p (Some new_node) l);
                 l \<leftarrow> set_prev q (Some new_node) l;
                 Some (Some new_node, l\<lparr>list_size := list_size l + 1\<rparr>)
               }))"

text \<open>The values the destructor is called on are the second component.\<close>

definition xsan_list_remove_node ::
  "addr ptr \<Rightarrow> 'a xsan_list \<Rightarrow> (xsan_error \<times> 'a list \<times> 'a xsan_list) option" where
  "xsan_list_remove_node node l =
     (case node of
        NULL \<Rightarrow> Some (XSAN_ERROR_INVALID_PARAM, [], l)
      | Some a \<Rightarrow>
          (let is_head = (head l = Some a); is_tail = (tail l = Some a) in do {
             n \<leftarrow> load l a;
             l \<leftarrow> (case node_prev n of NULL \<Rightarrow> Some l | Some p \<Rightarrow> set_next p (node_next n) l);
             n \<leftarrow> load l a;
             l \<leftarrow> (case node_next n of NULL \<Rightarrow> Some l | Some q \<Rightarrow> set_prev q (node_prev n) l);
             n \<leftarrow> load l a;
             let l = (if is_head then l\<lparr>head := node_next n\<rparr> else l);
             let l = (if is_tail then l\<lparr>tail := node_prev n\<rparr> else l);
             let destroyed = (case node_value n of Some v \<Rightarrow> if value_destroy_func l then [v] else []
                              | NULL \<Rightarrow> []);
             l \<leftarrow> free_node a l;
             let l = l\<lparr>list_size := list_size l - 1\<rparr>;
             Some (XSAN_OK, destroyed,
                   if list_size l = 0 then l\<lparr>head := NULL, tail := NULL\<rparr> else l)
           }))"

definition xsan_list_pop_front :: "'a xsan_list \<Rightarrow> ('a ptr \<times> 'a xsan_list) option" where
  "xsan_list_pop_front l =
     (case head l of
        NULL \<Rightarrow> Some (NULL, l)
      | Some a \<Rightarrow> do {
          n \<leftarrow> load l a;
          let v = node_value n;
          let l = l\<lparr>head := node_next n\<rparr>;
          l \<leftarrow> (case head l of Some h \<Rightarrow> set_prev h NULL l | NULL \<Rightarrow> Some (l\<lparr>tail := NULL\<rparr>));
          l \<leftarrow> free_node a l;
          Some (v, l\<lparr>list_size := list_size l - 1\<rparr>)
        })"

definition xsan_list_pop_back :: "'a xsan_list \<Rightarrow> ('a ptr \<times> 'a xsan_list) option" where
  "xsan_list_pop_back l =
     (case tail l of
        NULL \<Rightarrow> Some (NULL, l)
      | Some a \<Rightarrow> do {
          n \<leftarrow> load l a;
          let v = node_value n;
          let l = l\<lparr>tail := node_prev n\<rparr>;
          l \<leftarrow> (case tail l of Some t \<Rightarrow> set_next t NULL l | NULL \<Rightarrow> Some (l\<lparr>head := NULL\<rparr>));
          l \<leftarrow> free_node a l;
          Some (v, l\<lparr>list_size := list_size l - 1\<rparr>)
        })"

definition xsan_list_get_head :: "'a xsan_list ptr \<Rightarrow> addr ptr" where
  "xsan_list_get_head lp = (case lp of Some l \<Rightarrow> head l | NULL \<Rightarrow> NULL)"

definition xsan_list_get_tail :: "'a xsan_list ptr \<Rightarrow> addr ptr" where
  "xsan_list_get_tail lp = (case lp of Some l \<Rightarrow> tail l | NULL \<Rightarrow> NULL)"

definition xsan_list_node_next :: "'a xsan_list \<Rightarrow> addr ptr \<Rightarrow> addr ptr option" where
  "xsan_list_node_next l node =
     (case node of NULL \<Rightarrow> Some NULL | Some a \<Rightarrow> map_option node_next (load l a))"

definition xsan_list_node_prev :: "'a xsan_list \<Rightarrow> addr ptr \<Rightarrow> addr ptr option" where
  "xsan_list_node_prev l node =
     (case node of NULL \<Rightarrow> Some NULL | Some a \<Rightarrow> map_option node_prev (load l a))"

definition xsan_list_node_get_value :: "'a xsan_list \<Rightarrow> addr ptr \<Rightarrow> 'a ptr option" where
  "xsan_list_node_get_value l node =
     (case node of NULL \<Rightarrow> Some NULL | Some a \<Rightarrow> map_option node_value (load l a))"

definition xsan_list_size :: "'a xsan_list ptr \<Rightarrow> nat" where
  "xsan_list_size lp = (case lp of Some l \<Rightarrow> list_size l | NULL \<Rightarrow> 0)"

definition xsan_list_is_empty :: "'a xsan_list ptr \<Rightarrow> bool" where
  "xsan_list_is_empty lp = (case lp of NULL \<Rightarrow> True | Some l \<Rightarrow> list_size l = 0)"

text \<open>The loop of \<^verbatim>\<open>xsan_list_clear\<close> follows the next pointers and frees as it goes; it cannot
  free more nodes than there are, so the number of nodes of a finite heap is fuel enough. The
  fuel is \<open>list_size + 1\<close>; a list on which that runs out is not a list of this module, and the
  result is then \<^const>\<open>None\<close>.\<close>

fun clear_nodes :: "nat \<Rightarrow> addr ptr \<Rightarrow> 'a xsan_list \<Rightarrow> ('a list \<times> 'a xsan_list) option" where
  "clear_nodes fuel NULL l = Some ([], l)"
| "clear_nodes 0 (Some a) l = None"
| "clear_nodes (Suc fuel) (Some a) l = do {
     n \<leftarrow> load l a;
     let destroyed = (case node_value n of Some v \<Rightarrow> if value_destroy_func l then [v] else [] | NULL \<Rightarrow> []);
     l \<leftarrow> free_node a l;
     (ds, l) \<leftarrow> clear_nodes fuel (node_next n) l;
     Some (destroyed @ ds, l)
   }"

definition xsan_list_clear :: "'a xsan_list \<Rightarrow> ('a list \<times> 'a xsan_list) option" where
  "xsan_list_clear l = do {
     (ds, l) \<leftarrow> clear_nodes (list_size l + 1) (head l) l;
     Some (ds, l\<lparr>head := NULL, tail := NULL, list_size := 0\<rparr>)
   }"

definition xsan_list_destroy :: "'a xsan_list ptr \<Rightarrow> 'a list option" where
  "xsan_list_destroy lp =
     (case lp of NULL \<Rightarrow> Some [] | Some l \<Rightarrow> map_option fst (xsan_list_clear l))"

section \<open>The list a heap holds\<close>

text \<open>A list of addresses with their values; \<open>first_of\<close> and \<open>last_of\<close> are the pointers to its
  ends, with a default for the empty list.\<close>

fun first_of :: "(addr \<times> 'a) list \<Rightarrow> addr ptr \<Rightarrow> addr ptr" where
  "first_of [] q = q"
| "first_of ((a, v) # xs) q = Some a"

definition last_of :: "addr ptr \<Rightarrow> (addr \<times> 'a) list \<Rightarrow> addr ptr" where
  "last_of p xs = (if xs = [] then p else Some (fst (last xs)))"

text \<open>A segment: the nodes of the list, linked to each other, to \<open>p\<close> before and to \<open>q\<close> after.\<close>

fun seg :: "'a heap \<Rightarrow> addr ptr \<Rightarrow> (addr \<times> 'a ptr) list \<Rightarrow> addr ptr \<Rightarrow> bool" where
  "seg h p [] q = True"
| "seg h p ((a, v) # xs) q =
     (h a = Some \<lparr>node_value = v, node_prev = p, node_next = first_of xs q\<rparr> \<and> seg h (Some a) xs q)"

definition dll :: "'a xsan_list \<Rightarrow> (addr \<times> 'a ptr) list \<Rightarrow> bool" where
  "dll l xs \<longleftrightarrow>
     seg (nodes l) NULL xs NULL \<and> distinct (map fst xs) \<and> dom (nodes l) = fst ` set xs \<and>
     head l = first_of xs NULL \<and> tail l = last_of NULL xs \<and> list_size l = length xs"

lemma last_of_simps [simp]:
  "last_of p [] = p" "last_of p (xs @ [(a, v)]) = Some a"
  "last_of p ((a, v) # xs) = last_of (Some a) xs"
  by (auto simp: last_of_def)

lemma last_of_append [simp]: "last_of p (xs @ ys) = last_of (last_of p xs) ys"
  by (auto simp: last_of_def)

lemma first_of_append [simp]: "first_of (xs @ ys) q = first_of xs (first_of ys q)"
  by (cases xs) auto

lemma seg_append [simp]:
  "seg h p (xs @ ys) q \<longleftrightarrow> seg h p xs (first_of ys q) \<and> seg h (last_of p xs) ys q"
  by (induction xs arbitrary: p) auto

lemma seg_frame [simp]: "a \<notin> fst ` set xs \<Longrightarrow> seg (h(a := n)) p xs q = seg h p xs q"
  by (induction xs arbitrary: p) auto

lemma first_of_None [simp]: "first_of xs NULL = NULL \<longleftrightarrow> xs = []"
  by (cases xs) auto

lemma last_of_None [simp]: "last_of NULL xs = NULL \<longleftrightarrow> xs = []"
  by (simp add: last_of_def)

lemmas node_ops = load_def set_prev_def set_next_def free_node_def create_new_node_def

lemma free_last: "dom h = {a} \<Longrightarrow> h(a := None) = Map.empty"
  by (rule ext) (metis domIff fun_upd_apply singletonD)

text \<open>What the operations require of \<^verbatim>\<open>malloc\<close>: the block it returns is not in use.\<close>

definition malloc_fresh :: "('a heap \<Rightarrow> addr ptr) \<Rightarrow> bool" where
  "malloc_fresh malloc \<longleftrightarrow> (\<forall>h a. malloc h = Some a \<longrightarrow> a \<notin> dom h)"

lemma dll_fresh:
  "malloc_fresh malloc \<Longrightarrow> dll l xs \<Longrightarrow> malloc (nodes l) = Some a \<Longrightarrow> a \<notin> fst ` set xs"
  by (metis dll_def malloc_fresh_def)

section \<open>Operations on the list\<close>

lemma dll_create: "xsan_list_create True d = Some l \<Longrightarrow> dll l []"
  by (auto simp: xsan_list_create_def dll_def)

lemma append_dll:
  assumes "dll l xs" "malloc (nodes l) = Some a" "a \<notin> fst ` set xs"
  shows "\<exists>l'. xsan_list_append malloc v l = Some (Some a, l') \<and> dll l' (xs @ [(a, v)]) \<and>
    value_destroy_func l' = value_destroy_func l"
proof (cases xs rule: rev_cases)
  case Nil
  with assms show ?thesis by (auto simp: xsan_list_append_def node_ops dll_def)
next
  case (snoc ys x)
  obtain t w where x: "x = (t, w)" by (cases x)
  with snoc assms show ?thesis
    by (auto simp: xsan_list_append_def node_ops dll_def)
qed

lemma prepend_dll:
  assumes "dll l xs" "malloc (nodes l) = Some a" "a \<notin> fst ` set xs"
  shows "\<exists>l'. xsan_list_prepend malloc v l = Some (Some a, l') \<and> dll l' ((a, v) # xs) \<and>
    value_destroy_func l' = value_destroy_func l"
proof (cases xs)
  case Nil
  with assms show ?thesis by (auto simp: xsan_list_prepend_def node_ops dll_def)
next
  case (Cons x ys)
  obtain t w where x: "x = (t, w)" by (cases x)
  with Cons assms show ?thesis
    by (auto simp: xsan_list_prepend_def node_ops dll_def)
qed

lemma insert_after_dll:
  assumes l: "dll l (ys @ (p, u) # zs)" and m: "malloc (nodes l) = Some a"
    and fresh: "a \<notin> fst ` set (ys @ (p, u) # zs)"
  shows "\<exists>l'. xsan_list_insert_after malloc (Some p) v l = Some (Some a, l') \<and>
    dll l' (ys @ (p, u) # (a, v) # zs) \<and> value_destroy_func l' = value_destroy_func l"
proof (cases zs)
  case Nil
  then have "tail l = Some p" using l by (simp add: dll_def)
  then show ?thesis
    using append_dll [of l "ys @ [(p, u)]" malloc a v] assms Nil
    by (simp add: xsan_list_insert_after_def)
next
  case (Cons x zs')
  obtain q t where x: "x = (q, t)" by (cases x)
  have "tail l \<noteq> Some p"
    using l Cons x by (cases zs' rule: rev_cases) (auto simp: dll_def)
  then have ne: "Some p \<noteq> tail l" by auto
  have at: "nodes l p = Some \<lparr>node_value = u, node_prev = last_of NULL ys, node_next = Some q\<rparr>"
    "nodes l q = Some \<lparr>node_value = t, node_prev = Some p, node_next = first_of zs' NULL\<rparr>"
    "p \<noteq> q" "p \<noteq> a" "q \<noteq> a"
    using l Cons x fresh by (auto simp: dll_def)
  let ?h = "(nodes l)(a \<mapsto> \<lparr>node_value = v, node_prev = Some p, node_next = Some q\<rparr>,
      q \<mapsto> \<lparr>node_value = t, node_prev = Some a, node_next = first_of zs' NULL\<rparr>,
      p \<mapsto> \<lparr>node_value = u, node_prev = last_of NULL ys, node_next = Some a\<rparr>)"
  have "xsan_list_insert_after malloc (Some p) v l =
      Some (Some a, l\<lparr>nodes := ?h, list_size := list_size l + 1\<rparr>)"
    using at m ne by (simp add: xsan_list_insert_after_def node_ops)
  moreover have "dll (l\<lparr>nodes := ?h, list_size := list_size l + 1\<rparr>) (ys @ (p, u) # (a, v) # zs)"
    using l Cons x fresh at(3-) by (simp add: dll_def insert_commute image_Un)
  ultimately show ?thesis by simp
qed

lemma insert_before_dll:
  assumes l: "dll l (ys @ (q, u) # zs)" and m: "malloc (nodes l) = Some a"
    and fresh: "a \<notin> fst ` set (ys @ (q, u) # zs)"
  shows "\<exists>l'. xsan_list_insert_before malloc (Some q) v l = Some (Some a, l') \<and>
    dll l' (ys @ (a, v) # (q, u) # zs) \<and> value_destroy_func l' = value_destroy_func l"
proof (cases ys rule: rev_cases)
  case Nil
  then have "head l = Some q" using l by (simp add: dll_def)
  then show ?thesis
    using prepend_dll [of l "(q, u) # zs" malloc a v] assms Nil
    by (simp add: xsan_list_insert_before_def)
next
  case (snoc ys' x)
  obtain p t where x: "x = (p, t)" by (cases x)
  have "head l \<noteq> Some q"
    using l snoc x by (cases ys') (auto simp: dll_def)
  then have ne: "Some q \<noteq> head l" by auto
  have at: "nodes l p = Some \<lparr>node_value = t, node_prev = last_of NULL ys', node_next = Some q\<rparr>"
    "nodes l q = Some \<lparr>node_value = u, node_prev = Some p, node_next = first_of zs NULL\<rparr>"
    "p \<noteq> q" "p \<noteq> a" "q \<noteq> a"
    using l snoc x fresh by (auto simp: dll_def)
  let ?h = "(nodes l)(a \<mapsto> \<lparr>node_value = v, node_prev = Some p, node_next = Some q\<rparr>,
      p \<mapsto> \<lparr>node_value = t, node_prev = last_of NULL ys', node_next = Some a\<rparr>,
      q \<mapsto> \<lparr>node_value = u, node_prev = Some a, node_next = first_of zs NULL\<rparr>)"
  have "xsan_list_insert_before malloc (Some q) v l =
      Some (Some a, l\<lparr>nodes := ?h, list_size := list_size l + 1\<rparr>)"
    using at m ne by (simp add: xsan_list_insert_before_def node_ops)
  moreover have "dll (l\<lparr>nodes := ?h, list_size := list_size l + 1\<rparr>) (ys @ (a, v) # (q, u) # zs)"
    using l snoc x fresh at(3-) by (simp add: dll_def insert_commute image_Un)
  ultimately show ?thesis by simp
qed

lemma remove_node_dll:
  assumes l: "dll l (ys @ (a, w) # zs)"
  shows "\<exists>l'. xsan_list_remove_node (Some a) l =
      Some (XSAN_OK, (case w of Some v \<Rightarrow> if value_destroy_func l then [v] else [] | NULL \<Rightarrow> []), l') \<and>
    dll l' (ys @ zs) \<and> value_destroy_func l' = value_destroy_func l"
proof (cases ys rule: rev_cases)
  case Nil
  show ?thesis
  proof (cases zs)
    case zs: Nil
    with Nil l show ?thesis by (auto simp: xsan_list_remove_node_def node_ops dll_def Let_def free_last
        cong: option.case_cong)
  next
    case (Cons x zs')
    obtain q t where "x = (q, t)" by (cases x)
    moreover have "tail l \<noteq> Some a"
      using l Nil Cons calculation by (cases zs' rule: rev_cases) (auto simp: dll_def)
    ultimately show ?thesis
      using Nil Cons l by (auto simp: xsan_list_remove_node_def node_ops dll_def Let_def free_last
        cong: option.case_cong)
  qed
next
  case (snoc ys' y)
  obtain p u where y: "y = (p, u)" by (cases y)
  have hd: "head l \<noteq> Some a" using l snoc y by (cases ys') (auto simp: dll_def)
  show ?thesis
  proof (cases zs)
    case Nil
    with hd snoc y l show ?thesis by (auto simp: xsan_list_remove_node_def node_ops dll_def Let_def free_last
        cong: option.case_cong)
  next
    case (Cons x zs')
    obtain q t where "x = (q, t)" by (cases x)
    moreover have "tail l \<noteq> Some a"
      using l snoc y Cons calculation by (cases zs' rule: rev_cases) (auto simp: dll_def)
    ultimately show ?thesis
      using hd snoc y Cons l by (auto simp: xsan_list_remove_node_def node_ops dll_def Let_def free_last
        cong: option.case_cong)
  qed
qed

lemma pop_front_dll:
  assumes "dll l ((a, v) # xs)"
  shows "\<exists>l'. xsan_list_pop_front l = Some (v, l') \<and> dll l' xs \<and>
    value_destroy_func l' = value_destroy_func l"
proof (cases xs)
  case Nil
  with assms show ?thesis by (auto simp: xsan_list_pop_front_def node_ops dll_def Let_def free_last
        cong: option.case_cong)
next
  case (Cons x ys)
  obtain q t where "x = (q, t)" by (cases x)
  with Cons assms show ?thesis by (auto simp: xsan_list_pop_front_def node_ops dll_def Let_def free_last
        cong: option.case_cong)
qed

lemma pop_back_dll:
  assumes "dll l (xs @ [(a, v)])"
  shows "\<exists>l'. xsan_list_pop_back l = Some (v, l') \<and> dll l' xs \<and>
    value_destroy_func l' = value_destroy_func l"
proof (cases xs rule: rev_cases)
  case Nil
  with assms show ?thesis by (auto simp: xsan_list_pop_back_def node_ops dll_def Let_def free_last
        cong: option.case_cong)
next
  case (snoc ys x)
  obtain q t where "x = (q, t)" by (cases x)
  with snoc assms show ?thesis by (auto simp: xsan_list_pop_back_def node_ops dll_def Let_def free_last
        cong: option.case_cong)
qed

lemma pop_empty:
  "dll l [] \<Longrightarrow> xsan_list_pop_front l = Some (NULL, l) \<and> xsan_list_pop_back l = Some (NULL, l)"
  by (simp add: dll_def xsan_list_pop_front_def xsan_list_pop_back_def)

lemma clear_nodes_seg:
  assumes "seg (nodes l) p xs NULL" "distinct (map fst xs)" "length xs \<le> fuel"
  shows "clear_nodes fuel (first_of xs NULL) l =
    Some (if value_destroy_func l then List.map_filter snd xs else [],
          l\<lparr>nodes := (\<lambda>a. if a \<in> fst ` set xs then None else nodes l a)\<rparr>)"
  using assms
proof (induction xs arbitrary: fuel p l)
  case (Cons x xs)
  obtain a v where x: "x = (a, v)" by (cases x)
  obtain n where fuel: "fuel = Suc n" using Cons.prems(3) by (cases fuel) auto
  let ?l = "l\<lparr>nodes := (nodes l)(a := None)\<rparr>"
  have "seg (nodes ?l) (Some a) xs NULL" using Cons.prems x by simp
  then have "clear_nodes n (first_of xs NULL) ?l =
      Some (if value_destroy_func l then List.map_filter snd xs else [],
            l\<lparr>nodes := (\<lambda>b. if b \<in> fst ` set xs then None else ((nodes l)(a := None)) b)\<rparr>)"
    using Cons.IH [OF \<open>seg (nodes ?l) (Some a) xs NULL\<close>, of n] Cons.prems fuel
    by (simp cong: if_cong)
  moreover have "(\<lambda>b. if b \<in> fst ` set xs then None else ((nodes l)(a := None)) b) =
      (\<lambda>b. if b \<in> fst ` set (x # xs) then None else nodes l b)"
    by (auto simp: x fun_eq_iff)
  ultimately show ?case
    using Cons.prems x fuel
    by (auto simp: node_ops List.map_filter_simps split: option.splits)
qed (auto simp: List.map_filter_simps)

lemma clear_dll:
  assumes "dll l xs"
  shows "\<exists>l'. xsan_list_clear l =
      Some (if value_destroy_func l then List.map_filter snd xs else [], l') \<and>
    dll l' [] \<and> value_destroy_func l' = value_destroy_func l"
proof -
  have "clear_nodes (list_size l + 1) (head l) l =
      Some (if value_destroy_func l then List.map_filter snd xs else [],
            l\<lparr>nodes := (\<lambda>a. if a \<in> fst ` set xs then None else nodes l a)\<rparr>)"
    using assms clear_nodes_seg [of l NULL xs "list_size l + 1"] by (simp add: dll_def)
  moreover have "dom (\<lambda>a. if a \<in> fst ` set xs then None else nodes l a) = {}"
    using assms by (auto simp: dll_def dom_def split: if_splits)
  ultimately show ?thesis by (auto simp: xsan_list_clear_def dll_def)
qed

section \<open>Traversal\<close>

text \<open>The loops of the macros \<^verbatim>\<open>XSAN_LIST_FOREACH\<close> and \<^verbatim>\<open>XSAN_LIST_FOREACH_REVERSE\<close>, with the
  number of rounds bounded by \<open>fuel\<close>: the values of the nodes visited, and \<^const>\<open>None\<close> if the
  loop has not ended by then or leaves the heap.\<close>

fun foreach ::
  "('a xsan_list \<Rightarrow> addr ptr \<Rightarrow> addr ptr option) \<Rightarrow> 'a xsan_list \<Rightarrow> nat \<Rightarrow> addr ptr \<Rightarrow> 'a ptr list option"
  where
  "foreach step l fuel NULL = Some []"
| "foreach step l 0 (Some a) = None"
| "foreach step l (Suc fuel) (Some a) = do {
     v \<leftarrow> xsan_list_node_get_value l (Some a);
     nxt \<leftarrow> step l (Some a);
     vs \<leftarrow> foreach step l fuel nxt;
     Some (v # vs)
   }"

lemma node_at:
  assumes "nodes l a = Some n"
  shows "xsan_list_node_next l (Some a) = Some (node_next n)"
    and "xsan_list_node_prev l (Some a) = Some (node_prev n)"
    and "xsan_list_node_get_value l (Some a) = Some (node_value n)"
  using assms
  by (simp_all add: xsan_list_node_next_def xsan_list_node_prev_def xsan_list_node_get_value_def load_def)

lemma foreach_next_seg:
  "seg (nodes l) p xs NULL \<Longrightarrow> length xs \<le> fuel \<Longrightarrow>
     foreach xsan_list_node_next l fuel (first_of xs NULL) = Some (map snd xs)"
proof (induction xs arbitrary: fuel p)
  case (Cons x xs)
  then show ?case
    by (cases x; cases fuel)
      (auto simp: node_at)
qed simp

lemma foreach_prev_seg:
  "seg (nodes l) NULL xs q \<Longrightarrow> length xs \<le> fuel \<Longrightarrow>
     foreach xsan_list_node_prev l fuel (last_of NULL xs) = Some (rev (map snd xs))"
proof (induction xs arbitrary: fuel q rule: rev_induct)
  case (snoc x xs)
  then show ?case
    by (cases x; cases fuel)
      (auto simp: node_at)
qed simp

section \<open>Properties\<close>

text \<open>on a well-formed list, whatever free block \<^verbatim>\<open>malloc\<close> returns, append,
  prepend, insert-after and insert-before at any node touch only nodes of the list, link the new
  node at exactly the place asked for in both directions, and keep the list well formed; when
  memory is exhausted they return a null pointer and change nothing.\<close>

theorem list_insert_spec:
  assumes "\<forall>h a. malloc h = Some a \<longrightarrow> a \<notin> dom h" "dll l (ys @ (p, u) # zs)"
  shows "case malloc (nodes l) of
      NULL \<Rightarrow>
        xsan_list_append malloc v l = Some (NULL, l) \<and>
        xsan_list_prepend malloc v l = Some (NULL, l) \<and>
        xsan_list_insert_after malloc (Some p) v l = Some (NULL, l) \<and>
        xsan_list_insert_before malloc (Some p) v l = Some (NULL, l)
    | Some a \<Rightarrow>
        (\<exists>l'. xsan_list_append malloc v l = Some (Some a, l') \<and>
              dll l' (ys @ (p, u) # zs @ [(a, v)])) \<and>
        (\<exists>l'. xsan_list_prepend malloc v l = Some (Some a, l') \<and>
              dll l' ((a, v) # ys @ (p, u) # zs)) \<and>
        (\<exists>l'. xsan_list_insert_after malloc (Some p) v l = Some (Some a, l') \<and>
              dll l' (ys @ (p, u) # (a, v) # zs)) \<and>
        (\<exists>l'. xsan_list_insert_before malloc (Some p) v l = Some (Some a, l') \<and>
              dll l' (ys @ (a, v) # (p, u) # zs))"
proof (cases "malloc (nodes l)")
  case None
  then show ?thesis
    by (simp add: xsan_list_append_def xsan_list_prepend_def xsan_list_insert_after_def
        xsan_list_insert_before_def create_new_node_def)
next
  case (Some a)
  have "a \<notin> fst ` set (ys @ (p, u) # zs)"
    using dll_fresh [of malloc l "ys @ (p, u) # zs" a] assms Some unfolding malloc_fresh_def by blast
  with Some assms(2) show ?thesis
    using append_dll [of l "ys @ (p, u) # zs" malloc a v] prepend_dll [of l "ys @ (p, u) # zs" malloc a v]
      insert_after_dll [of l ys p u zs malloc a v] insert_before_dll [of l ys p u zs malloc a v]
    by auto
qed

text \<open>A list of the values 7 and 8 at the addresses 1 and 2, and an allocator that finds 5
  free.\<close>

definition sample_list :: "nat xsan_list" where
  "sample_list = \<lparr>nodes = [1 \<mapsto> \<lparr>node_value = Some 7, node_prev = NULL, node_next = Some 2\<rparr>,
       2 \<mapsto> \<lparr>node_value = Some 8, node_prev = Some 1, node_next = NULL\<rparr>],
     head = Some 1, tail = Some 2, list_size = 2, value_destroy_func = True\<rparr>"

definition sample_malloc :: "nat heap \<Rightarrow> addr ptr" where
  "sample_malloc h = (if h 5 = None then Some 5 else NULL)"

lemma sample_list_dll: "dll sample_list [(1, Some 7), (2, Some 8)]"
  by (auto simp: sample_list_def dll_def)

theorem list_insert_spec_witness:
  "\<exists>l'. xsan_list_insert_after sample_malloc (Some 1) (Some 9) sample_list = Some (Some 5, l') \<and>
    dll l' [(1, Some 7), (5, Some 9), (2, Some 8)]"
proof -
  have "\<forall>h a. sample_malloc h = Some a \<longrightarrow> a \<notin> dom h"
    by (auto simp: sample_malloc_def split: if_splits)
  moreover have "sample_malloc (nodes sample_list) = Some 5"
    by (simp add: sample_malloc_def sample_list_def)
  ultimately show ?thesis
    using list_insert_spec [of sample_malloc sample_list "[]" 1 "Some 7" "[(2, Some 8)]" "Some 9"]
      sample_list_dll by auto
qed

text \<open>C26: on a well-formed list, removing any node, or popping the first or the last,
  unlinks that node and no other, frees it, and keeps the list well formed with a correct size;
  a removal runs the destructor once on the value if there is one, a pop returns the value and
  leaves it to the caller.\<close>

theorem list_remove_spec:
  assumes "dll l (ys @ (a, w) # zs)"
  shows "(\<exists>l'. xsan_list_remove_node (Some a) l =
        Some (XSAN_OK, (case w of Some v \<Rightarrow> if value_destroy_func l then [v] else [] | NULL \<Rightarrow> []), l') \<and>
      dll l' (ys @ zs)) \<and>
    (ys = [] \<longrightarrow> (\<exists>l'. xsan_list_pop_front l = Some (w, l') \<and> dll l' zs)) \<and>
    (zs = [] \<longrightarrow> (\<exists>l'. xsan_list_pop_back l = Some (w, l') \<and> dll l' ys))"
  using remove_node_dll [OF assms] pop_front_dll [of l a w zs] pop_back_dll [of l ys a w] assms
  by fastforce

theorem list_remove_spec_witness:
  "\<exists>l'. xsan_list_remove_node (Some 2) sample_list = Some (XSAN_OK, [8], l') \<and> dll l' [(1, Some 7)]"
  using list_remove_spec [of sample_list "[(1, Some 7)]" 2 "Some 8" "[]"] sample_list_dll
  by (simp add: sample_list_def)

text \<open>clearing a well-formed list frees every node, runs the destructor once on
  each value present, in order, and leaves the empty list; destroying the list makes the same
  calls. Both end within the number of nodes.\<close>

theorem list_clear_spec:
  assumes "dll l xs"
  shows "(\<exists>l'. xsan_list_clear l =
        Some (if value_destroy_func l then List.map_filter snd xs else [], l') \<and>
      nodes l' = Map.empty \<and> head l' = NULL \<and> tail l' = NULL \<and> list_size l' = 0) \<and>
    xsan_list_destroy (Some l) = Some (if value_destroy_func l then List.map_filter snd xs else [])"
  using clear_dll [OF assms] by (fastforce simp: xsan_list_destroy_def dll_def)

theorem list_clear_spec_witness:
  "xsan_list_destroy (Some sample_list) = Some [7, 8]"
  using list_clear_spec [OF sample_list_dll] by (simp add: sample_list_def List.map_filter_simps)

text \<open>the forward loop visits the values of a well-formed list in order and ends
  after as many rounds as the list has nodes; the backward loop visits them in reverse; the size
  field counts them.\<close>

theorem list_traversal:
  assumes "dll l xs"
  shows "foreach xsan_list_node_next l (xsan_list_size (Some l)) (xsan_list_get_head (Some l)) =
      Some (map snd xs) \<and>
    foreach xsan_list_node_prev l (xsan_list_size (Some l)) (xsan_list_get_tail (Some l)) =
      Some (rev (map snd xs)) \<and>
    xsan_list_size (Some l) = length xs \<and> (xsan_list_is_empty (Some l) \<longleftrightarrow> xs = [])"
  using assms foreach_next_seg [of l NULL xs "length xs"] foreach_prev_seg [of l xs NULL "length xs"]
  by (auto simp: dll_def xsan_list_size_def xsan_list_get_head_def xsan_list_get_tail_def
      xsan_list_is_empty_def)

theorem list_traversal_witness:
  "foreach xsan_list_node_prev sample_list 2 (Some 2) = Some [Some 8, Some 7]"
  using list_traversal [OF sample_list_dll]
  by (simp add: sample_list_def xsan_list_size_def xsan_list_get_tail_def)

end
