(* ===== verification/Memory.thy ===== *)
theory Memory
  imports DList
begin

text \<open>
  src/utils/memory.c: the memory manager with its statistics, the list of blocks that it keeps in debug mode,
  and the pools of blocks of one size.

  \<^verbatim>\<open>malloc\<close> and \<^verbatim>\<open>realloc\<close> of the C library are parameters: from the blocks that are in use they give the
  address of another one and what it holds, or nothing. In debug mode a block begins with a header of 48
  bytes; a header is known by the address of the data behind it. A mutex that is taken twice is a deadlock.
\<close>

section \<open>State\<close>

record memory_stats =
  total_allocated :: u64
  total_freed :: u64
  current_allocated :: u64
  peak_allocated :: u64
  allocation_count :: u64
  free_count :: u64
  pool_hits :: u64
  pool_misses :: u64

definition zero_stats :: memory_stats where
  "zero_stats = \<lparr>total_allocated = 0, total_freed = 0, current_allocated = 0, peak_allocated = 0,
     allocation_count = 0, free_count = 0, pool_hits = 0, pool_misses = 0\<rparr>"

record memory_block_header =
  hdr_size :: u64
  hdr_magic :: u32
  hdr_next :: "addr ptr"
  hdr_prev :: "addr ptr"

definition XSAN_MEMORY_MAGIC :: u32 where
  "XSAN_MEMORY_MAGIC = 0x58534146"

definition header_size :: nat where
  "header_size = 48"

text \<open>\<open>headers\<close> and \<open>data\<close> are the memory; \<open>oom_calls\<close> are the calls of the callback.\<close>

record memory_mgr =
  mm_initialized :: bool
  debug_enabled :: bool
  mm_stats :: memory_stats
  allocated_blocks :: "addr ptr"
  mm_mutex :: bool
  oom_callback :: bool
  headers :: "addr \<rightharpoonup> memory_block_header"
  data :: "addr \<rightharpoonup> u8 list"
  oom_calls :: "u64 list"

type_synonym libc_malloc = "(addr \<rightharpoonup> u8 list) \<Rightarrow> u64 \<Rightarrow> (addr \<times> u8 list) ptr"
type_synonym libc_realloc = "(addr \<rightharpoonup> u8 list) \<Rightarrow> addr \<Rightarrow> u64 \<Rightarrow> (addr \<times> u8 list) ptr"

definition mm_lock :: "memory_mgr \<Rightarrow> memory_mgr run" where
  "mm_lock g = (if mm_mutex g then Deadlock else Done (g\<lparr>mm_mutex := True\<rparr>))"

definition mm_unlock :: "memory_mgr \<Rightarrow> memory_mgr" where
  "mm_unlock g = g\<lparr>mm_mutex := False\<rparr>"

definition set_hdr_prev :: "addr \<Rightarrow> addr ptr \<Rightarrow> memory_mgr \<Rightarrow> memory_mgr run" where
  "set_hdr_prev a p g =
     (case headers g a of
        None \<Rightarrow> Bad_access
      | Some h \<Rightarrow> Done (g\<lparr>headers := (headers g)(a \<mapsto> h\<lparr>hdr_prev := p\<rparr>)\<rparr>))"

definition set_hdr_next :: "addr \<Rightarrow> addr ptr \<Rightarrow> memory_mgr \<Rightarrow> memory_mgr run" where
  "set_hdr_next a p g =
     (case headers g a of
        None \<Rightarrow> Bad_access
      | Some h \<Rightarrow> Done (g\<lparr>headers := (headers g)(a \<mapsto> h\<lparr>hdr_next := p\<rparr>)\<rparr>))"

text \<open>Writing bytes at the start of a block.\<close>

definition store_bytes :: "addr \<Rightarrow> u8 list \<Rightarrow> memory_mgr \<Rightarrow> memory_mgr run" where
  "store_bytes a bs g =
     (case data g a of
        None \<Rightarrow> Bad_access
      | Some d \<Rightarrow>
          if length d < length bs then Bad_access
          else Done (g\<lparr>data := (data g)(a \<mapsto> bs @ drop (length bs) d)\<rparr>))"

definition libc_free :: "addr \<Rightarrow> memory_mgr \<Rightarrow> memory_mgr run" where
  "libc_free a g = (case data g a of None \<Rightarrow> Bad_access | Some _ \<Rightarrow> Done (g\<lparr>data := (data g)(a := None)\<rparr>))"

section \<open>Start and end\<close>

definition xsan_memory_init :: "memory_mgr \<Rightarrow> bool \<Rightarrow> (memory_mgr \<times> xsan_error) run" where
  "xsan_memory_init g enable_debug =
     bind_run (mm_lock g) (\<lambda>g.
       if mm_initialized g then Done (mm_unlock g, XSAN_OK)
       else Done (mm_unlock (g\<lparr>debug_enabled := enable_debug, allocated_blocks := NULL, mm_stats := zero_stats,
                               mm_initialized := True\<rparr>), XSAN_OK))"

text \<open>The loop over the headers; it ends, with whether it has found a leak, if the list does.\<close>

partial_function (option) leaks_loop :: "(addr \<rightharpoonup> memory_block_header) \<Rightarrow> addr ptr \<Rightarrow> bool \<Rightarrow> bool run option" where
  "leaks_loop hs p has_leaks =
     (case p of
        NULL \<Rightarrow> Some (Done has_leaks)
      | Some a \<Rightarrow>
          (case hs a of
             None \<Rightarrow> Some Bad_access
           | Some h \<Rightarrow> leaks_loop hs (hdr_next h) (has_leaks \<or> hdr_magic h = XSAN_MEMORY_MAGIC)))"

definition xsan_memory_check_leaks :: "memory_mgr \<Rightarrow> bool run option" where
  "xsan_memory_check_leaks g =
     (if \<not> debug_enabled g then Some (Done False)
      else if mm_mutex g then Some Deadlock
      else leaks_loop (headers g) (allocated_blocks g) False)"

definition xsan_memory_cleanup :: "memory_mgr \<Rightarrow> memory_mgr run option" where
  "xsan_memory_cleanup g =
     (case mm_lock g of
        Done g \<Rightarrow>
          if \<not> mm_initialized g then Some (Done (mm_unlock g))
          else
            (case (if debug_enabled g \<and> allocated_blocks g \<noteq> NULL
                   then xsan_memory_check_leaks g else Some (Done False)) of
               None \<Rightarrow> None
             | Some r \<Rightarrow> Some (bind_run r (\<lambda>_. Done (mm_unlock (g\<lparr>mm_initialized := False\<rparr>)))))
      | Deadlock \<Rightarrow> Some Deadlock
      | Bad_access \<Rightarrow> Some Bad_access)"

section \<open>Allocation\<close>

definition oom :: "u64 \<Rightarrow> memory_mgr \<Rightarrow> memory_mgr" where
  "oom n g = (if oom_callback g then g\<lparr>oom_calls := oom_calls g @ [n]\<rparr> else g)"

definition count_allocation :: "u64 \<Rightarrow> memory_mgr \<Rightarrow> memory_mgr" where
  "count_allocation n g =
     (let s = mm_stats g; cur = current_allocated s + n in
      g\<lparr>mm_stats := s\<lparr>total_allocated := total_allocated s + n, current_allocated := cur,
          peak_allocated := (if cur > peak_allocated s then cur else peak_allocated s),
          allocation_count := allocation_count s + 1\<rparr>\<rparr>)"

text \<open>The header is written at the start of the block, which is shorter than the header if the sum of the sizes
  has wrapped.\<close>

definition link_block :: "addr \<Rightarrow> u8 list \<Rightarrow> u64 \<Rightarrow> memory_mgr \<Rightarrow> memory_mgr run" where
  "link_block a bs n g =
     (if length bs < header_size then Bad_access
      else
        bind_run
          (case allocated_blocks g of
             NULL \<Rightarrow> Done g
           | Some h \<Rightarrow> set_hdr_prev h (Some a) g)
          (\<lambda>g'. Done (count_allocation n
             (g'\<lparr>headers := (headers g')(a \<mapsto> \<lparr>hdr_size = n, hdr_magic = XSAN_MEMORY_MAGIC,
                                             hdr_next = allocated_blocks g, hdr_prev = NULL\<rparr>),
                 data := (data g')(a \<mapsto> drop header_size bs), allocated_blocks := Some a\<rparr>))))"

definition xsan_malloc :: "libc_malloc \<Rightarrow> memory_mgr \<Rightarrow> u64 \<Rightarrow> (memory_mgr \<times> addr ptr) run" where
  "xsan_malloc L g n =
     (if n = 0 then Done (g, NULL)
      else
        bind_run (mm_lock g) (\<lambda>g.
          if \<not> mm_initialized g then
            (case L (data g) n of
               NULL \<Rightarrow> Done (mm_unlock g, NULL)
             | Some (a, bs) \<Rightarrow> Done (mm_unlock (g\<lparr>data := (data g)(a \<mapsto> bs)\<rparr>), Some a))
          else if debug_enabled g then
            (case L (data g) (of_nat header_size + n) of
               NULL \<Rightarrow> Done (mm_unlock (oom n g), NULL)
             | Some (a, bs) \<Rightarrow> bind_run (link_block a bs n g) (\<lambda>g. Done (mm_unlock g, Some a)))
          else
            (case L (data g) n of
               NULL \<Rightarrow> Done (mm_unlock (oom n g), NULL)
             | Some (a, bs) \<Rightarrow>
                 Done (mm_unlock (count_allocation n (g\<lparr>data := (data g)(a \<mapsto> bs)\<rparr>)), Some a))))"

definition xsan_calloc :: "libc_malloc \<Rightarrow> memory_mgr \<Rightarrow> u64 \<Rightarrow> u64 \<Rightarrow> (memory_mgr \<times> addr ptr) run" where
  "xsan_calloc L g nmemb n =
     (let total_size = nmemb * n in
      if nmemb \<noteq> 0 \<and> total_size div nmemb \<noteq> n then Done (g, NULL)
      else
        bind_run (xsan_malloc L g total_size) (\<lambda>(g, p).
          case p of
            NULL \<Rightarrow> Done (g, NULL)
          | Some a \<Rightarrow> bind_run (store_bytes a (replicate (unat total_size) 0) g) (\<lambda>g. Done (g, Some a))))"

text \<open>Taking a block out of the list.\<close>

definition unlink_block :: "addr \<Rightarrow> memory_block_header \<Rightarrow> memory_mgr \<Rightarrow> memory_mgr run" where
  "unlink_block a h g =
     bind_run
       (case hdr_prev h of
          Some p \<Rightarrow> set_hdr_next p (hdr_next h) g
        | NULL \<Rightarrow> Done (g\<lparr>allocated_blocks := hdr_next h\<rparr>))
       (\<lambda>g. case hdr_next h of Some q \<Rightarrow> set_hdr_prev q (hdr_prev h) g | NULL \<Rightarrow> Done g)"

definition count_release :: "u64 \<Rightarrow> memory_mgr \<Rightarrow> memory_mgr" where
  "count_release n g =
     (let s = mm_stats g in
      g\<lparr>mm_stats := s\<lparr>total_freed := total_freed s + n, current_allocated := current_allocated s - n,
          free_count := free_count s + 1\<rparr>\<rparr>)"

definition xsan_free :: "memory_mgr \<Rightarrow> addr ptr \<Rightarrow> memory_mgr run" where
  "xsan_free g p =
     (case p of
        NULL \<Rightarrow> Done g
      | Some a \<Rightarrow>
          bind_run (mm_lock g) (\<lambda>g.
            if \<not> mm_initialized g then libc_free a (mm_unlock g)
            else if debug_enabled g then
              (case headers g a of
                 None \<Rightarrow> Bad_access
               | Some h \<Rightarrow>
                   if hdr_magic h \<noteq> XSAN_MEMORY_MAGIC then Done (mm_unlock g)
                   else
                     bind_run (unlink_block a h g) (\<lambda>g.
                     bind_run (libc_free a (count_release (hdr_size h) g)) (\<lambda>g.
                       Done (mm_unlock (g\<lparr>headers := (headers g)(a := None)\<rparr>)))))
            else
              bind_run (libc_free a g) (\<lambda>g.
                Done (mm_unlock (g\<lparr>mm_stats := (mm_stats g)\<lparr>free_count := free_count (mm_stats g) + 1\<rparr>\<rparr>)))))"

definition xsan_safe_free :: "memory_mgr \<Rightarrow> addr ptr ptr \<Rightarrow> (memory_mgr \<times> addr ptr ptr) run" where
  "xsan_safe_free g pp =
     (case pp of
        Some (Some a) \<Rightarrow> bind_run (xsan_free g (Some a)) (\<lambda>g. Done (g, Some NULL))
      | _ \<Rightarrow> Done (g, pp))"

text \<open>In debug mode the functions that take the mutex are called while it is held.\<close>

definition xsan_realloc ::
  "libc_malloc \<Rightarrow> libc_realloc \<Rightarrow> memory_mgr \<Rightarrow> addr ptr \<Rightarrow> u64 \<Rightarrow> (memory_mgr \<times> addr ptr) run" where
  "xsan_realloc L R g p n =
     (case p of
        NULL \<Rightarrow> xsan_malloc L g n
      | Some a \<Rightarrow>
          if n = 0 then bind_run (xsan_free g p) (\<lambda>g. Done (g, NULL))
          else
            bind_run (mm_lock g) (\<lambda>g.
              let libc = (case R (data g) a n of
                            NULL \<Rightarrow> (g, NULL)
                          | Some (b, bs) \<Rightarrow> (g\<lparr>data := (data g)(a := None, b \<mapsto> bs)\<rparr>, Some b)) in
              if \<not> mm_initialized g then Done (mm_unlock (fst libc), snd libc)
              else if debug_enabled g then
                (case headers g a of
                   None \<Rightarrow> Bad_access
                 | Some h \<Rightarrow>
                     if hdr_magic h \<noteq> XSAN_MEMORY_MAGIC then Done (mm_unlock g, NULL)
                     else
                       bind_run (xsan_malloc L g n) (\<lambda>(g, q).
                         case (q, data g a) of
                           (NULL, _) \<Rightarrow> Done (mm_unlock g, NULL)
                         | (Some b, None) \<Rightarrow> Bad_access
                         | (Some b, Some d) \<Rightarrow>
                             bind_run (store_bytes b (take (unat (if hdr_size h < n then hdr_size h else n)) d) g) (\<lambda>g.
                             bind_run (xsan_free g p) (\<lambda>g. Done (mm_unlock g, q)))))
              else
                (case libc of
                   (g, NULL) \<Rightarrow> Done (mm_unlock g, NULL)
                 | (g, Some b) \<Rightarrow>
                     Done (mm_unlock (g\<lparr>mm_stats := (mm_stats g)\<lparr>allocation_count := allocation_count (mm_stats g) + 1\<rparr>\<rparr>),
                           Some b))))"

section \<open>Strings\<close>

definition c_bytes :: "string \<Rightarrow> u8 list" where
  "c_bytes s = map of_char s @ [0]"

definition xsan_strdup :: "libc_malloc \<Rightarrow> memory_mgr \<Rightarrow> string ptr \<Rightarrow> (memory_mgr \<times> addr ptr) run" where
  "xsan_strdup L g str =
     (case str of
        NULL \<Rightarrow> Done (g, NULL)
      | Some s \<Rightarrow>
          bind_run (xsan_malloc L g (of_nat (length s + 1))) (\<lambda>(g, p).
            case p of
              NULL \<Rightarrow> Done (g, NULL)
            | Some a \<Rightarrow> bind_run (store_bytes a (c_bytes s) g) (\<lambda>g. Done (g, Some a))))"

definition xsan_strndup :: "libc_malloc \<Rightarrow> memory_mgr \<Rightarrow> string ptr \<Rightarrow> u64 \<Rightarrow> (memory_mgr \<times> addr ptr) run" where
  "xsan_strndup L g str n =
     (case str of
        NULL \<Rightarrow> Done (g, NULL)
      | Some s \<Rightarrow>
          (let len = min (length s) (unat n) in
           bind_run (xsan_malloc L g (of_nat len + 1)) (\<lambda>(g, p).
             case p of
               NULL \<Rightarrow> Done (g, NULL)
             | Some a \<Rightarrow> bind_run (store_bytes a (c_bytes (take len s)) g) (\<lambda>g. Done (g, Some a)))))"

section \<open>Statistics\<close>

definition xsan_memory_get_stats :: "memory_mgr \<Rightarrow> bool \<Rightarrow> (xsan_error \<times> memory_stats ptr) run" where
  "xsan_memory_get_stats g has_out =
     (if \<not> has_out then Done (XSAN_ERROR_INVALID_PARAM, NULL)
      else bind_run (mm_lock g) (\<lambda>g. Done (XSAN_OK, Some (mm_stats g))))"

definition xsan_memory_set_oom_callback :: "memory_mgr \<Rightarrow> bool \<Rightarrow> memory_mgr run" where
  "xsan_memory_set_oom_callback g callback =
     bind_run (mm_lock g) (\<lambda>g. Done (mm_unlock (g\<lparr>oom_callback := callback\<rparr>)))"

section \<open>The list of blocks\<close>

definition libc_ok :: "libc_malloc \<Rightarrow> bool" where
  "libc_ok L \<longleftrightarrow> (\<forall>h n a bs. L h n = Some (a, bs) \<longrightarrow> a \<notin> dom h \<and> length bs = unat n)"

lemma libc_law: "libc_ok L \<Longrightarrow> L h n = Some (a, bs) \<Longrightarrow> h a = None \<and> length bs = unat n"
  by (auto simp: libc_ok_def)

text \<open>The headers of the blocks of a list, linked in its order.\<close>

fun hseg :: "(addr \<rightharpoonup> memory_block_header) \<Rightarrow> addr ptr \<Rightarrow> (addr \<times> u64) list \<Rightarrow> addr ptr \<Rightarrow> bool" where
  "hseg hs p [] q = True"
| "hseg hs p ((a, n) # xs) q =
     (hs a = Some \<lparr>hdr_size = n, hdr_magic = XSAN_MEMORY_MAGIC, hdr_next = first_of xs q, hdr_prev = p\<rparr> \<and>
      hseg hs (Some a) xs q)"

lemma hseg_append [simp]:
  "hseg hs p (xs @ ys) q \<longleftrightarrow> hseg hs p xs (first_of ys q) \<and> hseg hs (last_of p xs) ys q"
  by (induction xs arbitrary: p) auto

lemma hseg_frame [simp]: "a \<notin> fst ` set xs \<Longrightarrow> hseg (hs(a := h)) p xs q = hseg hs p xs q"
  by (induction xs arbitrary: p) auto

fun sized :: "(addr \<rightharpoonup> u8 list) \<Rightarrow> (addr \<times> u64) list \<Rightarrow> bool" where
  "sized dm [] = True"
| "sized dm ((a, n) # xs) = ((case dm a of None \<Rightarrow> False | Some d \<Rightarrow> length d = unat n) \<and> sized dm xs)"

lemma sized_append [simp]: "sized dm (xs @ ys) \<longleftrightarrow> sized dm xs \<and> sized dm ys"
  by (induction dm xs rule: sized.induct) auto

lemma sized_frame [simp]: "a \<notin> fst ` set xs \<Longrightarrow> sized (dm(a := d)) xs = sized dm xs"
  by (induction dm xs rule: sized.induct) auto

lemma sized_block: "sized dm xs \<Longrightarrow> (a, n) \<in> set xs \<Longrightarrow> \<exists>d. dm a = Some d \<and> length d = unat n"
  by (induction dm xs rule: sized.induct) (auto split: option.splits)

definition tracked :: "memory_mgr \<Rightarrow> (addr \<times> u64) list \<Rightarrow> bool" where
  "tracked g live \<longleftrightarrow> mm_initialized g \<and> debug_enabled g \<and> \<not> mm_mutex g \<and>
     hseg (headers g) NULL live NULL \<and> distinct (map fst live) \<and> dom (headers g) = fst ` set live \<and>
     allocated_blocks g = first_of live NULL \<and>
     sized (data g) live \<and>
     current_allocated (mm_stats g) = sum_list (map snd live) \<and>
     total_allocated (mm_stats g) = total_freed (mm_stats g) + current_allocated (mm_stats g) \<and>
     allocation_count (mm_stats g) = free_count (mm_stats g) + of_nat (length live)"

lemma malloc_tracked:
  assumes L: "libc_ok L" and g: "tracked g live" and n: "unat n + header_size < 2 ^ 64"
  shows "\<exists>g' p. xsan_malloc L g n = Done (g', p) \<and>
    (p = NULL \<and> tracked g' live \<or> (\<exists>a. p = Some a \<and> n \<noteq> 0 \<and> data g a = None \<and> tracked g' ((a, n) # live)))"
proof (cases "n = 0")
  case True
  then show ?thesis using g by (simp add: xsan_malloc_def)
next
  case False
  have sz: "unat (of_nat header_size + n) = header_size + unat n"
    using n by (simp add: header_size_def unat_word_ariths)
  show ?thesis
  proof (cases "L (data g) (of_nat header_size + n)")
    case None
    then show ?thesis using False g
      by (auto simp: xsan_malloc_def mm_lock_def mm_unlock_def oom_def tracked_def)
  next
    case (Some r)
    obtain a bs where r: "r = (a, bs)" by (cases r)
    have bs: "data g a = None" "length bs = header_size + unat n" using libc_law [OF L Some [unfolded r]] sz by auto
    have a: "a \<notin> fst ` set live" using g bs(1) sized_block [of "data g" live a] by (auto simp: tracked_def)
    show ?thesis
    proof (cases live)
      case Nil
      then show ?thesis using False Some r g bs
        by (auto simp: xsan_malloc_def mm_lock_def mm_unlock_def link_block_def count_allocation_def tracked_def Let_def)
    next
      case (Cons x ys)
      obtain b k where x: "x = (b, k)" by (cases x)
      show ?thesis using False Some r g bs a Cons x
        by (auto simp: xsan_malloc_def mm_lock_def mm_unlock_def link_block_def count_allocation_def tracked_def
            set_hdr_prev_def Let_def)
    qed
  qed
qed

lemmas free_defs = xsan_free_def mm_lock_def mm_unlock_def unlink_block_def set_hdr_next_def set_hdr_prev_def
  libc_free_def count_release_def Let_def

lemma free_tracked:
  assumes g: "tracked g live" and a: "(a, n) \<in> set live"
  shows "\<exists>g'. xsan_free g (Some a) = Done g' \<and> tracked g' (filter (\<lambda>x. fst x \<noteq> a) live)"
proof -
  obtain xs ys where live: "live = xs @ (a, n) # ys" using a by (meson split_list)
  have d: "a \<notin> fst ` set xs" "a \<notin> fst ` set ys" "fst ` set xs \<inter> fst ` set ys = {}" "distinct (map fst xs)" "distinct (map fst ys)"
    using g live by (auto simp: tracked_def)
  have keep: "a \<notin> fst ` set zs \<Longrightarrow> filter (\<lambda>x. fst x \<noteq> a) zs = zs" for zs :: "(addr \<times> u64) list"
    by (induction zs) auto
  then have rest: "filter (\<lambda>x. fst x \<noteq> a) live = xs @ ys" using live d(1,2) by simp
  obtain dt where da: "data g a = Some dt" using g a sized_block by (fastforce simp: tracked_def)
  have dom: "dom (headers g) = insert a (fst ` set xs \<union> fst ` set ys)" using g live by (auto simp: tracked_def)
  show ?thesis unfolding rest
  proof (cases xs rule: rev_cases)
    case Nil
    show "\<exists>g'. xsan_free g (Some a) = Done g' \<and> tracked g' (xs @ ys)"
    proof (cases ys)
      case (Cons y zs)
      obtain b k where "y = (b, k)" by (cases y)
      with Cons Nil g d da live show ?thesis
        by (auto simp: tracked_def free_defs)
    qed (use Nil g d da live in \<open>auto simp: tracked_def free_defs free_last\<close>)
  next
    case (snoc ws x)
    obtain c j where x: "x = (c, j)" by (cases x)
    show "\<exists>g'. xsan_free g (Some a) = Done g' \<and> tracked g' (xs @ ys)"
    proof (cases ys)
      case (Cons y zs)
      obtain b k where "y = (b, k)" by (cases y)
      with Cons snoc x g d da live show ?thesis
        by (auto simp: tracked_def free_defs)
    qed (use snoc x g d da live in \<open>auto simp: tracked_def free_defs\<close>)
  qed
qed

lemma store_tracked:
  assumes "tracked g live" "(a, n) \<in> set live" "length bs \<le> unat n"
  shows "\<exists>g'. store_bytes a bs g = Done g' \<and> tracked g' live \<and> take (length bs) (the (data g' a)) = bs"
proof -
  obtain d where d: "data g a = Some d" "length d = unat n" using assms sized_block by (fastforce simp: tracked_def)
  have "sized (data g) xs \<Longrightarrow> length bs \<le> length d \<Longrightarrow> sized ((data g)(a \<mapsto> bs @ drop (length bs) d)) xs" for xs
    using d(1) by (induction "data g" xs rule: sized.induct) (auto split: if_splits option.splits)
  with assms d show ?thesis by (auto simp: store_bytes_def tracked_def)
qed

lemma leaks_loop_hseg:
  "hseg hs p xs NULL \<Longrightarrow> leaks_loop hs (first_of xs NULL) b = Some (Done (b \<or> xs \<noteq> []))"
proof (induction xs arbitrary: p b)
  case (Cons x xs)
  obtain a n where "x = (a, n)" by (cases x)
  with Cons show ?case by (subst leaks_loop.simps) auto
qed (simp add: leaks_loop.simps)

section \<open>Runs in debug mode\<close>

text \<open>A multiplication that wraps is noticed.\<close>

lemma calloc_overflow:
  "(nmemb :: u64) \<noteq> 0 \<Longrightarrow> nmemb * n div nmemb = n \<longleftrightarrow> unat nmemb * unat n < 2 ^ 64"
proof
  assume nz: "nmemb \<noteq> 0" and eq: "nmemb * n div nmemb = n"
  have "unat nmemb * unat n = unat nmemb * (unat (nmemb * n) div unat nmemb)" using eq by (metis unat_div)
  also have "\<dots> \<le> unat (nmemb * n)" by simp
  also have "\<dots> < 2 ^ 64" using unsigned_less [of "nmemb * n", where 'a = nat] by simp
  finally show "unat nmemb * unat n < 2 ^ 64" .
next
  assume nz: "nmemb \<noteq> 0" and "unat nmemb * unat n < 2 ^ 64"
  then have "unat (nmemb * n div nmemb) = unat n" by (simp add: unat_div unat_mult_small unat_eq_0)
  then show "nmemb * n div nmemb = n" by (simp add: word_unat_eq_iff)
qed

text \<open>The states that are reached from the start of the manager in debug mode, with the blocks that were
  handed out and not given back, the newest first.\<close>

fun handed :: "addr ptr \<Rightarrow> u64 \<Rightarrow> (addr \<times> u64) list \<Rightarrow> (addr \<times> u64) list" where
  "handed NULL n live = live"
| "handed (Some a) n live = (a, n) # live"

inductive mem_reach :: "libc_malloc \<Rightarrow> memory_mgr \<Rightarrow> (addr \<times> u64) list \<Rightarrow> bool" for L where
  Init: "\<not> mm_initialized g \<Longrightarrow> headers g = Map.empty \<Longrightarrow> xsan_memory_init g True = Done (g', e) \<Longrightarrow> mem_reach L g' []"
| Malloc: "mem_reach L g live \<Longrightarrow> unat n + header_size < 2 ^ 64 \<Longrightarrow> xsan_malloc L g n = Done (g', p) \<Longrightarrow>
    mem_reach L g' (handed p (n) live)"
| Calloc: "mem_reach L g live \<Longrightarrow> unat nmemb * unat n + header_size < 2 ^ 64 \<Longrightarrow> xsan_calloc L g nmemb n = Done (g', p) \<Longrightarrow>
    mem_reach L g' (handed p (nmemb * n) live)"
| Strdup: "mem_reach L g live \<Longrightarrow> length s + 1 + header_size < 2 ^ 64 \<Longrightarrow> xsan_strdup L g (Some s) = Done (g', p) \<Longrightarrow>
    mem_reach L g' (handed p (of_nat (length s + 1)) live)"
| Free: "mem_reach L g live \<Longrightarrow> (a, n) \<in> set live \<Longrightarrow> xsan_free g (Some a) = Done g' \<Longrightarrow>
    mem_reach L g' (filter (\<lambda>x. fst x \<noteq> a) live)"

lemma filled_tracked:
  assumes L: "libc_ok L" and g: "tracked g live" and n: "unat n + header_size < 2 ^ 64" and bs: "length bs \<le> unat n"
  shows "\<exists>g' p. bind_run (xsan_malloc L g n) (\<lambda>(g, p).
        case p of NULL \<Rightarrow> Done (g, NULL) | Some a \<Rightarrow> bind_run (store_bytes a bs g) (\<lambda>g. Done (g, Some a))) = Done (g', p) \<and>
      (p = NULL \<and> tracked g' live \<or>
       (\<exists>a. p = Some a \<and> data g a = None \<and> tracked g' ((a, n) # live) \<and> take (length bs) (the (data g' a)) = bs))"
proof -
  obtain h p where m: "xsan_malloc L g n = Done (h, p)"
    "p = NULL \<and> tracked h live \<or> (\<exists>a. p = Some a \<and> n \<noteq> 0 \<and> data g a = None \<and> tracked h ((a, n) # live))"
    using malloc_tracked [OF L g n] by blast
  from m(2) show ?thesis
  proof (elim disjE exE conjE)
    fix a
    assume a: "p = Some a" "data g a = None" "tracked h ((a, n) # live)"
    then obtain g' where "store_bytes a bs h = Done g'" "tracked g' ((a, n) # live)" "take (length bs) (the (data g' a)) = bs"
      using store_tracked [OF a(3), of a n bs] bs by auto
    with m(1) a show ?thesis by auto
  qed (use m(1) in auto)
qed

lemma calloc_tracked:
  assumes L: "libc_ok L" and g: "tracked g live" and n: "unat nmemb * unat n + header_size < 2 ^ 64"
  shows "\<exists>g' p. xsan_calloc L g nmemb n = Done (g', p) \<and>
      (p = NULL \<and> tracked g' live \<or>
       (\<exists>a. p = Some a \<and> data g a = None \<and> tracked g' ((a, nmemb * n) # live) \<and>
           data g' a = Some (replicate (unat nmemb * unat n) 0)))"
proof -
  have u: "unat (nmemb * n) = unat nmemb * unat n" using n by (intro unat_mult_small) simp
  have "\<not> (nmemb \<noteq> 0 \<and> nmemb * n div nmemb \<noteq> n)" using n calloc_overflow [of nmemb n] by auto
  then obtain g' p where c: "xsan_calloc L g nmemb n = Done (g', p)"
    "p = NULL \<and> tracked g' live \<or> (\<exists>a. p = Some a \<and> data g a = None \<and> tracked g' ((a, nmemb * n) # live) \<and>
       take (unat nmemb * unat n) (the (data g' a)) = replicate (unat nmemb * unat n) 0)"
    using filled_tracked [OF L g, of "nmemb * n" "replicate (unat nmemb * unat n) 0"] n u
    by (auto simp: xsan_calloc_def Let_def)
  moreover have "data g' a = Some (replicate (unat nmemb * unat n) 0)"
    if "tracked g' ((a, nmemb * n) # live)"
      "take (unat nmemb * unat n) (the (data g' a)) = replicate (unat nmemb * unat n) 0" for a
    using that u sized_block [of "data g'" "(a, nmemb * n) # live" a "nmemb * n"] by (auto simp: tracked_def)
  ultimately show ?thesis by blast
qed

lemma strdup_tracked:
  assumes L: "libc_ok L" and g: "tracked g live" and n: "length s + 1 + header_size < 2 ^ 64"
  shows "\<exists>g' p. xsan_strdup L g (Some s) = Done (g', p) \<and>
      (p = NULL \<and> tracked g' live \<or>
       (\<exists>a. p = Some a \<and> data g a = None \<and> tracked g' ((a, of_nat (length s + 1)) # live) \<and> data g' a = Some (c_bytes s)))"
proof -
  define k where "k = length s + 1"
  have u: "unat (of_nat k :: u64) = k" using n by (simp add: k_def unat_of_nat header_size_def del: of_nat_Suc of_nat_add)
  have b: "length (c_bytes s) = k" by (simp add: c_bytes_def k_def)
  have eq: "xsan_strdup L g (Some s) = bind_run (xsan_malloc L g (of_nat k)) (\<lambda>(g, p).
      case p of NULL \<Rightarrow> Done (g, NULL) | Some a \<Rightarrow> bind_run (store_bytes a (c_bytes s) g) (\<lambda>g. Done (g, Some a)))"
    by (simp add: xsan_strdup_def k_def)
  obtain g' p where c: "xsan_strdup L g (Some s) = Done (g', p)"
    "p = NULL \<and> tracked g' live \<or> (\<exists>a. p = Some a \<and> data g a = None \<and> tracked g' ((a, of_nat k) # live) \<and>
       take k (the (data g' a)) = c_bytes s)"
    using filled_tracked [OF L g, of "of_nat k" "c_bytes s", unfolded u b, OF n [folded k_def] order.refl]
    unfolding eq [symmetric] by (elim exE conjE)
  moreover have "data g' a = Some (c_bytes s)"
    if "tracked g' ((a, of_nat k) # live)" "take k (the (data g' a)) = c_bytes s" for a
    using that u sized_block [of "data g'" "(a, of_nat k) # live" a "of_nat k"] by (auto simp: tracked_def)
  ultimately show ?thesis unfolding k_def [symmetric] by blast
qed

lemma mem_reach_tracked:
  assumes "mem_reach L g live" and L: "libc_ok L"
  shows "tracked g live"
  using assms(1)
proof (induction rule: mem_reach.induct)
  case (Init g g' e)
  then show ?case
    by (auto simp: xsan_memory_init_def mm_lock_def mm_unlock_def tracked_def zero_stats_def split: if_splits)
next
  case (Malloc g live n g' p)
  then show ?case using malloc_tracked [OF L Malloc.IH Malloc.hyps(2)] by (cases p) auto
next
  case (Calloc g live nmemb n g' p)
  then show ?case using calloc_tracked [OF L Calloc.IH Calloc.hyps(2)] by (cases p) auto
next
  case (Strdup g live s g' p)
  then show ?case using strdup_tracked [OF L Strdup.IH Strdup.hyps(2)] by (cases p) auto
next
  case (Free g live a n g')
  then show ?case using free_tracked [OF Free.IH Free.hyps(2)] by auto
qed

text \<open>C9: In debug mode the memory manager knows exactly the blocks that are in use. After any run of allocations,
  zeroed allocations, string copies and releases, the statistics are those of the blocks in use, the check
  for leaks ends and reports a leak exactly if there is a block in use, every block has its requested size and
  blocks have different addresses; the next allocation and the release of any block in use run to their end,
  without a deadlock and without touching memory that is not theirs.\<close>

theorem memory_tracking:
  assumes "mem_reach L g live" and "libc_ok L"
  shows "distinct (map fst live) \<and>
    (\<forall>a n. (a, n) \<in> set live \<longrightarrow> (\<exists>d. data g a = Some d \<and> length d = unat n)) \<and>
    current_allocated (mm_stats g) = sum_list (map snd live) \<and>
    total_allocated (mm_stats g) = total_freed (mm_stats g) + current_allocated (mm_stats g) \<and>
    allocation_count (mm_stats g) = free_count (mm_stats g) + of_nat (length live) \<and>
    xsan_memory_check_leaks g = Some (Done (live \<noteq> [])) \<and>
    (\<forall>n. unat n + header_size < 2 ^ 64 \<longrightarrow> (\<exists>g' p. xsan_malloc L g n = Done (g', p))) \<and>
    (\<forall>a n. (a, n) \<in> set live \<longrightarrow> (\<exists>g'. xsan_free g (Some a) = Done g'))"
proof -
  have g: "tracked g live" using mem_reach_tracked [OF assms] .
  have "xsan_memory_check_leaks g = Some (Done (live \<noteq> []))"
    using g leaks_loop_hseg [of "headers g" NULL live False] by (simp add: xsan_memory_check_leaks_def tracked_def)
  moreover have "\<forall>n. unat n + header_size < 2 ^ 64 \<longrightarrow> (\<exists>g' p. xsan_malloc L g n = Done (g', p))"
    using malloc_tracked [OF assms(2) g] by blast
  moreover have "\<forall>a n. (a, n) \<in> set live \<longrightarrow> (\<exists>g'. xsan_free g (Some a) = Done g')"
    using free_tracked [OF g] by blast
  moreover have "\<forall>a n. (a, n) \<in> set live \<longrightarrow> (\<exists>d. data g a = Some d \<and> length d = unat n)"
    using g sized_block [of "data g" live] by (simp add: tracked_def)
  ultimately show ?thesis using g by (simp add: tracked_def)
qed

text \<open>A C library that hands out the addresses one after the other.\<close>

definition sample_libc :: libc_malloc where
  "sample_libc h n = (if finite (dom h) then Some (Suc (Max (insert 0 (dom h))), replicate (unat n) 7) else NULL)"

definition sample_mgr :: memory_mgr where
  "sample_mgr = \<lparr>mm_initialized = False, debug_enabled = False, mm_stats = zero_stats, allocated_blocks = NULL,
     mm_mutex = False, oom_callback = False, headers = Map.empty, data = Map.empty, oom_calls = []\<rparr>"

lemma sample_libc_ok: "libc_ok sample_libc"
proof -
  have "Suc (Max (insert 0 (dom h))) \<notin> dom h" if "finite (dom h)" for h :: "addr \<rightharpoonup> u8 list"
  proof
    assume "Suc (Max (insert 0 (dom h))) \<in> dom h"
    then have "Suc (Max (insert 0 (dom h))) \<le> Max (insert 0 (dom h))" using that by (intro Max_ge) auto
    then show False by simp
  qed
  then show ?thesis by (auto simp: libc_ok_def sample_libc_def split: if_splits)
qed

theorem memory_tracking_witness:
  "\<exists>g. mem_reach sample_libc g [(2, 6), (1, 100)] \<and> current_allocated (mm_stats g) = 106 \<and>
     allocation_count (mm_stats g) = free_count (mm_stats g) + 2 \<and> xsan_memory_check_leaks g = Some (Done True)"
proof -
  obtain g0 where g0: "xsan_memory_init sample_mgr True = Done (g0, XSAN_OK)" "data g0 = Map.empty"
    by (simp add: xsan_memory_init_def sample_mgr_def mm_lock_def mm_unlock_def)
  have r0: "mem_reach sample_libc g0 []" by (rule mem_reach.Init [OF _ _ g0(1)]) (simp_all add: sample_mgr_def)
  have c0: "sample_libc (data g0) (of_nat header_size + 100) = Some (1, replicate 148 7)"
    by (simp add: sample_libc_def g0(2) header_size_def)
  have t0: "mm_initialized g0" "debug_enabled g0" "\<not> mm_mutex g0" "allocated_blocks g0 = NULL"
    using mem_reach_tracked [OF r0 sample_libc_ok] by (simp_all add: tracked_def)
  then obtain g1 where g1: "xsan_malloc sample_libc g0 100 = Done (g1, Some 1)" "dom (data g1) = {1}"
    using c0 g0(2)
    by (auto simp: xsan_malloc_def mm_lock_def mm_unlock_def link_block_def count_allocation_def header_size_def Let_def)
  have r1: "mem_reach sample_libc g1 [(1, 100)]"
    using mem_reach.Malloc [OF r0 _ g1(1)] by (simp add: header_size_def)
  have n: "length ''hello'' + 1 + header_size < 2 ^ 64" by (simp add: header_size_def)
  obtain g2 p where g2: "xsan_strdup sample_libc g1 (Some ''hello'') = Done (g2, p)"
    using strdup_tracked [OF sample_libc_ok mem_reach_tracked [OF r1 sample_libc_ok] n] by blast
  have "sample_libc (data g1) (of_nat header_size + 6) = Some (2, replicate 54 7)"
    by (simp add: sample_libc_def g1(2) header_size_def)
  then have p: "p = Some 2" using g2 mem_reach_tracked [OF r1 sample_libc_ok]
    by (auto simp: xsan_strdup_def xsan_malloc_def mm_lock_def mm_unlock_def tracked_def bind_run_Done)
  have r2: "mem_reach sample_libc g2 [(2, 6), (1, 100)]" using mem_reach.Strdup [OF r1 n g2] by (simp add: p)
  have "current_allocated (mm_stats g2) = 106 \<and> allocation_count (mm_stats g2) = free_count (mm_stats g2) + 2 \<and>
     xsan_memory_check_leaks g2 = Some (Done True)"
    using memory_tracking [OF r2 sample_libc_ok] by simp
  with r2 show ?thesis by blast
qed

section \<open>Where the manager fails\<close>

text \<open>In debug mode a block cannot be resized: the allocation inside takes the mutex again.\<close>

lemma realloc_debug_deadlock:
  assumes "tracked g live" "(a, k) \<in> set live" "n \<noteq> 0"
  shows "xsan_realloc L R g (Some a) n = Deadlock"
proof -
  obtain xs ys where live: "live = xs @ (a, k) # ys" using assms(2) by (meson split_list)
  then show ?thesis using assms(1,3) by (simp add: tracked_def xsan_realloc_def mm_lock_def xsan_malloc_def)
qed

text \<open>Nor can the manager be closed while a block is in use: the check for leaks takes the mutex again.\<close>

lemma cleanup_leak_deadlock:
  assumes "tracked g live" "live \<noteq> []"
  shows "xsan_memory_cleanup g = Some Deadlock"
  using assms by (auto simp: tracked_def xsan_memory_cleanup_def mm_lock_def xsan_memory_check_leaks_def)

text \<open>The sum of the sizes of the header and of the block wraps for the 48 largest sizes, and the header is
  written over the end of a block that is too short for it.\<close>

lemma malloc_size_wraps:
  assumes L: "libc_ok L" and g: "tracked g live" and n: "unat n + header_size \<ge> 2 ^ 64"
    and some: "L (data g) (of_nat header_size + n) = Some (a, bs)"
  shows "xsan_malloc L g n = Bad_access"
proof -
  have "unat (of_nat header_size + n) < header_size"
    using n unsigned_less [of n, where 'a = nat] by (simp add: header_size_def unat_word_ariths mod_if) linarith
  then have "length bs < header_size" using libc_law [OF L some] by simp
  moreover have "n \<noteq> 0" using n by (auto simp: header_size_def)
  ultimately show ?thesis using g some by (simp add: tracked_def xsan_malloc_def mm_lock_def link_block_def)
qed

end
