(* ===== verification/MemoryPool.thy ===== *)
theory MemoryPool
  imports Memory
begin

text \<open>
  The pools of src/utils/memory.c. The blocks of a pool are on two lists, the free ones and all of them, but they
  have only one field for the next block; both lists are modelled through that field.
\<close>

section \<open>State\<close>

record memory_pool_block =
  pb_data :: addr
  pb_in_use :: bool
  pb_next :: "addr ptr"

record xsan_memory_pool_config =
  pool_block_size :: u64
  initial_blocks :: u64
  max_blocks :: u64
  thread_safe :: bool

text \<open>\<open>blocks\<close> is the memory of the blocks, \<open>pool_addr\<close> the address of the pool itself.\<close>

record xsan_memory_pool =
  pool_config :: xsan_memory_pool_config
  free_blocks :: "addr ptr"
  all_blocks :: "addr ptr"
  current_blocks :: u64
  pool_mutex :: bool
  pool_addr :: addr
  blocks :: "addr \<rightharpoonup> memory_pool_block"

definition sizeof_pool :: u64 where
  "sizeof_pool = 96"

definition sizeof_pool_block :: u64 where
  "sizeof_pool_block = 24"

definition pool_lock :: "xsan_memory_pool \<Rightarrow> xsan_memory_pool run" where
  "pool_lock pl =
     (if \<not> thread_safe (pool_config pl) then Done pl
      else if pool_mutex pl then Deadlock else Done (pl\<lparr>pool_mutex := True\<rparr>))"

definition pool_unlock :: "xsan_memory_pool \<Rightarrow> xsan_memory_pool" where
  "pool_unlock pl = (if thread_safe (pool_config pl) then pl\<lparr>pool_mutex := False\<rparr> else pl)"

section \<open>Operations\<close>

text \<open>A block with its data, if there is memory for both.\<close>

definition new_pool_block :: "libc_malloc \<Rightarrow> memory_mgr \<Rightarrow> u64 \<Rightarrow> (memory_mgr \<times> (addr \<times> addr) ptr) run" where
  "new_pool_block L g n =
     bind_run (xsan_malloc L g sizeof_pool_block) (\<lambda>(g, b).
       case b of
         NULL \<Rightarrow> Done (g, NULL)
       | Some b \<Rightarrow>
           bind_run (xsan_malloc L g n) (\<lambda>(g, d).
             case d of
               NULL \<Rightarrow> bind_run (xsan_free g (Some b)) (\<lambda>g. Done (g, NULL))
             | Some d \<Rightarrow> Done (g, Some (b, d))))"

fun pool_fill :: "libc_malloc \<Rightarrow> nat \<Rightarrow> memory_mgr \<Rightarrow> xsan_memory_pool \<Rightarrow> (memory_mgr \<times> xsan_memory_pool) run" where
  "pool_fill L 0 g pl = Done (g, pl)"
| "pool_fill L (Suc n) g pl =
     bind_run (new_pool_block L g (pool_block_size (pool_config pl))) (\<lambda>(g, r).
       case r of
         NULL \<Rightarrow> Done (g, pl)
       | Some (b, d) \<Rightarrow>
           pool_fill L n g
             (pl\<lparr>blocks := (blocks pl)(b \<mapsto> \<lparr>pb_data = d, pb_in_use = False, pb_next = all_blocks pl\<rparr>),
                 free_blocks := Some b, all_blocks := Some b, current_blocks := current_blocks pl + 1\<rparr>))"

definition xsan_memory_pool_create ::
  "libc_malloc \<Rightarrow> bool \<Rightarrow> memory_mgr \<Rightarrow> xsan_memory_pool_config ptr \<Rightarrow> (memory_mgr \<times> xsan_memory_pool ptr) run" where
  "xsan_memory_pool_create L mutex_init_ok g config =
     (case config of
        NULL \<Rightarrow> Done (g, NULL)
      | Some cfg \<Rightarrow>
          if pool_block_size cfg = 0 then Done (g, NULL)
          else
            bind_run (xsan_malloc L g sizeof_pool) (\<lambda>(g, p).
              case p of
                NULL \<Rightarrow> Done (g, NULL)
              | Some a \<Rightarrow>
                  if thread_safe cfg \<and> \<not> mutex_init_ok then bind_run (xsan_free g p) (\<lambda>g. Done (g, NULL))
                  else
                    bind_run
                      (pool_fill L (unat (initial_blocks cfg)) g
                         \<lparr>pool_config = cfg, free_blocks = NULL, all_blocks = NULL, current_blocks = 0, pool_mutex = False,
                          pool_addr = a, blocks = Map.empty\<rparr>)
                      (\<lambda>(g, pl). Done (g, Some pl))))"

partial_function (option) destroy_loop ::
  "(addr \<rightharpoonup> memory_pool_block) \<Rightarrow> addr ptr \<Rightarrow> memory_mgr \<Rightarrow> memory_mgr run option" where
  "destroy_loop bl p g =
     (case p of
        NULL \<Rightarrow> Some (Done g)
      | Some b \<Rightarrow>
          (case bl b of
             None \<Rightarrow> Some Bad_access
           | Some blk \<Rightarrow>
               (case bind_run (xsan_free g (Some (pb_data blk))) (\<lambda>g. xsan_free g (Some b)) of
                  Done g \<Rightarrow> destroy_loop bl (pb_next blk) g
                | Deadlock \<Rightarrow> Some Deadlock
                | Bad_access \<Rightarrow> Some Bad_access)))"

definition xsan_memory_pool_destroy :: "memory_mgr \<Rightarrow> xsan_memory_pool ptr \<Rightarrow> memory_mgr run option" where
  "xsan_memory_pool_destroy g pool =
     (case pool of
        NULL \<Rightarrow> Some (Done g)
      | Some pl \<Rightarrow>
          (case pool_lock pl of
             Done pl \<Rightarrow>
               (case destroy_loop (blocks pl) (all_blocks pl) g of
                  None \<Rightarrow> None
                | Some r \<Rightarrow> Some (bind_run r (\<lambda>g. xsan_free g (Some (pool_addr pl)))))
           | Deadlock \<Rightarrow> Some Deadlock
           | Bad_access \<Rightarrow> Some Bad_access))"

definition pool_hit :: "memory_mgr \<Rightarrow> memory_mgr run" where
  "pool_hit g = bind_run (mm_lock g) (\<lambda>g.
     Done (mm_unlock (g\<lparr>mm_stats := (mm_stats g)\<lparr>pool_hits := pool_hits (mm_stats g) + 1\<rparr>\<rparr>)))"

definition pool_miss :: "memory_mgr \<Rightarrow> memory_mgr run" where
  "pool_miss g = bind_run (mm_lock g) (\<lambda>g.
     Done (mm_unlock (g\<lparr>mm_stats := (mm_stats g)\<lparr>pool_misses := pool_misses (mm_stats g) + 1\<rparr>\<rparr>)))"

definition pool_take :: "memory_mgr \<Rightarrow> xsan_memory_pool \<Rightarrow> addr \<Rightarrow> (memory_mgr \<times> xsan_memory_pool \<times> addr ptr) run" where
  "pool_take g pl b =
     (case blocks pl b of
        None \<Rightarrow> Bad_access
      | Some blk \<Rightarrow>
          bind_run (pool_hit g) (\<lambda>g.
            Done (g, pl\<lparr>free_blocks := pb_next blk, blocks := (blocks pl)(b \<mapsto> blk\<lparr>pb_in_use := True\<rparr>)\<rparr>,
                  Some (pb_data blk))))"

definition pool_grow :: "libc_malloc \<Rightarrow> memory_mgr \<Rightarrow> xsan_memory_pool \<Rightarrow> (memory_mgr \<times> xsan_memory_pool \<times> addr ptr) run" where
  "pool_grow L g pl =
     bind_run (new_pool_block L g (pool_block_size (pool_config pl))) (\<lambda>(g, r).
       case r of
         NULL \<Rightarrow> Done (g, pl, NULL)
       | Some (b, d) \<Rightarrow>
           bind_run (pool_hit g) (\<lambda>g.
             Done (g, pl\<lparr>blocks := (blocks pl)(b \<mapsto> \<lparr>pb_data = d, pb_in_use = True, pb_next = all_blocks pl\<rparr>),
                         all_blocks := Some b, current_blocks := current_blocks pl + 1\<rparr>, Some d)))"

definition pool_alloc ::
  "libc_malloc \<Rightarrow> memory_mgr \<Rightarrow> xsan_memory_pool \<Rightarrow> (memory_mgr \<times> xsan_memory_pool \<times> addr ptr) run" where
  "pool_alloc L g pl =
     bind_run (pool_lock pl) (\<lambda>pl.
       bind_run
         (case free_blocks pl of
            Some b \<Rightarrow> pool_take g pl b
          | NULL \<Rightarrow>
              if current_blocks pl < max_blocks (pool_config pl) then pool_grow L g pl else Done (g, pl, NULL))
         (\<lambda>(g, pl, p).
            bind_run (if p = NULL then pool_miss g else Done g) (\<lambda>g. Done (g, pool_unlock pl, p))))"

definition xsan_memory_pool_alloc ::
  "libc_malloc \<Rightarrow> memory_mgr \<Rightarrow> xsan_memory_pool ptr \<Rightarrow> (memory_mgr \<times> xsan_memory_pool ptr \<times> addr ptr) run" where
  "xsan_memory_pool_alloc L g pool =
     (case pool of
        NULL \<Rightarrow> Done (g, NULL, NULL)
      | Some pl \<Rightarrow> bind_run (pool_alloc L g pl) (\<lambda>(g, pl, p). Done (g, Some pl, p)))"

partial_function (option) find_block ::
  "(addr \<rightharpoonup> memory_pool_block) \<Rightarrow> addr ptr \<Rightarrow> addr \<Rightarrow> addr ptr run option" where
  "find_block bl p d =
     (case p of
        NULL \<Rightarrow> Some (Done NULL)
      | Some b \<Rightarrow>
          (case bl b of
             None \<Rightarrow> Some Bad_access
           | Some blk \<Rightarrow> if pb_data blk = d then Some (Done (Some b)) else find_block bl (pb_next blk) d))"

definition give_back_block :: "xsan_memory_pool \<Rightarrow> addr \<Rightarrow> xsan_memory_pool" where
  "give_back_block pl b =
     (case blocks pl b of
        None \<Rightarrow> pl
      | Some blk \<Rightarrow>
          if pb_in_use blk
          then pl\<lparr>blocks := (blocks pl)(b \<mapsto> blk\<lparr>pb_in_use := False, pb_next := free_blocks pl\<rparr>), free_blocks := Some b\<rparr>
          else pl)"

definition pool_release :: "xsan_memory_pool \<Rightarrow> addr ptr \<Rightarrow> xsan_memory_pool run option" where
  "pool_release pl ptr =
     (case ptr of
        NULL \<Rightarrow> Some (Done pl)
      | Some d \<Rightarrow>
          (case pool_lock pl of
             Done pl \<Rightarrow>
               (case find_block (blocks pl) (all_blocks pl) d of
                  None \<Rightarrow> None
                | Some r \<Rightarrow> Some (bind_run r (\<lambda>b.
                    Done (pool_unlock (case b of NULL \<Rightarrow> pl | Some b \<Rightarrow> give_back_block pl b)))))
           | Deadlock \<Rightarrow> Some Deadlock
           | Bad_access \<Rightarrow> Some Bad_access))"

definition xsan_memory_pool_free :: "xsan_memory_pool ptr \<Rightarrow> addr ptr \<Rightarrow> xsan_memory_pool ptr run option" where
  "xsan_memory_pool_free pool ptr =
     (case pool of
        NULL \<Rightarrow> Some (Done NULL)
      | Some pl \<Rightarrow> map_option (\<lambda>r. bind_run r (\<lambda>pl. Done (Some pl))) (pool_release pl ptr))"

lemma alloc_Some [simp]:
  "xsan_memory_pool_alloc L g (Some pl) = Done (g', Some pl', p) \<longleftrightarrow> pool_alloc L g pl = Done (g', pl', p)"
  by (auto simp: xsan_memory_pool_alloc_def bind_run_Done)

lemma free_Some [simp]:
  "xsan_memory_pool_free (Some pl) ptr = Some (Done (Some pl')) \<longleftrightarrow> pool_release pl ptr = Some (Done pl')"
  by (auto simp: xsan_memory_pool_free_def bind_run_Done)

section \<open>The two lists\<close>

fun path :: "(addr \<rightharpoonup> memory_pool_block) \<Rightarrow> addr ptr \<Rightarrow> addr list \<Rightarrow> addr ptr \<Rightarrow> bool" where
  "path bl p [] q = (p = q)"
| "path bl p (a # xs) q = (p = Some a \<and> (case bl a of None \<Rightarrow> False | Some blk \<Rightarrow> path bl (pb_next blk) xs q))"

lemma path_append: "path bl p (xs @ ys) q \<longleftrightarrow> (\<exists>r. path bl p xs r \<and> path bl r ys q)"
  by (induction xs arbitrary: p) (auto split: option.splits)

lemma path_frame [simp]: "a \<notin> set xs \<Longrightarrow> path (bl(a := v)) p xs q = path bl p xs q"
  by (induction xs arbitrary: p) (auto split: option.splits)

lemma path_in_use:
  "path bl p xs q \<Longrightarrow> bl b = Some blk \<Longrightarrow> path (bl(b \<mapsto> blk\<lparr>pb_in_use := u\<rparr>)) p xs q"
  by (induction xs arbitrary: p) (auto split: option.splits if_splits)

lemma path_blocks: "path bl p xs q \<Longrightarrow> set xs \<subseteq> dom bl"
  by (induction xs arbitrary: p) (auto split: option.splits)

lemma find_block_path:
  "path bl p xs NULL \<Longrightarrow> find_block bl p d = Some (Done (find (\<lambda>b. pb_data (the (bl b)) = d) xs))"
proof (induction xs arbitrary: p)
  case (Cons a xs)
  then obtain blk where "p = Some a" "bl a = Some blk" "path bl (pb_next blk) xs NULL" by (auto split: option.splits)
  with Cons.IH [of "pb_next blk"] show ?case by (subst find_block.simps) simp
qed (simp add: find_block.simps)

text \<open>\<open>us\<close> are the blocks in use that are on the list of all blocks, \<open>fs\<close> the free ones, which are the rest of that
  list; \<open>lost\<close> are blocks in use that are on no list.\<close>

definition pool_shape :: "xsan_memory_pool \<Rightarrow> addr list \<Rightarrow> addr list \<Rightarrow> addr set \<Rightarrow> bool" where
  "pool_shape pl us fs lost \<longleftrightarrow>
     path (blocks pl) (all_blocks pl) us (free_blocks pl) \<and> path (blocks pl) (free_blocks pl) fs NULL \<and>
     distinct (us @ fs) \<and> dom (blocks pl) = set us \<union> set fs \<union> lost \<and> lost \<inter> (set us \<union> set fs) = {} \<and>
     (\<forall>b blk. blocks pl b = Some blk \<longrightarrow> (pb_in_use blk \<longleftrightarrow> b \<notin> set fs))"

definition data_live :: "memory_mgr \<Rightarrow> xsan_memory_pool \<Rightarrow> bool" where
  "data_live g pl \<longleftrightarrow> (\<forall>b blk. blocks pl b = Some blk \<longrightarrow> data g b \<noteq> None \<and> data g (pb_data blk) \<noteq> None)"

definition data_distinct :: "xsan_memory_pool \<Rightarrow> bool" where
  "data_distinct pl \<longleftrightarrow>
     (\<forall>b c blk blk'. blocks pl b = Some blk \<longrightarrow> blocks pl c = Some blk' \<longrightarrow> pb_data blk = pb_data blk' \<longrightarrow> b = c)"

definition pool_ok :: "memory_mgr \<Rightarrow> xsan_memory_pool \<Rightarrow> addr list \<Rightarrow> addr list \<Rightarrow> addr set \<Rightarrow> bool" where
  "pool_ok g pl us fs lost \<longleftrightarrow> pool_shape pl us fs lost \<and> data_live g pl \<and> data_distinct pl"

definition in_use :: "xsan_memory_pool \<Rightarrow> addr set" where
  "in_use pl = {pb_data blk | b blk. blocks pl b = Some blk \<and> pb_in_use blk}"

lemma malloc_data:
  assumes "libc_ok L" "xsan_malloc L g n = Done (g', p)"
  shows "p = NULL \<Longrightarrow> data g' = data g" and "p = Some a \<Longrightarrow> data g a = None \<and> (\<exists>bs. data g' = (data g)(a \<mapsto> bs))"
proof -
  have set_prev: "data h' = data h" if "set_hdr_prev x y h = Done h'" for x y h h'
    using that by (auto simp: set_hdr_prev_def split: option.splits)
  have link: "data h' = (data h)(x \<mapsto> drop header_size bs)" if "link_block x bs k h = Done h'" for x bs k h h'
    using that set_prev
    by (auto simp: link_block_def count_allocation_def Let_def bind_run_Done split: if_splits option.splits)
  show "p = NULL \<Longrightarrow> data g' = data g"
    using assms(2) by (auto simp: xsan_malloc_def mm_lock_def mm_unlock_def oom_def bind_run_Done split: if_splits option.splits)
  show "p = Some a \<Longrightarrow> data g a = None \<and> (\<exists>bs. data g' = (data g)(a \<mapsto> bs))"
    using assms(2) libc_law [OF assms(1)]
    by (auto dest!: link simp: xsan_malloc_def mm_lock_def mm_unlock_def count_allocation_def Let_def bind_run_Done
        split: if_splits option.splits) blast
qed

lemma free_data:
  assumes "xsan_free g (Some a) = Done g'"
  shows "dom (data g) - {a} \<subseteq> dom (data g')"
proof -
  have set_ptr: "data h' = data h" if "set_hdr_prev x y h = Done h' \<or> set_hdr_next x y h = Done h'" for x y h h'
    using that by (auto simp: set_hdr_prev_def set_hdr_next_def split: option.splits)
  have unlink: "data h' = data h" if "unlink_block x y h = Done h'" for x y h h'
    using that set_ptr by (fastforce simp: unlink_block_def bind_run_Done split: option.splits)
  show ?thesis using assms unlink
    by (fastforce simp: xsan_free_def mm_lock_def mm_unlock_def libc_free_def count_release_def Let_def bind_run_Done
        split: if_splits option.splits)
qed

lemma new_block_data:
  assumes L: "libc_ok L" and r: "new_pool_block L g n = Done (g', r)"
  shows "dom (data g) \<subseteq> dom (data g')"
    and "r = Some (b, d) \<Longrightarrow> data g b = None \<and> data g d = None \<and> b \<noteq> d \<and> data g' b \<noteq> None \<and> data g' d \<noteq> None"
proof -
  obtain g1 p where g1: "xsan_malloc L g sizeof_pool_block = Done (g1, p)"
    using r by (auto simp: new_pool_block_def bind_run_Done)
  note m1 = malloc_data [OF L g1]
  show "dom (data g) \<subseteq> dom (data g')"
  proof (cases p)
    case (Some a)
    obtain g2 q where g2: "xsan_malloc L g1 n = Done (g2, q)" using r g1 Some by (auto simp: new_pool_block_def bind_run_Done)
    with r g1 Some m1 malloc_data [OF L g2] free_data [of g2 a g'] show ?thesis
      by (auto simp: new_pool_block_def bind_run_Done split: option.splits)
  qed (use r g1 m1 in \<open>auto simp: new_pool_block_def\<close>)
  show "data g b = None \<and> data g d = None \<and> b \<noteq> d \<and> data g' b \<noteq> None \<and> data g' d \<noteq> None" if "r = Some (b, d)"
  proof -
    have p: "p = Some b" and g2: "xsan_malloc L g1 n = Done (g', Some d)"
      using r g1 that by (auto simp: new_pool_block_def bind_run_Done split: option.splits)
    show ?thesis using m1(2) [OF p] malloc_data(2) [OF L g2 refl] by (auto split: if_splits)
  qed
qed

lemma hit_data: "pool_hit g = Done g' \<Longrightarrow> data g' = data g" "pool_miss g = Done g' \<Longrightarrow> data g' = data g"
  by (auto simp: pool_hit_def pool_miss_def mm_lock_def mm_unlock_def split: if_splits)

lemma pool_ok_mutex [simp]: "pool_ok g (pl\<lparr>pool_mutex := m\<rparr>) us fs lost = pool_ok g pl us fs lost"
  by (simp add: pool_ok_def pool_shape_def data_live_def data_distinct_def)

lemma pool_unlock_simps [simp]:
  "pool_ok g (pool_unlock pl) us fs lost = pool_ok g pl us fs lost" "in_use (pool_unlock pl) = in_use pl"
  "pool_config (pool_unlock pl) = pool_config pl" "current_blocks (pool_unlock pl) = current_blocks pl"
  "blocks (pool_unlock pl) = blocks pl" "in_use (pl\<lparr>pool_mutex := m\<rparr>) = in_use pl"
  by (simp_all add: pool_unlock_def in_use_def)

lemma pool_ok_mono: "pool_ok g pl us fs lost \<Longrightarrow> dom (data g) \<subseteq> dom (data g') \<Longrightarrow> pool_ok g' pl us fs lost"
  unfolding pool_ok_def data_live_def by (metis domIff subsetD)

text \<open>A new block comes to the front of the list of all blocks, as a free block if all blocks are free.\<close>

lemma pool_ok_new:
  assumes ok: "pool_ok g pl us fs lost" and new: "data g b = None" "data g d = None"
    and g': "dom (data g) \<subseteq> dom (data g')" "data g' b \<noteq> None" "data g' d \<noteq> None"
  shows "pool_ok g' (pl\<lparr>blocks := (blocks pl)(b \<mapsto> \<lparr>pb_data = d, pb_in_use = True, pb_next = all_blocks pl\<rparr>),
      all_blocks := Some b, current_blocks := n\<rparr>) (b # us) fs lost" (is "pool_ok g' ?pl _ _ _")
    and "us = [] \<Longrightarrow> pool_ok g' (pl\<lparr>blocks := (blocks pl)(b \<mapsto> \<lparr>pb_data = d, pb_in_use = False, pb_next = all_blocks pl\<rparr>),
      free_blocks := Some b, all_blocks := Some b, current_blocks := n\<rparr>) [] (b # fs) lost" (is "_ \<Longrightarrow> pool_ok g' ?pl' _ _ _")
proof -
  have live: "data_live g pl" and shape: "pool_shape pl us fs lost" and dist: "data_distinct pl"
    using ok by (auto simp: pool_ok_def)
  have none: "blocks pl b = None" using live new(1) unfolding data_live_def by (metis not_None_eq)
  then have b: "b \<notin> set us" "b \<notin> set fs" "b \<notin> lost" using shape unfolding pool_shape_def by blast+
  have d: "pb_data blk \<noteq> d" "d \<noteq> pb_data blk" if "blocks pl c = Some blk" for c blk
    using live new(2) that unfolding data_live_def by metis+
  have "data_live g' pl" using live g'(1) unfolding data_live_def by (metis domIff subsetD)
  then have "data_live g' ?pl" "data_live g' ?pl'" using g'(2,3) by (simp_all add: data_live_def)
  moreover have "data_distinct ?pl" "data_distinct ?pl'" using dist d by (auto simp: data_distinct_def)
  moreover have "pool_shape ?pl (b # us) fs lost" using shape b unfolding pool_shape_def by auto
  moreover have "pool_shape ?pl' [] (b # fs) lost" if "us = []" using shape b that unfolding pool_shape_def by auto
  ultimately show "pool_ok g' ?pl (b # us) fs lost" "us = [] \<Longrightarrow> pool_ok g' ?pl' [] (b # fs) lost"
    by (auto simp: pool_ok_def)
qed

lemma pool_ok_take:
  assumes ok: "pool_ok g pl us (b # fs) lost" and blk: "blocks pl b = Some blk"
  shows "pool_ok g (pl\<lparr>free_blocks := pb_next blk, blocks := (blocks pl)(b \<mapsto> blk\<lparr>pb_in_use := True\<rparr>)\<rparr>) (us @ [b]) fs lost"
    (is "pool_ok g ?pl _ _ _")
proof -
  have live: "data_live g pl" and shape: "pool_shape pl us (b # fs) lost" and dist: "data_distinct pl"
    using ok by (auto simp: pool_ok_def)
  have "data_live g ?pl" "data_distinct ?pl" using live dist blk by (auto simp: data_live_def data_distinct_def)
  moreover have "pool_shape ?pl (us @ [b]) fs lost" using shape blk unfolding pool_shape_def by (auto simp: path_append)
  ultimately show ?thesis by (simp add: pool_ok_def)
qed

text \<open>A block that is given back becomes the first free block; the blocks behind it that are in use are lost.\<close>

lemma pool_ok_give_back:
  assumes ok: "pool_ok g pl (us @ b # vs) fs lost" and blk: "blocks pl b = Some blk"
  shows "pool_ok g (give_back_block pl b) us (b # fs) (lost \<union> set vs)"
proof -
  let ?pl = "pl\<lparr>blocks := (blocks pl)(b \<mapsto> blk\<lparr>pb_in_use := False, pb_next := free_blocks pl\<rparr>), free_blocks := Some b\<rparr>"
  have live: "data_live g pl" and shape: "pool_shape pl (us @ b # vs) fs lost" and dist: "data_distinct pl"
    using ok by (auto simp: pool_ok_def)
  have "pb_in_use blk" using shape blk by (auto simp: pool_shape_def)
  then have "give_back_block pl b = ?pl" using blk by (simp add: give_back_block_def)
  moreover have "data_live g ?pl" "data_distinct ?pl" using live dist blk by (auto simp: data_live_def data_distinct_def)
  moreover have "pool_shape ?pl us (b # fs) (lost \<union> set vs)"
    using shape blk unfolding pool_shape_def by (auto simp: path_append)
  ultimately show ?thesis by (simp add: pool_ok_def)
qed

lemma fill_ok:
  assumes L: "libc_ok L"
  shows "pool_fill L n g pl = Done (g', pl') \<Longrightarrow> pool_ok g pl [] fs {} \<Longrightarrow> unat (current_blocks pl) + n < 2 ^ 64 \<Longrightarrow>
    (\<exists>fs'. pool_ok g' pl' [] fs' {}) \<and> pool_config pl' = pool_config pl \<and>
    unat (current_blocks pl') \<le> unat (current_blocks pl) + n \<and> pool_mutex pl' = pool_mutex pl"
proof (induction n arbitrary: g pl fs)
  case (Suc n)
  obtain h r where h: "new_pool_block L g (pool_block_size (pool_config pl)) = Done (h, r)"
    using Suc.prems(1) by (auto simp: bind_run_Done)
  show ?case
  proof (cases r)
    case None
    then have "h = g'" "pl' = pl" using Suc.prems(1) h by auto
    then show ?thesis using pool_ok_mono [OF Suc.prems(2) new_block_data(1) [OF L h]] by auto
  next
    case (Some x)
    obtain b d where x: "x = (b, d)" by (cases x)
    let ?pl = "pl\<lparr>blocks := (blocks pl)(b \<mapsto> \<lparr>pb_data = d, pb_in_use = False, pb_next = all_blocks pl\<rparr>),
      free_blocks := Some b, all_blocks := Some b, current_blocks := current_blocks pl + 1\<rparr>"
    have n: "unat (current_blocks ?pl) = unat (current_blocks pl) + 1"
      using Suc.prems(3) by (simp add: unat_word_ariths)
    have "pool_ok h ?pl [] (b # fs) {}"
      using pool_ok_new(2) [OF Suc.prems(2)] new_block_data [OF L h] Some x by blast
    moreover have "pool_fill L n h ?pl = Done (g', pl')" using Suc.prems(1) h Some x by simp
    ultimately show ?thesis using Suc.IH [of h ?pl "b # fs"] Suc.prems(3) n by auto
  qed
qed auto

lemma create_ok:
  assumes L: "libc_ok L" and r: "xsan_memory_pool_create L ok g (Some cfg) = Done (g', Some pl)"
  shows "(\<exists>fs. pool_ok g' pl [] fs {}) \<and> pool_config pl = cfg \<and> unat (current_blocks pl) \<le> unat (initial_blocks cfg) \<and>
    \<not> pool_mutex pl"
proof -
  obtain h a where "pool_fill L (unat (initial_blocks cfg)) h
      \<lparr>pool_config = cfg, free_blocks = NULL, all_blocks = NULL, current_blocks = 0, pool_mutex = False,
       pool_addr = a, blocks = Map.empty\<rparr> = Done (g', pl)"
    using r by (auto simp: xsan_memory_pool_create_def bind_run_Done split: if_splits option.splits)
  from fill_ok [OF L this, of "[]"] show ?thesis using unsigned_less [of "initial_blocks cfg", where 'a = nat]
    by (auto simp: pool_ok_def pool_shape_def data_live_def data_distinct_def)
qed

lemma in_use_new:
  assumes "\<And>blk. blocks pl b = Some blk \<Longrightarrow> \<not> pb_in_use blk" "blocks pl' = (blocks pl)(b \<mapsto> x)" "pb_in_use x"
  shows "in_use pl' = insert (pb_data x) (in_use pl)"
proof
  show "in_use pl' \<subseteq> insert (pb_data x) (in_use pl)" using assms by (auto simp: in_use_def split: if_splits)
  show "insert (pb_data x) (in_use pl) \<subseteq> in_use pl'" using assms unfolding in_use_def by (auto) (metis option.inject)+
qed

lemma take_ok:
  assumes ok: "pool_ok g pl us fs lost" and b: "free_blocks pl = Some b" and r: "pool_take g pl b = Done (g', pl', p)"
  shows "\<exists>us' fs' d. pool_ok g' pl' us' fs' lost \<and> p = Some d \<and> in_use pl' = insert d (in_use pl) \<and> d \<notin> in_use pl \<and>
    data g' d \<noteq> None"
    and "pool_config pl' = pool_config pl" "current_blocks pl' = current_blocks pl" "pool_mutex pl' = pool_mutex pl"
proof -
  obtain zs where fs: "fs = b # zs" using ok b by (cases fs) (auto simp: pool_ok_def pool_shape_def)
  obtain blk where blk: "blocks pl b = Some blk" using r by (auto simp: pool_take_def split: option.splits)
  let ?pl = "pl\<lparr>free_blocks := pb_next blk, blocks := (blocks pl)(b \<mapsto> blk\<lparr>pb_in_use := True\<rparr>)\<rparr>"
  have pl': "pl' = ?pl" "p = Some (pb_data blk)" "pool_hit g = Done g'"
    using r blk by (auto simp: pool_take_def bind_run_Done)
  have free: "\<not> pb_in_use blk" using ok blk fs by (auto simp: pool_ok_def pool_shape_def)
  have "pool_ok g' ?pl (us @ [b]) zs lost"
    using pool_ok_mono [OF pool_ok_take [OF ok [unfolded fs] blk]] hit_data(1) [OF pl'(3)] by simp
  moreover have "in_use ?pl = insert (pb_data blk) (in_use pl)" using blk free in_use_new [of pl b ?pl] by simp
  moreover have "pb_data blk \<notin> in_use pl"
    using ok blk free unfolding in_use_def pool_ok_def data_distinct_def by auto (metis option.inject)
  moreover have "data g' (pb_data blk) \<noteq> None" using ok blk hit_data(1) [OF pl'(3)] by (auto simp: pool_ok_def data_live_def)
  ultimately show "\<exists>us' fs' d. pool_ok g' pl' us' fs' lost \<and> p = Some d \<and> in_use pl' = insert d (in_use pl) \<and> d \<notin> in_use pl \<and>
    data g' d \<noteq> None" using pl'(1,2) by blast
  show "pool_config pl' = pool_config pl" "current_blocks pl' = current_blocks pl" "pool_mutex pl' = pool_mutex pl"
    using pl'(1) by simp_all
qed

lemma pool_grow_ok:
  assumes L: "libc_ok L" and ok: "pool_ok g pl us fs lost" and r: "pool_grow L g pl = Done (g', pl', p)"
    and room: "current_blocks pl < max_blocks (pool_config pl)"
  shows "p = NULL \<and> pl' = pl \<and> pool_ok g' pl us fs lost \<or>
    (\<exists>us' fs' d. pool_ok g' pl' us' fs' lost \<and> p = Some d \<and> in_use pl' = insert d (in_use pl) \<and> d \<notin> in_use pl \<and>
       data g' d \<noteq> None)"
    and "pool_config pl' = pool_config pl" "unat (current_blocks pl') \<le> unat (max_blocks (pool_config pl))"
    "pool_mutex pl' = pool_mutex pl"
proof -
  obtain h q where h: "new_pool_block L g (pool_block_size (pool_config pl)) = Done (h, q)"
    using r by (auto simp: pool_grow_def bind_run_Done)
  note new = new_block_data [OF L h]
  have cur: "unat (current_blocks pl + 1) \<le> unat (max_blocks (pool_config pl))"
    using room unsigned_less [of "max_blocks (pool_config pl)", where 'a = nat] by (simp add: word_less_nat_alt unat_word_ariths)
  show "pool_config pl' = pool_config pl" "unat (current_blocks pl') \<le> unat (max_blocks (pool_config pl))"
    "pool_mutex pl' = pool_mutex pl"
    using r h cur room by (auto simp: pool_grow_def bind_run_Done word_less_nat_alt split: option.splits)
  show "p = NULL \<and> pl' = pl \<and> pool_ok g' pl us fs lost \<or>
    (\<exists>us' fs' d. pool_ok g' pl' us' fs' lost \<and> p = Some d \<and> in_use pl' = insert d (in_use pl) \<and> d \<notin> in_use pl \<and>
       data g' d \<noteq> None)"
  proof (cases q)
    case None
    then show ?thesis using r h pool_ok_mono [OF ok new(1)] by (auto simp: pool_grow_def)
  next
    case (Some x)
    obtain b d where x: "x = (b, d)" by (cases x)
    let ?pl = "pl\<lparr>blocks := (blocks pl)(b \<mapsto> \<lparr>pb_data = d, pb_in_use = True, pb_next = all_blocks pl\<rparr>),
      all_blocks := Some b, current_blocks := current_blocks pl + 1\<rparr>"
    have g': "pool_hit h = Done g'" "pl' = ?pl" "p = Some d"
      using r h Some x by (auto simp: pool_grow_def bind_run_Done)
    note nb = new(2) [OF Some [unfolded x]]
    have "pool_ok h ?pl (b # us) fs lost" using pool_ok_new(1) [OF ok] nb new(1) by blast
    then have "pool_ok g' ?pl (b # us) fs lost" using pool_ok_mono hit_data(1) [OF g'(1)] by simp
    moreover have "blocks pl b = None" using ok nb by (metis data_live_def not_None_eq pool_ok_def)
    then have "in_use ?pl = insert d (in_use pl)" using in_use_new [of pl b ?pl] by simp
    moreover have "d \<notin> in_use pl" using ok nb unfolding in_use_def pool_ok_def data_live_def by auto (metis option.distinct(1))
    moreover have "data g' d \<noteq> None" using nb hit_data(1) [OF g'(1)] by simp
    ultimately show ?thesis using g'(2,3) by blast
  qed
qed

lemma alloc_ok:
  assumes L: "libc_ok L" and ok: "pool_ok g pl us fs lost" and m: "\<not> pool_mutex pl"
    and r: "pool_alloc L g pl = Done (g', pl', p)"
  shows "(\<exists>us' fs'. pool_ok g' pl' us' fs' lost) \<and> pool_config pl' = pool_config pl \<and> \<not> pool_mutex pl' \<and>
    (p = NULL \<and> in_use pl' = in_use pl \<or>
     (\<exists>d. p = Some d \<and> in_use pl' = insert d (in_use pl) \<and> d \<notin> in_use pl \<and> data g' d \<noteq> None)) \<and>
    unat (current_blocks pl') \<le> max (unat (current_blocks pl)) (unat (max_blocks (pool_config pl)))"
proof -
  obtain pl1 where pl1: "pool_lock pl = Done pl1" "pl1 = pl \<and> \<not> thread_safe (pool_config pl) \<or> pl1 = pl\<lparr>pool_mutex := True\<rparr> \<and> thread_safe (pool_config pl)"
    using m by (cases "thread_safe (pool_config pl)") (auto simp: pool_lock_def)
  have ok1: "pool_ok g pl1 us fs lost" "in_use pl1 = in_use pl" "current_blocks pl1 = current_blocks pl"
    "pool_config pl1 = pool_config pl"
    using ok pl1(2) by auto
  let ?mid = "case free_blocks pl1 of Some b \<Rightarrow> pool_take g pl1 b
    | NULL \<Rightarrow> if current_blocks pl1 < max_blocks (pool_config pl1) then pool_grow L g pl1 else Done (g, pl1, NULL)"
  obtain g2 pl2 where mid: "?mid = Done (g2, pl2, p)" and fin: "pl' = pool_unlock pl2" "(if p = NULL then pool_miss g2 else Done g2) = Done g'"
    using r pl1(1) by (auto simp: pool_alloc_def bind_run_Done)
  have d': "data g' = data g2" using fin(2) hit_data(2) [of g2] by (auto split: if_splits)
  have "(\<exists>us' fs'. pool_ok g2 pl2 us' fs' lost) \<and> pool_config pl2 = pool_config pl \<and> pool_mutex pl2 = pool_mutex pl1 \<and>
    (p = NULL \<and> in_use pl2 = in_use pl \<or>
     (\<exists>d. p = Some d \<and> in_use pl2 = insert d (in_use pl) \<and> d \<notin> in_use pl \<and> data g2 d \<noteq> None)) \<and>
    unat (current_blocks pl2) \<le> max (unat (current_blocks pl)) (unat (max_blocks (pool_config pl)))"
  proof (cases "free_blocks pl1")
    case (Some b)
    with mid have t: "pool_take g pl1 b = Done (g2, pl2, p)" by simp
    from take_ok [OF ok1(1) Some t] ok1 show ?thesis by auto
  next
    case None
    show ?thesis
    proof (cases "current_blocks pl1 < max_blocks (pool_config pl1)")
      case True
      with mid None have t: "pool_grow L g pl1 = Done (g2, pl2, p)" by simp
      from pool_grow_ok [OF L ok1(1) t True] ok1 show ?thesis by auto
    qed (use mid None ok1 in auto)
  qed
  then show ?thesis using fin(1) d' pl1(2) pool_ok_mono [of g2 pl2 _ _ lost g'] m by (auto simp: pool_unlock_def)
qed

lemma find_split:
  assumes "find P xs = Some b"
  shows "\<exists>ys zs. xs = ys @ b # zs \<and> P b"
  using assms by (induction xs) (auto split: if_splits intro: exI [of _ "_ # _"] append_Cons [symmetric])

lemma in_use_given:
  assumes "blocks pl b = Some blk" "blocks pl' = (blocks pl)(b \<mapsto> x)"
  shows "in_use pl - {pb_data blk} \<subseteq> in_use pl'"
  using assms unfolding in_use_def by (auto) (metis option.inject)

lemma search_ok:
  assumes ok: "pool_ok g pl us fs lost"
    and q: "q = (case find (\<lambda>b. pb_data (the (blocks pl b)) = d) (us @ fs) of NULL \<Rightarrow> pl | Some b \<Rightarrow> give_back_block pl b)"
  shows "(\<exists>us' fs' lost'. pool_ok g q us' fs' lost') \<and> in_use pl - {d} \<subseteq> in_use q \<and>
    pool_config q = pool_config pl \<and> current_blocks q = current_blocks pl \<and> pool_mutex q = pool_mutex pl"
proof (cases "find (\<lambda>b. pb_data (the (blocks pl b)) = d) (us @ fs)")
  case (Some b)
  obtain ys zs where xs: "us @ fs = ys @ b # zs" "pb_data (the (blocks pl b)) = d" using find_split [OF Some] by blast
  have "b \<in> set (us @ fs)" using xs(1) by simp
  then have b: "b \<in> set us \<or> b \<in> set fs" by simp
  then have "b \<in> dom (blocks pl)" using ok by (auto simp: pool_ok_def pool_shape_def)
  then obtain blk where blk: "blocks pl b = Some blk" "pb_data blk = d" using xs(2) by auto
  show ?thesis
  proof (cases "pb_in_use blk")
    case True
    then have "b \<in> set us" using ok b blk(1) by (auto simp: pool_ok_def pool_shape_def)
    then obtain vs ws where us: "us = vs @ b # ws" by (meson split_list)
    have "blocks (give_back_block pl b) = (blocks pl)(b \<mapsto> blk\<lparr>pb_in_use := False, pb_next := free_blocks pl\<rparr>)"
      using blk(1) True by (simp add: give_back_block_def)
    from in_use_given [OF blk(1) this] pool_ok_give_back [OF ok [unfolded us] blk(1)] Some True blk show ?thesis
      by (auto simp: q give_back_block_def)
  next
    case False
    then show ?thesis using ok Some blk(1) by (auto simp: q give_back_block_def)
  qed
qed (use ok in \<open>auto simp: q\<close>)

lemma free_ok:
  assumes ok: "pool_ok g pl us fs lost" and m: "\<not> pool_mutex pl"
  shows "\<exists>pl'. pool_release pl (Some d) = Some (Done pl') \<and> (\<exists>us' fs' lost'. pool_ok g pl' us' fs' lost') \<and>
    in_use pl - {d} \<subseteq> in_use pl' \<and> pool_config pl' = pool_config pl \<and> current_blocks pl' = current_blocks pl \<and>
    \<not> pool_mutex pl'"
proof -
  obtain pl1 where pl1: "pool_lock pl = Done pl1" "pl1 = pl \<and> \<not> thread_safe (pool_config pl) \<or> pl1 = pl\<lparr>pool_mutex := True\<rparr> \<and> thread_safe (pool_config pl)"
    using m by (cases "thread_safe (pool_config pl)") (auto simp: pool_lock_def)
  have ok1: "pool_ok g pl1 us fs lost" and u1: "in_use pl1 = in_use pl" using ok pl1(2) by auto
  have path: "path (blocks pl1) (all_blocks pl1) (us @ fs) NULL"
    using ok1 by (auto simp: pool_ok_def pool_shape_def path_append)
  define q where "q = (case find (\<lambda>b. pb_data (the (blocks pl1 b)) = d) (us @ fs) of NULL \<Rightarrow> pl1 | Some b \<Rightarrow> give_back_block pl1 b)"
  note s = search_ok [OF ok1 q_def]
  have "pool_release pl (Some d) = Some (Done (pool_unlock q))"
    using find_block_path [OF path, of d] pl1(1) by (simp add: pool_release_def q_def)
  moreover have "\<not> pool_mutex (pool_unlock q)" using s pl1(2) m by (auto simp: pool_unlock_def)
  moreover have "pool_config pl1 = pool_config pl" "current_blocks pl1 = current_blocks pl" using pl1(2) by auto
  moreover obtain us' fs' lost' where "pool_ok g (pool_unlock q) us' fs' lost'" using s by auto
  moreover have "in_use pl - {d} \<subseteq> in_use (pool_unlock q)" "pool_config (pool_unlock q) = pool_config pl1"
    "current_blocks (pool_unlock q) = current_blocks pl1"
    using s u1 by simp_all
  ultimately show ?thesis by (intro exI [of _ "pool_unlock q"]) auto
qed

section \<open>Runs of a pool\<close>

text \<open>The states of a pool with the addresses that were handed out and not given back. Anything may be given
  back. In between, other users of the memory manager may do what they like as long as they leave the
  memory of the pool alone.\<close>

inductive pool_reach :: "libc_malloc \<Rightarrow> memory_mgr \<Rightarrow> xsan_memory_pool \<Rightarrow> addr set \<Rightarrow> bool" for L where
  Create: "xsan_memory_pool_create L ok g (Some cfg) = Done (g', Some pl) \<Longrightarrow> pool_reach L g' pl {}"
| Alloc: "pool_reach L g pl out \<Longrightarrow> xsan_memory_pool_alloc L g (Some pl) = Done (g', Some pl', p) \<Longrightarrow>
    pool_reach L g' pl' (out \<union> set_option p)"
| Free: "pool_reach L g pl out \<Longrightarrow> xsan_memory_pool_free (Some pl) (Some d) = Some (Done (Some pl')) \<Longrightarrow> pool_reach L g pl' (out - {d})"
| Outside: "pool_reach L g pl out \<Longrightarrow> data_live g' pl \<Longrightarrow> pool_reach L g' pl out"

definition pool_inv :: "memory_mgr \<Rightarrow> xsan_memory_pool \<Rightarrow> addr set \<Rightarrow> bool" where
  "pool_inv g pl out \<longleftrightarrow> (\<exists>us fs lost. pool_ok g pl us fs lost) \<and> \<not> pool_mutex pl \<and> out \<subseteq> in_use pl \<and>
     unat (current_blocks pl) \<le> max (unat (initial_blocks (pool_config pl))) (unat (max_blocks (pool_config pl)))"

lemma pool_reach_inv:
  assumes "pool_reach L g pl out" and L: "libc_ok L"
  shows "pool_inv g pl out"
  using assms(1)
proof (induction rule: pool_reach.induct)
  case (Create ok g cfg g' pl)
  then show ?case using create_ok [OF L Create] by (auto simp: pool_inv_def)
next
  case (Alloc g pl out g' pl' p)
  then obtain us fs lost where "pool_ok g pl us fs lost" "\<not> pool_mutex pl" by (auto simp: pool_inv_def)
  from alloc_ok [OF L this alloc_Some [THEN iffD1, OF Alloc.hyps(2)]] Alloc.IH show ?case by (auto simp: pool_inv_def)
next
  case (Free g pl out d pl')
  then obtain us fs lost where "pool_ok g pl us fs lost" "\<not> pool_mutex pl" by (auto simp: pool_inv_def)
  from free_ok [OF this, of d] Free.IH free_Some [THEN iffD1, OF Free.hyps(2)] show ?case by (auto simp: pool_inv_def)
next
  case (Outside g pl out g')
  then show ?case by (auto simp: pool_inv_def pool_ok_def)
qed

text \<open>C10: A pool never hands out memory that somebody still has: in every state of a pool, after whatever was
  allocated and given back, an allocation gives an address that is not handed out and that is memory of the
  manager; giving back any address ends, and the pool has no more blocks than its initial number and its
  maximum allow.\<close>

theorem pool_never_shares:
  assumes "pool_reach L g pl out" and "libc_ok L"
  shows "(\<forall>g' pl' d. xsan_memory_pool_alloc L g (Some pl) = Done (g', Some pl', Some d) \<longrightarrow> d \<notin> out \<and> data g' d \<noteq> None) \<and>
    (\<forall>d. \<exists>pl'. xsan_memory_pool_free (Some pl) (Some d) = Some (Done (Some pl'))) \<and>
    unat (current_blocks pl) \<le> max (unat (initial_blocks (pool_config pl))) (unat (max_blocks (pool_config pl)))"
proof -
  obtain us fs lost where ok: "pool_ok g pl us fs lost" "\<not> pool_mutex pl" and out: "out \<subseteq> in_use pl"
    "unat (current_blocks pl) \<le> max (unat (initial_blocks (pool_config pl))) (unat (max_blocks (pool_config pl)))"
    using pool_reach_inv [OF assms] by (auto simp: pool_inv_def)
  have "d \<notin> out \<and> data g' d \<noteq> None" if "pool_alloc L g pl = Done (g', pl', Some d)" for g' pl' d
    using alloc_ok [OF assms(2) ok that] out(1) by auto
  with free_ok [OF ok] out(2) show ?thesis unfolding alloc_Some free_Some by blast
qed

definition sample_pool_config :: xsan_memory_pool_config where
  "sample_pool_config = \<lparr>pool_block_size = 64, initial_blocks = 1, max_blocks = 2, thread_safe = True\<rparr>"

lemma sizeof_pool_nonzero: "sizeof_pool \<noteq> 0"
  by (simp add: sizeof_pool_def)

lemma sample_malloc:
  assumes "\<not> mm_initialized g" "\<not> mm_mutex g" "dom (data g) = set [1..<k]" "0 < k" "n \<noteq> 0" "l = k + 1"
  shows "\<exists>g'. xsan_malloc sample_libc g n = Done (g', Some k) \<and> \<not> mm_initialized g' \<and> \<not> mm_mutex g' \<and>
    dom (data g') = set [1..<l]"
proof -
  have "Max (insert 0 (dom (data g))) = k - 1" using assms(3,4) by (intro Max_eqI) auto
  then have "sample_libc (data g) n = Some (k, replicate (unat n) 7)" using assms(3,4) by (simp add: sample_libc_def)
  with assms show ?thesis by (auto simp: xsan_malloc_def mm_lock_def mm_unlock_def)
qed

lemma sample_block:
  assumes "\<not> mm_initialized g" "\<not> mm_mutex g" "dom (data g) = set [1..<k]" "0 < k" "n \<noteq> 0" "d = k + 1" "l = k + 2"
  shows "\<exists>g'. new_pool_block sample_libc g n = Done (g', Some (k, d)) \<and> \<not> mm_initialized g' \<and> \<not> mm_mutex g' \<and>
    dom (data g') = set [1..<l]"
proof -
  obtain h where h: "xsan_malloc sample_libc g sizeof_pool_block = Done (h, Some k)" "\<not> mm_initialized h" "\<not> mm_mutex h"
    "dom (data h) = set [1..<d]"
    using sample_malloc [OF assms(1-4) _ assms(6), of sizeof_pool_block] by (auto simp: sizeof_pool_block_def)
  from sample_malloc [OF h(2-4) _ assms(5), of l] h(1) assms(6,7) show ?thesis by (auto simp: new_pool_block_def)
qed

theorem pool_never_shares_witness:
  "\<exists>g pl g' pl'. pool_reach sample_libc g pl {3} \<and> xsan_memory_pool_alloc sample_libc g (Some pl) = Done (g', Some pl', Some 5) \<and>
     (5 :: addr) \<notin> {3} \<and> data g' 5 \<noteq> None"
proof -
  have "dom (data sample_mgr) = set [1..<1]" "\<not> mm_initialized sample_mgr" "\<not> mm_mutex sample_mgr"
    by (simp_all add: sample_mgr_def)
  then obtain g1 where g1: "xsan_malloc sample_libc sample_mgr sizeof_pool = Done (g1, Some 1)" "\<not> mm_initialized g1"
    "\<not> mm_mutex g1" "dom (data g1) = set [1..<2]"
    using sample_malloc [of sample_mgr 1 sizeof_pool 2] sizeof_pool_nonzero by auto
  have "\<exists>g'. new_pool_block sample_libc g1 64 = Done (g', Some (2, 3)) \<and> \<not> mm_initialized g' \<and> \<not> mm_mutex g' \<and>
      dom (data g') = set [1..<4]"
    by (rule sample_block [OF g1(2-4)]) simp_all
  then obtain g2 where g2: "new_pool_block sample_libc g1 64 = Done (g2, Some (2, 3))" "\<not> mm_initialized g2" "\<not> mm_mutex g2"
    "dom (data g2) = set [1..<4]"
    by blast
  let ?pl = "\<lparr>pool_config = sample_pool_config, free_blocks = Some 2, all_blocks = Some 2, current_blocks = 1, pool_mutex = False,
     pool_addr = 1, blocks = [2 \<mapsto> \<lparr>pb_data = 3, pb_in_use = False, pb_next = NULL\<rparr>]\<rparr>"
  have c: "xsan_memory_pool_create sample_libc True sample_mgr (Some sample_pool_config) = Done (g2, Some ?pl)"
    using g1(1) g2(1) by (simp add: xsan_memory_pool_create_def sample_pool_config_def)
  note r = pool_reach.Create [OF c]
  define g3 where "g3 = g2\<lparr>mm_stats := (mm_stats g2)\<lparr>pool_hits := pool_hits (mm_stats g2) + 1\<rparr>, mm_mutex := False\<rparr>"
  let ?pl3 = "?pl\<lparr>free_blocks := NULL, blocks := [2 \<mapsto> \<lparr>pb_data = 3, pb_in_use = True, pb_next = NULL\<rparr>]\<rparr>"
  have a: "pool_alloc sample_libc g2 ?pl = Done (g3, ?pl3, Some 3)"
    using g2(3) by (simp add: pool_alloc_def pool_lock_def pool_unlock_def pool_take_def pool_hit_def mm_lock_def
        mm_unlock_def sample_pool_config_def g3_def)
  have r3: "pool_reach sample_libc g3 ?pl3 {3}" using pool_reach.Alloc [OF r alloc_Some [THEN iffD2, OF a]] by simp
  have "\<exists>g'. new_pool_block sample_libc g3 64 = Done (g', Some (4, 5)) \<and> \<not> mm_initialized g' \<and> \<not> mm_mutex g' \<and>
      dom (data g') = set [1..<6]"
    by (rule sample_block) (use g2(2-4) in \<open>simp_all add: g3_def\<close>)
  then obtain g4 where g4: "new_pool_block sample_libc g3 64 = Done (g4, Some (4, 5))" "\<not> mm_mutex g4" by blast
  then obtain g5 pl5 where alloc: "pool_alloc sample_libc g3 ?pl3 = Done (g5, pl5, Some 5)"
    by (simp add: pool_alloc_def pool_lock_def pool_unlock_def pool_grow_def pool_hit_def mm_lock_def
        mm_unlock_def sample_pool_config_def)
  then have "xsan_memory_pool_alloc sample_libc g3 (Some ?pl3) = Done (g5, Some pl5, Some 5)" by (simp only: alloc_Some)
  with pool_never_shares [OF r3 sample_libc_ok] r3 show ?thesis by blast
qed

text \<open>Giving back a block that was not the last one handed out cuts the list of all blocks, and the blocks behind
  it that are in use can never be given back: nothing happens when that is tried.\<close>

lemma pool_block_lost:
  assumes ok: "pool_ok g pl us fs lost" and m: "\<not> pool_mutex pl" and b: "b \<in> lost" "blocks pl b = Some blk"
  shows "pool_release pl (Some (pb_data blk)) = Some (Done pl)"
proof -
  have path: "path (blocks pl) (all_blocks pl) (us @ fs) NULL"
    using ok by (auto simp: pool_ok_def pool_shape_def path_append)
  have "b \<notin> set (us @ fs)" using ok b by (auto simp: pool_ok_def pool_shape_def)
  moreover have "c = b" if "c \<in> set (us @ fs)" "pb_data (the (blocks pl c)) = pb_data blk" for c
    using ok b(2) that path_blocks [OF path] unfolding pool_ok_def data_distinct_def by (metis domD option.sel subsetD)
  ultimately have "find (\<lambda>c. pb_data (the (blocks pl c)) = pb_data blk) (us @ fs) = None" by (auto simp: find_None_iff)
  with find_block_path [OF path, of "pb_data blk"] m show ?thesis
    by (cases "thread_safe (pool_config pl)") (auto simp: pool_release_def pool_lock_def pool_unlock_def)
qed

end
