(* ===== verification/EventLoop.thy ===== *)
theory EventLoop
  imports Errors Interfaces "HOL-Library.Sublist"
begin

text \<open>
  The event loop of src/network/event\_loop.c over the \<^verbatim>\<open>epoll\<close> calls of Linux.

  The record \<open>event_loop\<close> has the fields of the structure and, in \<open>interest\<close>, what the kernel keeps for the
  epoll instance: the watched descriptors with their events. \<open>epoll_ctl\<close> is the documented behaviour of
  that call; a failure for any other reason is an argument of the operations. Callbacks are values of a
  type parameter, and what a callback does to the loop is an argument of \<open>xsan_event_loop_poll\<close>, so that it
  may add and remove descriptors. An \<^verbatim>\<open>int\<close> that overflows counts as an invalid access.

  The table of callbacks has an entry exactly for the descriptors that the kernel watches, every operation
  either succeeds with its effect or leaves the registry as it was, and a poll calls for each event the
  callback that is registered for its descriptor.
\<close>

section \<open>Events\<close>

definition XSAN_EVENT_TYPE_NONE :: u32 where "XSAN_EVENT_TYPE_NONE = 0"
definition XSAN_EVENT_TYPE_READ :: u32 where "XSAN_EVENT_TYPE_READ = 1"
definition XSAN_EVENT_TYPE_WRITE :: u32 where "XSAN_EVENT_TYPE_WRITE = 2"
definition XSAN_EVENT_TYPE_ERROR :: u32 where "XSAN_EVENT_TYPE_ERROR = 4"
definition XSAN_EVENT_TYPE_HANGUP :: u32 where "XSAN_EVENT_TYPE_HANGUP = 8"

definition EPOLLIN :: u32 where "EPOLLIN = 1"
definition EPOLLOUT :: u32 where "EPOLLOUT = 4"
definition EPOLLERR :: u32 where "EPOLLERR = 8"
definition EPOLLHUP :: u32 where "EPOLLHUP = 16"

lemmas event_codes = XSAN_EVENT_TYPE_NONE_def XSAN_EVENT_TYPE_READ_def XSAN_EVENT_TYPE_WRITE_def
  XSAN_EVENT_TYPE_ERROR_def XSAN_EVENT_TYPE_HANGUP_def EPOLLIN_def EPOLLOUT_def EPOLLERR_def EPOLLHUP_def

definition xsan_to_epoll_events :: "u32 \<Rightarrow> u32" where
  "xsan_to_epoll_events xsan_events =
     (let ep_events = 0;
          ep_events = (if xsan_events AND XSAN_EVENT_TYPE_READ \<noteq> 0 then ep_events OR EPOLLIN else ep_events);
          ep_events = (if xsan_events AND XSAN_EVENT_TYPE_WRITE \<noteq> 0 then ep_events OR EPOLLOUT else ep_events);
          ep_events = (if xsan_events AND XSAN_EVENT_TYPE_ERROR \<noteq> 0 then ep_events OR EPOLLERR else ep_events);
          ep_events = (if xsan_events AND XSAN_EVENT_TYPE_HANGUP \<noteq> 0 then ep_events OR EPOLLHUP else ep_events)
      in ep_events)"

definition epoll_to_xsan_events :: "u32 \<Rightarrow> u32" where
  "epoll_to_xsan_events ep_events =
     (let xsan_events = XSAN_EVENT_TYPE_NONE;
          xsan_events = (if ep_events AND EPOLLIN \<noteq> 0 then xsan_events OR XSAN_EVENT_TYPE_READ else xsan_events);
          xsan_events = (if ep_events AND EPOLLOUT \<noteq> 0 then xsan_events OR XSAN_EVENT_TYPE_WRITE else xsan_events);
          xsan_events = (if ep_events AND EPOLLERR \<noteq> 0 then xsan_events OR XSAN_EVENT_TYPE_ERROR else xsan_events);
          xsan_events = (if ep_events AND EPOLLHUP \<noteq> 0 then xsan_events OR XSAN_EVENT_TYPE_HANGUP else xsan_events)
      in xsan_events)"

section \<open>The loop\<close>

definition XSAN_EVENT_LOOP_DEFAULT_MAP_SIZE :: nat where "XSAN_EVENT_LOOP_DEFAULT_MAP_SIZE = 1024"

record ('c, 'u) xsan_fd_event_data =
  fd_callback :: "'c ptr"
  fd_user_data :: "'u ptr"

record ('c, 'u) event_loop =
  epoll_fd :: int
  max_events_per_poll :: nat
  epoll_events_buf :: "(int \<times> u32) list"
  fd_data_map :: "('c, 'u) xsan_fd_event_data list"
  fd_data_map_capacity :: nat
  interest :: "int \<rightharpoonup> u32"

definition no_event_data :: "('c, 'u) xsan_fd_event_data" where
  "no_event_data = \<lparr>fd_callback = NULL, fd_user_data = NULL\<rparr>"

text \<open>The doubling in \<^verbatim>\<open>ensure_fd_map_capacity\<close>. It would go on for ever from zero, and it overflows for
  descriptors from \<open>2\<^sup>3\<^sup>0\<close> on.\<close>

function grow_capacity :: "int \<Rightarrow> nat \<Rightarrow> nat run" where
  "grow_capacity fd new_capacity =
     (if fd < int new_capacity then Done new_capacity
      else if new_capacity = 0 then Deadlock
      else if 2 * new_capacity \<ge> 2 ^ 31 then Bad_access
      else grow_capacity fd (2 * new_capacity))"
  by pat_completeness auto

termination
  by (relation "measure (\<lambda>(_, n). 2 ^ 31 - n)") auto

definition ensure_fd_map_capacity ::
  "bool \<Rightarrow> ('c, 'u) event_loop \<Rightarrow> int \<Rightarrow> (('c, 'u) event_loop \<times> xsan_error) run" where
  "ensure_fd_map_capacity calloc_ok loop fd =
     (if fd < int (fd_data_map_capacity loop) then Done (loop, XSAN_OK)
      else
        bind_run (grow_capacity fd (if fd_data_map_capacity loop = 0 then XSAN_EVENT_LOOP_DEFAULT_MAP_SIZE
                                    else fd_data_map_capacity loop)) (\<lambda>new_capacity.
          if new_capacity > 1024 * 1024 then Done (loop, XSAN_ERROR_NO_MEMORY)
          else if \<not> calloc_ok then Done (loop, XSAN_ERROR_NO_MEMORY)
          else
            Done (loop\<lparr>fd_data_map := take (fd_data_map_capacity loop) (fd_data_map loop) @
                         replicate (new_capacity - fd_data_map_capacity loop) no_event_data,
                       fd_data_map_capacity := new_capacity\<rparr>, XSAN_OK)))"

text \<open>What the loop holds. Creating it takes these in turn, with the outcome of each request as an argument,
  and gives back what it has taken when a later one fails; destroying it gives all of them back. Growing the
  table replaces one block by another, which is not recorded.\<close>

datatype loop_resource = Loop_structure | Epoll_instance | Events_buffer | Fd_table

definition xsan_event_loop_create ::
  "bool \<Rightarrow> int \<Rightarrow> bool \<Rightarrow> bool \<Rightarrow> int
     \<Rightarrow> (('c, 'u) event_loop ptr \<times> loop_resource resource_call list) run" where
  "xsan_event_loop_create malloc_ok epoll_create1 buf_ok map_ok max_events =
     (if max_events \<le> 0 then Done (NULL, [])
      else if \<not> malloc_ok then Done (NULL, [])
      else if epoll_create1 = - 1 then Done (NULL, [Take Loop_structure, Give Loop_structure])
      else if \<not> buf_ok then
        Done (NULL, [Take Loop_structure, Take Epoll_instance, Give Epoll_instance, Give Loop_structure])
      else
        bind_run (ensure_fd_map_capacity map_ok
            \<lparr>epoll_fd = epoll_create1, max_events_per_poll = nat max_events,
             epoll_events_buf = replicate (nat max_events) (0, 0),
             fd_data_map = [], fd_data_map_capacity = 0, interest = Map.empty\<rparr>
            (int XSAN_EVENT_LOOP_DEFAULT_MAP_SIZE - 1)) (\<lambda>(loop, err).
          if err \<noteq> XSAN_OK then
            Done (NULL, [Take Loop_structure, Take Epoll_instance, Take Events_buffer,
                         Give Events_buffer, Give Epoll_instance, Give Loop_structure])
          else Done (Some loop, [Take Loop_structure, Take Epoll_instance, Take Events_buffer, Take Fd_table])))"

definition xsan_event_loop_destroy :: "('c, 'u) event_loop ptr \<Rightarrow> loop_resource resource_call list" where
  "xsan_event_loop_destroy loop =
     (case loop of
        NULL \<Rightarrow> []
      | Some l \<Rightarrow>
          (if epoll_fd l \<noteq> - 1 then [Give Epoll_instance] else []) @
          [Give Events_buffer, Give Fd_table, Give Loop_structure])"

section \<open>Descriptors\<close>

datatype epoll_op = EPOLL_CTL_ADD | EPOLL_CTL_MOD | EPOLL_CTL_DEL

text \<open>The error number, or the watched descriptors afterwards. \<open>failure\<close> is an error other than those that
  follow from the watched descriptors.\<close>

definition epoll_ctl :: "int option \<Rightarrow> epoll_op \<Rightarrow> int \<Rightarrow> u32 \<Rightarrow> (int \<rightharpoonup> u32) \<Rightarrow> int + (int \<rightharpoonup> u32)" where
  "epoll_ctl failure operation fd ev watched =
     (case failure of
        Some e \<Rightarrow> Inl e
      | None \<Rightarrow>
          (case operation of
             EPOLL_CTL_ADD \<Rightarrow> if watched fd \<noteq> None then Inl EEXIST else Inr (watched(fd \<mapsto> ev))
           | EPOLL_CTL_MOD \<Rightarrow> if watched fd = None then Inl ENOENT else Inr (watched(fd \<mapsto> ev))
           | EPOLL_CTL_DEL \<Rightarrow> if watched fd = None then Inl ENOENT else Inr (watched(fd := None))))"

definition store_event_data ::
  "('c, 'u) event_loop \<Rightarrow> int \<Rightarrow> ('c, 'u) xsan_fd_event_data \<Rightarrow> ('c, 'u) event_loop run" where
  "store_event_data l fd d =
     (if nat fd \<ge> length (fd_data_map l) then Bad_access
      else Done (l\<lparr>fd_data_map := (fd_data_map l)[nat fd := d]\<rparr>))"

definition xsan_event_loop_add_fd ::
  "bool \<Rightarrow> int option \<Rightarrow> ('c, 'u) event_loop ptr \<Rightarrow> int \<Rightarrow> u32 \<Rightarrow> 'c ptr \<Rightarrow> 'u ptr
     \<Rightarrow> (('c, 'u) event_loop ptr \<times> xsan_error) run" where
  "xsan_event_loop_add_fd calloc_ok failure loop fd events callback user_data =
     (case loop of
        NULL \<Rightarrow> Done (NULL, XSAN_ERROR_CONFIG_PARSE)
      | Some l \<Rightarrow>
          if fd < 0 \<or> callback = NULL then Done (Some l, XSAN_ERROR_CONFIG_PARSE)
          else
            bind_run (ensure_fd_map_capacity calloc_ok l fd) (\<lambda>(l, err).
              if err \<noteq> XSAN_OK then Done (Some l, err)
              else
                (case epoll_ctl failure EPOLL_CTL_ADD fd (xsan_to_epoll_events events) (interest l) of
                   Inl e \<Rightarrow> Done (Some l, xsan_error_from_errno e)
                 | Inr watched \<Rightarrow>
                     bind_run (store_event_data (l\<lparr>interest := watched\<rparr>) fd
                         \<lparr>fd_callback = callback, fd_user_data = user_data\<rparr>) (\<lambda>l.
                       Done (Some l, XSAN_OK)))))"

text \<open>Modifying reads the entry of the descriptor before it asks the kernel, and does nothing with it.\<close>

definition xsan_event_loop_modify_fd ::
  "bool \<Rightarrow> int option \<Rightarrow> ('c, 'u) event_loop ptr \<Rightarrow> int \<Rightarrow> u32 \<Rightarrow> 'c ptr \<Rightarrow> 'u ptr
     \<Rightarrow> (('c, 'u) event_loop ptr \<times> xsan_error) run" where
  "xsan_event_loop_modify_fd calloc_ok failure loop fd events callback user_data =
     (case loop of
        NULL \<Rightarrow> Done (NULL, XSAN_ERROR_CONFIG_PARSE)
      | Some l \<Rightarrow>
          if fd < 0 \<or> callback = NULL then Done (Some l, XSAN_ERROR_CONFIG_PARSE)
          else
            bind_run (ensure_fd_map_capacity calloc_ok l fd) (\<lambda>(l, err).
              if err \<noteq> XSAN_OK then Done (Some l, err)
              else if nat fd \<ge> length (fd_data_map l) then Bad_access
              else
                (case epoll_ctl failure EPOLL_CTL_MOD fd (xsan_to_epoll_events events) (interest l) of
                   Inl e \<Rightarrow> Done (Some l, xsan_error_from_errno e)
                 | Inr watched \<Rightarrow>
                     bind_run (store_event_data (l\<lparr>interest := watched\<rparr>) fd
                         \<lparr>fd_callback = callback, fd_user_data = user_data\<rparr>) (\<lambda>l.
                       Done (Some l, XSAN_OK)))))"

definition xsan_event_loop_remove_fd ::
  "int option \<Rightarrow> ('c, 'u) event_loop ptr \<Rightarrow> int \<Rightarrow> (('c, 'u) event_loop ptr \<times> xsan_error) run" where
  "xsan_event_loop_remove_fd failure loop fd =
     (case loop of
        NULL \<Rightarrow> Done (NULL, XSAN_ERROR_CONFIG_PARSE)
      | Some l \<Rightarrow>
          if fd < 0 then Done (Some l, XSAN_ERROR_CONFIG_PARSE)
          else
            (case epoll_ctl failure EPOLL_CTL_DEL fd 0 (interest l) of
               Inl e \<Rightarrow> Done (Some l, xsan_error_from_errno e)
             | Inr watched \<Rightarrow>
                 if fd < int (fd_data_map_capacity l) then
                   bind_run (store_event_data (l\<lparr>interest := watched\<rparr>) fd no_event_data) (\<lambda>l.
                     Done (Some l, XSAN_OK))
                 else Done (Some (l\<lparr>interest := watched\<rparr>), XSAN_OK)))"

section \<open>Polling\<close>

text \<open>What \<^verbatim>\<open>epoll_wait\<close> returns: an error number, or the events that it has written to the buffer.\<close>

datatype wait_result = Wait_error int | Wait_events "(int \<times> u32) list"

type_synonym ('c, 'u) callback_effect =
  "'c \<Rightarrow> ('c, 'u) event_loop \<Rightarrow> int \<Rightarrow> u32 \<Rightarrow> 'u ptr \<Rightarrow> ('c, 'u) event_loop run"

type_synonym ('c, 'u) callback_call = "'c \<times> int \<times> u32 \<times> 'u ptr"

text \<open>The loop over the events \<open>i, \<dots>, i + n - 1\<close> of the buffer, with the calls it makes.\<close>

definition handle_event ::
  "('c, 'u) callback_effect \<Rightarrow> int \<times> u32 \<Rightarrow> ('c, 'u) event_loop \<Rightarrow> (('c, 'u) event_loop \<times> ('c, 'u) callback_call list) run" where
  "handle_event effect e l =
     (case e of (event_fd, ep_events) \<Rightarrow>
        if 0 \<le> event_fd \<and> event_fd < int (fd_data_map_capacity l) then
          (if nat event_fd \<ge> length (fd_data_map l) then Bad_access
           else
             (let d = fd_data_map l ! nat event_fd; xsan_events = epoll_to_xsan_events ep_events in
              case fd_callback d of
                NULL \<Rightarrow> Done (l, [])
              | Some c \<Rightarrow>
                  bind_run (effect c l event_fd xsan_events (fd_user_data d)) (\<lambda>l'.
                    Done (l', [(c, event_fd, xsan_events, fd_user_data d)]))))
        else Done (l, []))"

fun poll_events ::
  "('c, 'u) callback_effect \<Rightarrow> nat \<Rightarrow> nat \<Rightarrow> ('c, 'u) event_loop \<Rightarrow> (('c, 'u) event_loop \<times> ('c, 'u) callback_call list) run" where
  "poll_events effect i 0 l = Done (l, [])"
| "poll_events effect i (Suc n) l =
     (if i \<ge> length (epoll_events_buf l) then Bad_access
      else
        bind_run (handle_event effect (epoll_events_buf l ! i) l) (\<lambda>(l, calls).
          bind_run (poll_events effect (Suc i) n l) (\<lambda>(l, calls'). Done (l, calls @ calls'))))"

definition xsan_event_loop_poll ::
  "('c, 'u) callback_effect \<Rightarrow> wait_result \<Rightarrow> ('c, 'u) event_loop ptr
     \<Rightarrow> (int \<times> ('c, 'u) event_loop ptr \<times> ('c, 'u) callback_call list) run" where
  "xsan_event_loop_poll effect wait loop =
     (case loop of
        NULL \<Rightarrow> Done (- 1, NULL, [])
      | Some l \<Rightarrow>
          (case wait of
             Wait_error e \<Rightarrow> Done (if e = EINTR then 0 else - 1, Some l, [])
           | Wait_events evs \<Rightarrow>
               bind_run (poll_events effect 0 (length evs)
                   (l\<lparr>epoll_events_buf := evs @ drop (length evs) (epoll_events_buf l)\<rparr>)) (\<lambda>(l, calls).
                 Done (int (length evs), Some l, calls))))"

section \<open>Facts\<close>

declare grow_capacity.simps [simp del]

lemma and_power_of_two: "(x :: u32) AND 2 ^ k = (if bit x k then 2 ^ k else 0)"
  by (rule bit_eqI) (auto simp: bit_and_iff bit_exp_iff)

lemma and_15: "(x :: u32) AND 15 = (x AND 1) OR (x AND 2) OR (x AND 4) OR (x AND 8)"
proof -
  have "(15 :: u32) = 1 OR 2 OR 4 OR 8" by simp
  then show ?thesis by (simp only: bit.conj_disj_distrib)
qed

text \<open>Translating the requested events to those of the kernel and back keeps the four known ones.\<close>

lemma events_round_trip: "epoll_to_xsan_events (xsan_to_epoll_events e) = e AND 15"
proof -
  note bits = and_power_of_two [of e 0, simplified] and_power_of_two [of e 1, simplified]
    and_power_of_two [of e 2, simplified] and_power_of_two [of e 3, simplified]
  show ?thesis
    unfolding epoll_to_xsan_events_def xsan_to_epoll_events_def event_codes Let_def and_15 bits by simp
qed

text \<open>The capacities of the table are the doublings of the first one up to the limit.\<close>

definition capacity_ok :: "nat \<Rightarrow> bool" where
  "capacity_ok n \<longleftrightarrow> (\<exists>k\<le>10. n = 1024 * 2 ^ k)"

lemma capacity_limit: "capacity_ok n \<Longrightarrow> int n \<le> 2 ^ 20"
proof -
  assume "capacity_ok n"
  then obtain k where k: "k \<le> 10" "n = 1024 * 2 ^ k" unfolding capacity_ok_def by auto
  then have "(2 :: int) ^ k \<le> 2 ^ 10" by (intro power_increasing) auto
  with k show ?thesis by simp
qed

lemma grow_capacity_limit:
  assumes "k \<le> 20" "fd < 2 ^ 30"
  shows "\<exists>j. k \<le> j \<and> j \<le> 20 \<and> grow_capacity fd (1024 * 2 ^ k) = Done (1024 * 2 ^ j) \<and> fd < 1024 * 2 ^ j \<and>
           (k < j \<longrightarrow> 1024 * 2 ^ j \<le> 2 * fd)"
  using assms(1)
proof (induction "20 - k" arbitrary: k)
  case 0
  then have "k = 20" by simp
  with assms show ?case by (subst grow_capacity.simps) auto
next
  case (Suc n)
  show ?case
  proof (cases "fd < 1024 * 2 ^ k")
    case True
    then show ?thesis using Suc.prems by (subst grow_capacity.simps) auto
  next
    case False
    have k: "k < 20" and n: "n = 20 - Suc k" "Suc k \<le> 20" using Suc.hyps(2) by simp_all
    then have "(2 :: nat) ^ k \<le> 2 ^ 19" by (intro power_increasing) auto
    then have step: "grow_capacity fd (1024 * 2 ^ k) = grow_capacity fd (1024 * 2 ^ Suc k)"
      using False by (subst grow_capacity.simps) auto
    obtain j where j: "Suc k \<le> j" "j \<le> 20" "grow_capacity fd (1024 * 2 ^ Suc k) = Done (1024 * 2 ^ j)"
        "fd < 1024 * 2 ^ j" "Suc k < j \<longrightarrow> 1024 * 2 ^ j \<le> 2 * fd"
      using Suc.hyps(1) [OF n] by blast
    have "1024 * 2 ^ j \<le> 2 * fd"
      using j(1,5) False by (cases "Suc k = j") auto
    with j step show ?thesis by (intro exI [of _ j]) auto
  qed
qed

definition table_ok :: "('c, 'u) event_loop \<Rightarrow> bool" where
  "table_ok l \<longleftrightarrow> length (fd_data_map l) = fd_data_map_capacity l \<and> capacity_ok (fd_data_map_capacity l)"

lemma ensure_capacity:
  assumes "table_ok l" "fd < 2 ^ 30"
  shows "\<exists>n err. ensure_fd_map_capacity calloc_ok l fd =
             Done (l\<lparr>fd_data_map := fd_data_map l @ replicate n no_event_data,
                     fd_data_map_capacity := fd_data_map_capacity l + n\<rparr>, err) \<and>
           capacity_ok (fd_data_map_capacity l + n) \<and>
           (err = XSAN_OK \<longleftrightarrow> fd < 2 ^ 20 \<and> (fd < int (fd_data_map_capacity l) \<or> calloc_ok)) \<and>
           (err = XSAN_OK \<longrightarrow> fd < int (fd_data_map_capacity l + n))"
proof -
  obtain k where k: "k \<le> 10" "fd_data_map_capacity l = 1024 * 2 ^ k"
    and len: "length (fd_data_map l) = fd_data_map_capacity l"
    using assms(1) unfolding table_ok_def capacity_ok_def by auto
  have pow: "m \<le> 10 \<Longrightarrow> (1024 :: int) * 2 ^ m \<le> 2 ^ 20" for m
    using power_increasing [of m 10 "2 :: int"] by simp
  show ?thesis
  proof (cases "fd < 1024 * 2 ^ k")
    case True
    then show ?thesis
      using k pow [of k] by (intro exI [of _ 0]) (auto simp: ensure_fd_map_capacity_def capacity_ok_def)
  next
    case False
    obtain j where j: "k \<le> j" "j \<le> 20" "grow_capacity fd (1024 * 2 ^ k) = Done (1024 * 2 ^ j)"
        "fd < 1024 * 2 ^ j" "k < j \<longrightarrow> 1024 * 2 ^ j \<le> 2 * fd"
      using grow_capacity_limit [of k fd] k(1) assms(2) by auto
    have kj: "k < j" using False j(1,4) by (cases "k = j") auto
    have lim: "1024 * 2 ^ j > (1024 * 1024 :: nat) \<longleftrightarrow> \<not> fd < 2 ^ 20"
    proof (cases "j \<le> 10")
      case True
      then show ?thesis using pow [of j] power_increasing [of j 10 "2 :: nat"] j(4) by simp
    next
      case False
      then have "(2 :: nat) ^ 11 \<le> 2 ^ j" "(2 :: int) ^ 11 \<le> 2 ^ j" by (intro power_increasing; simp)+
      then show ?thesis using j(5) kj by simp
    qed
    have le: "1024 * 2 ^ k \<le> (1024 * 2 ^ j :: nat)" using j(1) by simp
    show ?thesis
    proof (cases "fd < 2 ^ 20 \<and> calloc_ok")
      case True
      then have "j \<le> 10" using lim power_strict_increasing_iff [of "2 :: nat" 10 j] by (simp add: not_less)
      then show ?thesis
        using True False k len j le lim
        by (intro exI [of _ "1024 * 2 ^ j - 1024 * 2 ^ k"] exI [of _ XSAN_OK])
          (auto simp: ensure_fd_map_capacity_def capacity_ok_def)
    next
      case no: False
      then show ?thesis
        using False k j lim
        by (intro exI [of _ 0] exI [of _ XSAN_ERROR_NO_MEMORY])
          (auto simp: ensure_fd_map_capacity_def capacity_ok_def)
    qed
  qed
qed

section \<open>The registry\<close>

text \<open>What the loop and the kernel know about a descriptor: the events, the callback and its argument. In a
  good loop the table has a callback exactly for the descriptors that the kernel watches.\<close>

definition registry :: "('c, 'u) event_loop \<Rightarrow> int \<rightharpoonup> u32 \<times> ('c, 'u) xsan_fd_event_data" where
  "registry l fd = map_option (\<lambda>ev. (ev, fd_data_map l ! nat fd)) (interest l fd)"

definition loop_ok :: "('c, 'u) event_loop \<Rightarrow> bool" where
  "loop_ok l \<longleftrightarrow> table_ok l \<and>
     (\<forall>fd. interest l fd \<noteq> None \<longleftrightarrow>
        0 \<le> fd \<and> fd < int (fd_data_map_capacity l) \<and> fd_callback (fd_data_map l ! nat fd) \<noteq> NULL)"

abbreviation grown :: "nat \<Rightarrow> ('c, 'u) event_loop \<Rightarrow> ('c, 'u) event_loop" where
  "grown n l \<equiv> l\<lparr>fd_data_map := fd_data_map l @ replicate n no_event_data,
                 fd_data_map_capacity := fd_data_map_capacity l + n\<rparr>"

lemma grown_ok:
  assumes "loop_ok l" "capacity_ok (fd_data_map_capacity l + n)"
  shows "loop_ok (grown n l)" "registry (grown n l) = registry l"
proof -
  have len: "length (fd_data_map l) = fd_data_map_capacity l"
    using assms(1) by (simp add: loop_ok_def table_ok_def)
  have none: "fd_callback (no_event_data :: ('a, 'b) xsan_fd_event_data) = NULL" by (simp add: no_event_data_def)
  have entry: "0 \<le> fd \<Longrightarrow> fd < int (fd_data_map_capacity l + n) \<Longrightarrow>
      (fd_data_map l @ replicate n no_event_data) ! nat fd =
        (if fd < int (fd_data_map_capacity l) then fd_data_map l ! nat fd else no_event_data)" for fd
    using len by (auto simp: nth_append nth_replicate nat_less_iff)
  show "loop_ok (grown n l)"
    using assms entry none by (auto simp: loop_ok_def table_ok_def split: if_splits)
  show "registry (grown n l) = registry l"
  proof
    fix fd
    have "interest l fd \<noteq> None \<Longrightarrow> 0 \<le> fd \<and> fd < int (fd_data_map_capacity l)"
      using assms(1) by (simp add: loop_ok_def)
    then show "registry (grown n l) fd = registry l fd"
      using entry [of fd] by (cases "interest l fd") (auto simp: registry_def)
  qed
qed

lemma store_entry:
  assumes "loop_ok l" "0 \<le> fd" "fd < int (fd_data_map_capacity l)" "(w = None) = (fd_callback d = NULL)"
  shows "\<exists>l'. store_event_data (l\<lparr>interest := (interest l)(fd := w)\<rparr>) fd d = Done l' \<and> loop_ok l' \<and>
           registry l' = (registry l)(fd := map_option (\<lambda>ev. (ev, d)) w) \<and>
           epoll_events_buf l' = epoll_events_buf l"
proof -
  let ?l = "l\<lparr>interest := (interest l)(fd := w), fd_data_map := (fd_data_map l)[nat fd := d]\<rparr>"
  have len: "length (fd_data_map l) = fd_data_map_capacity l" "nat fd < length (fd_data_map l)"
    using assms by (simp_all add: loop_ok_def table_ok_def nat_less_iff)
  have entry: "0 \<le> fd' \<Longrightarrow> (fd_data_map l)[nat fd := d] ! nat fd' = (if fd' = fd then d else fd_data_map l ! nat fd')" for fd'
    using len assms(2) by (auto simp: nth_list_update)
  have "loop_ok ?l"
    using assms entry by (auto simp: loop_ok_def table_ok_def)
  moreover have "registry ?l = (registry l)(fd := map_option (\<lambda>ev. (ev, d)) w)"
  proof
    fix fd'
    have "interest l fd' \<noteq> None \<Longrightarrow> 0 \<le> fd'" using assms(1) by (simp add: loop_ok_def)
    then show "registry ?l fd' = ((registry l)(fd := map_option (\<lambda>ev. (ev, d)) w)) fd'"
      using entry [of fd'] assms(2) by (cases "interest l fd'") (auto simp: registry_def)
  qed
  ultimately show ?thesis using len by (intro exI [of _ ?l]) (simp add: store_event_data_def)
qed

lemma errno_ok: "xsan_error_from_errno e = XSAN_OK \<longleftrightarrow> e = 0"
  by (simp add: xsan_error_from_errno_def)

text \<open>The common part of adding and modifying after the table has been made large enough.\<close>

lemma registered:
  assumes "loop_ok l" "0 \<le> fd" "fd < int (fd_data_map_capacity l)" "callback \<noteq> NULL" "failure \<noteq> Some 0"
    and op: "operation \<noteq> EPOLL_CTL_DEL"
  shows "\<exists>l' err.
       (case epoll_ctl failure operation fd ev (interest l) of
          Inl e \<Rightarrow> Done (Some l, xsan_error_from_errno e)
        | Inr watched \<Rightarrow>
            bind_run (store_event_data (l\<lparr>interest := watched\<rparr>) fd \<lparr>fd_callback = callback, fd_user_data = user\<rparr>)
              (\<lambda>l. Done (Some l, XSAN_OK))) = Done (Some l', err) \<and> loop_ok l' \<and>
       (err = XSAN_OK \<longleftrightarrow> failure = None \<and> (registry l fd = None \<longleftrightarrow> operation = EPOLL_CTL_ADD)) \<and>
       registry l' = (if err = XSAN_OK then (registry l)(fd \<mapsto> (ev, \<lparr>fd_callback = callback, fd_user_data = user\<rparr>))
                      else registry l)"
proof -
  have reg: "registry l fd = None \<longleftrightarrow> interest l fd = None" by (simp add: registry_def)
  obtain l' where "store_event_data (l\<lparr>interest := (interest l)(fd \<mapsto> ev)\<rparr>) fd
        \<lparr>fd_callback = callback, fd_user_data = user\<rparr> = Done l'" "loop_ok l'"
      "registry l' = (registry l)(fd \<mapsto> (ev, \<lparr>fd_callback = callback, fd_user_data = user\<rparr>))"
    using store_entry [OF assms(1-3), of "Some ev" "\<lparr>fd_callback = callback, fd_user_data = user\<rparr>"] assms(4) by auto
  then show ?thesis
    using assms reg by (cases failure; cases operation; cases "interest l fd")
      (auto simp: epoll_ctl_def errno_ok xsan_error_from_errno_def)
qed

definition event_data :: "u32 \<Rightarrow> 'c ptr \<Rightarrow> 'u ptr \<Rightarrow> u32 \<times> ('c, 'u) xsan_fd_event_data" where
  "event_data events callback user_data =
     (xsan_to_epoll_events events, \<lparr>fd_callback = callback, fd_user_data = user_data\<rparr>)"

lemma add_fd_spec:
  assumes "loop_ok l" "fd < 2 ^ 30" "failure \<noteq> Some 0"
  shows "\<exists>l' err. xsan_event_loop_add_fd calloc_ok failure (Some l) fd events callback user = Done (Some l', err) \<and>
           loop_ok l' \<and>
           (err = XSAN_OK \<longleftrightarrow> 0 \<le> fd \<and> fd < 2 ^ 20 \<and> callback \<noteq> NULL \<and> failure = None \<and> registry l fd = None \<and>
              (fd < int (fd_data_map_capacity l) \<or> calloc_ok)) \<and>
           registry l' = (if err = XSAN_OK then (registry l)(fd \<mapsto> event_data events callback user) else registry l)"
proof (cases "fd < 0 \<or> callback = NULL")
  case True
  then show ?thesis using assms(1) by (auto simp: xsan_event_loop_add_fd_def)
next
  case False
  have t: "table_ok l" using assms(1) by (simp add: loop_ok_def)
  obtain n err where n: "ensure_fd_map_capacity calloc_ok l fd = Done (grown n l, err)"
      "capacity_ok (fd_data_map_capacity l + n)"
      "err = XSAN_OK \<longleftrightarrow> fd < 2 ^ 20 \<and> (fd < int (fd_data_map_capacity l) \<or> calloc_ok)"
      "err = XSAN_OK \<longrightarrow> fd < int (fd_data_map_capacity l + n)"
    using ensure_capacity [OF t assms(2), of calloc_ok] by blast
  note g = grown_ok [OF assms(1) n(2)]
  show ?thesis
  proof (cases "err = XSAN_OK")
    case True
    have cap: "fd < int (fd_data_map_capacity (grown n l))" using n(4) True by simp
    show ?thesis
      using registered [OF g(1) _ cap, of callback failure EPOLL_CTL_ADD user "xsan_to_epoll_events events"]
        False True n(1,3) assms(3) unfolding xsan_event_loop_add_fd_def g(2) event_data_def by auto
  next
    case no: False
    then show ?thesis using g n(1,3) False unfolding xsan_event_loop_add_fd_def by auto
  qed
qed

lemma modify_fd_spec:
  assumes "loop_ok l" "fd < 2 ^ 30" "failure \<noteq> Some 0"
  shows "\<exists>l' err. xsan_event_loop_modify_fd calloc_ok failure (Some l) fd events callback user = Done (Some l', err) \<and>
           loop_ok l' \<and>
           (err = XSAN_OK \<longleftrightarrow> callback \<noteq> NULL \<and> failure = None \<and> registry l fd \<noteq> None) \<and>
           registry l' = (if err = XSAN_OK then (registry l)(fd \<mapsto> event_data events callback user) else registry l)"
proof (cases "fd < 0 \<or> callback = NULL")
  case True
  then show ?thesis
    using assms(1) by (auto simp: xsan_event_loop_modify_fd_def loop_ok_def registry_def)
next
  case False
  have t: "table_ok l" using assms(1) by (simp add: loop_ok_def)
  obtain n err where n: "ensure_fd_map_capacity calloc_ok l fd = Done (grown n l, err)"
      "capacity_ok (fd_data_map_capacity l + n)"
      "err = XSAN_OK \<longleftrightarrow> fd < 2 ^ 20 \<and> (fd < int (fd_data_map_capacity l) \<or> calloc_ok)"
      "err = XSAN_OK \<longrightarrow> fd < int (fd_data_map_capacity l + n)"
    using ensure_capacity [OF t assms(2), of calloc_ok] by blast
  note g = grown_ok [OF assms(1) n(2)]
  show ?thesis
  proof (cases "err = XSAN_OK")
    case True
    have cap: "fd < int (fd_data_map_capacity (grown n l))" using n(4) True by simp
    then have len: "\<not> nat fd \<ge> length (fd_data_map (grown n l))"
      using g(1) False by (simp add: loop_ok_def table_ok_def nat_less_iff not_le)
    show ?thesis
      using registered [OF g(1) _ cap, of callback failure EPOLL_CTL_MOD user "xsan_to_epoll_events events"]
        False True n(1) len assms(3) unfolding xsan_event_loop_modify_fd_def g(2) event_data_def by auto
  next
    case no: False
    have "registry l fd = None"
    proof (rule ccontr)
      assume "registry l fd \<noteq> None"
      then have "fd < int (fd_data_map_capacity l)" using assms(1) by (auto simp: loop_ok_def registry_def)
      moreover have "int (fd_data_map_capacity l) \<le> 2 ^ 20"
        using capacity_limit [of "fd_data_map_capacity l"] t by (simp add: table_ok_def)
      ultimately show False using no n(3) by simp
    qed
    then show ?thesis using g n(1) no False unfolding xsan_event_loop_modify_fd_def by auto
  qed
qed

lemma remove_fd_spec:
  assumes "loop_ok l" "failure \<noteq> Some 0"
  shows "\<exists>l' err. xsan_event_loop_remove_fd failure (Some l) fd = Done (Some l', err) \<and> loop_ok l' \<and>
           (err = XSAN_OK \<longleftrightarrow> failure = None \<and> registry l fd \<noteq> None) \<and>
           registry l' = (if err = XSAN_OK then (registry l)(fd := None) else registry l) \<and>
           epoll_events_buf l' = epoll_events_buf l"
proof (cases "interest l fd")
  case None
  then show ?thesis
    using assms by (cases failure)
      (auto simp: xsan_event_loop_remove_fd_def epoll_ctl_def errno_ok registry_def xsan_error_from_errno_def)
next
  case (Some ev)
  then have fd: "0 \<le> fd" "fd < int (fd_data_map_capacity l)" using assms(1) by (auto simp: loop_ok_def)
  obtain l' where "store_event_data (l\<lparr>interest := (interest l)(fd := None)\<rparr>) fd no_event_data = Done l'"
      "loop_ok l'" "registry l' = (registry l)(fd := None)" "epoll_events_buf l' = epoll_events_buf l"
    using store_entry [OF assms(1) fd, of None no_event_data] by (auto simp: no_event_data_def)
  then show ?thesis
    using Some fd assms by (cases failure)
      (auto simp: xsan_event_loop_remove_fd_def epoll_ctl_def errno_ok registry_def)
qed

text \<open>A fresh loop.\<close>

definition fresh_loop :: "int \<Rightarrow> nat \<Rightarrow> ('c, 'u) event_loop" where
  "fresh_loop epoll m =
     \<lparr>epoll_fd = epoll, max_events_per_poll = m, epoll_events_buf = replicate m (0, 0),
      fd_data_map = replicate 1024 no_event_data, fd_data_map_capacity = 1024, interest = Map.empty\<rparr>"

lemma create_cases:
  "xsan_event_loop_create malloc_ok epoll buf_ok map_ok max_events =
     (if 0 < max_events \<and> malloc_ok \<and> epoll \<noteq> - 1 \<and> buf_ok \<and> map_ok
      then Done (Some (fresh_loop epoll (nat max_events)),
                 [Take Loop_structure, Take Epoll_instance, Take Events_buffer, Take Fd_table])
      else Done (NULL, if max_events \<le> 0 \<or> \<not> malloc_ok then []
                       else if epoll = - 1 then [Take Loop_structure, Give Loop_structure]
                       else if \<not> buf_ok then
                         [Take Loop_structure, Take Epoll_instance, Give Epoll_instance, Give Loop_structure]
                       else [Take Loop_structure, Take Epoll_instance, Take Events_buffer,
                             Give Events_buffer, Give Epoll_instance, Give Loop_structure]))"
proof -
  have "grow_capacity 1023 1024 = Done 1024" by (subst grow_capacity.simps) simp
  then show ?thesis
    by (simp add: xsan_event_loop_create_def ensure_fd_map_capacity_def XSAN_EVENT_LOOP_DEFAULT_MAP_SIZE_def
        fresh_loop_def)
qed

lemma create_destroy:
  "xsan_event_loop_create malloc_ok epoll buf_ok map_ok max_events = Done (loop, calls) \<Longrightarrow>
     held {#} (calls @ xsan_event_loop_destroy loop) = Some {#}"
  unfolding create_cases by (auto simp: xsan_event_loop_destroy_def fresh_loop_def split: if_splits)

lemma fresh_loop_ok: "loop_ok (fresh_loop epoll m)" "registry (fresh_loop epoll m) = Map.empty"
proof -
  have "capacity_ok 1024" unfolding capacity_ok_def by (auto intro: exI [of _ 0])
  then show "loop_ok (fresh_loop epoll m)"
    by (auto simp: fresh_loop_def loop_ok_def table_ok_def no_event_data_def nat_less_iff)
  show "registry (fresh_loop epoll m) = Map.empty" by (simp add: registry_def fresh_loop_def fun_eq_iff)
qed

text \<open>The doubling overflows for descriptors that large.\<close>

lemma grow_capacity_overflow:
  "k \<le> 20 \<Longrightarrow> 2 ^ 30 \<le> fd \<Longrightarrow> grow_capacity fd (1024 * 2 ^ k) = Bad_access"
proof (induction "20 - k" arbitrary: k)
  case 0
  then have "k = 20" by simp
  with 0 show ?case by (subst grow_capacity.simps) auto
next
  case (Suc n)
  have k: "k < 20" and n: "n = 20 - Suc k" "Suc k \<le> 20" using Suc.hyps(2) by simp_all
  then have "(2 :: nat) ^ k \<le> 2 ^ 19" "(2 :: int) ^ k \<le> 2 ^ 19" by (intro power_increasing; simp)+
  then have "grow_capacity fd (1024 * 2 ^ k) = grow_capacity fd (1024 * 2 ^ Suc k)"
    using Suc.prems by (subst grow_capacity.simps) auto
  with Suc.hyps(1) [OF n] Suc.prems(2) show ?case by simp
qed

lemma ensure_overflow:
  assumes "table_ok l" "2 ^ 30 \<le> fd"
  shows "ensure_fd_map_capacity calloc_ok l fd = Bad_access"
proof -
  obtain k where k: "k \<le> 10" "fd_data_map_capacity l = 1024 * 2 ^ k"
    using assms(1) unfolding table_ok_def capacity_ok_def by auto
  have "(2 :: int) ^ k \<le> 2 ^ 10" using k(1) by (intro power_increasing) auto
  then show ?thesis
    using k assms(2) grow_capacity_overflow [of k fd] by (simp add: ensure_fd_map_capacity_def)
qed

text \<open>The loops that a program can get to, with the buffer that \<^verbatim>\<open>epoll_wait\<close> fills.\<close>

inductive el_reach :: "('c, 'u) event_loop \<Rightarrow> bool" where
  Created: "xsan_event_loop_create malloc_ok epoll buf_ok map_ok max_events = Done (Some l, calls) \<Longrightarrow> el_reach l"
| Added: "el_reach l \<Longrightarrow> failure \<noteq> Some 0 \<Longrightarrow>
    xsan_event_loop_add_fd calloc_ok failure (Some l) fd events callback user = Done (Some l', err) \<Longrightarrow> el_reach l'"
| Modified: "el_reach l \<Longrightarrow> failure \<noteq> Some 0 \<Longrightarrow>
    xsan_event_loop_modify_fd calloc_ok failure (Some l) fd events callback user = Done (Some l', err) \<Longrightarrow> el_reach l'"
| Removed: "el_reach l \<Longrightarrow> failure \<noteq> Some 0 \<Longrightarrow>
    xsan_event_loop_remove_fd failure (Some l) fd = Done (Some l', err) \<Longrightarrow> el_reach l'"
| Waited: "el_reach l \<Longrightarrow> el_reach (l\<lparr>epoll_events_buf := evs @ drop (length evs) (epoll_events_buf l)\<rparr>)"

lemma loop_ok_buf [simp]: "loop_ok (l\<lparr>epoll_events_buf := b\<rparr>) = loop_ok l"
  by (simp add: loop_ok_def table_ok_def)

lemma registry_buf [simp]: "registry (l\<lparr>epoll_events_buf := b\<rparr>) = registry l"
  by (simp add: registry_def fun_eq_iff)

lemma reach_loop_ok: "el_reach l \<Longrightarrow> loop_ok l"
proof (induction rule: el_reach.induct)
  case (Created malloc_ok epoll buf_ok map_ok max_events l calls)
  then show ?case using fresh_loop_ok(1) unfolding create_cases by (auto split: if_splits)
next
  case (Added l failure calloc_ok fd events callback user l' err)
  have t: "table_ok l" using Added.IH by (simp add: loop_ok_def)
  show ?case
  proof (cases "fd < 2 ^ 30")
    case True
    then show ?thesis using add_fd_spec [OF Added.IH True Added.hyps(2), of calloc_ok events callback user] Added.hyps(3) by auto
  next
    case False
    then show ?thesis
      using ensure_overflow [OF t, of fd calloc_ok] Added.hyps(3) Added.IH
      by (auto simp: xsan_event_loop_add_fd_def split: if_splits)
  qed
next
  case (Modified l failure calloc_ok fd events callback user l' err)
  have t: "table_ok l" using Modified.IH by (simp add: loop_ok_def)
  show ?case
  proof (cases "fd < 2 ^ 30")
    case True
    then show ?thesis
      using modify_fd_spec [OF Modified.IH True Modified.hyps(2), of calloc_ok events callback user] Modified.hyps(3) by auto
  next
    case False
    then show ?thesis
      using ensure_overflow [OF t, of fd calloc_ok] Modified.hyps(3) Modified.IH
      by (auto simp: xsan_event_loop_modify_fd_def split: if_splits)
  qed
next
  case (Removed l failure fd l' err)
  then show ?case using remove_fd_spec [OF Removed.IH Removed.hyps(2), of fd] by auto
qed simp

section \<open>Dispatch\<close>

text \<open>The call that an event leads to in a loop, and callbacks that at most remove descriptors.\<close>

definition expected_call :: "('c, 'u) event_loop \<Rightarrow> int \<times> u32 \<Rightarrow> ('c, 'u) callback_call list" where
  "expected_call l e =
     (case registry l (fst e) of
        None \<Rightarrow> []
      | Some (_, d) \<Rightarrow> [(the (fd_callback d), fst e, epoll_to_xsan_events (snd e), fd_user_data d)])"

definition only_removes :: "('c, 'u) callback_effect \<Rightarrow> bool" where
  "only_removes effect \<longleftrightarrow>
     (\<forall>c l fd ev u. loop_ok l \<longrightarrow> (\<exists>l'. effect c l fd ev u = Done l' \<and> loop_ok l' \<and>
        registry l' \<subseteq>\<^sub>m registry l \<and> epoll_events_buf l' = epoll_events_buf l))"

text \<open>Callbacks that leave the loop well-formed, whatever they add, change or remove, and the events in turn:
  each leads to the call that is registered when its turn comes, and the next one finds what the callback has
  left.\<close>

definition keeps_loop :: "('c, 'u) callback_effect \<Rightarrow> bool" where
  "keeps_loop effect \<longleftrightarrow>
     (\<forall>c l fd ev u. loop_ok l \<longrightarrow> (\<exists>l'. effect c l fd ev u = Done l' \<and> loop_ok l' \<and>
        epoll_events_buf l' = epoll_events_buf l))"

fun dispatch_events ::
  "('c, 'u) callback_effect \<Rightarrow> (int \<times> u32) list \<Rightarrow> ('c, 'u) event_loop
     \<Rightarrow> (('c, 'u) event_loop \<times> ('c, 'u) callback_call list) run" where
  "dispatch_events effect [] l = Done (l, [])"
| "dispatch_events effect (e # es) l =
     (case expected_call l e of
        [] \<Rightarrow> dispatch_events effect es l
      | (c, fd, ev, u) # _ \<Rightarrow>
          bind_run (effect c l fd ev u) (\<lambda>l1.
          bind_run (dispatch_events effect es l1) (\<lambda>(l', calls). Done (l', (c, fd, ev, u) # calls))))"

lemma only_removes_keeps: "only_removes effect \<Longrightarrow> keeps_loop effect"
  unfolding only_removes_def keeps_loop_def by blast

lemma handle_event_expected:
  assumes "loop_ok l"
  shows "handle_event effect e l =
     (case expected_call l e of
        [] \<Rightarrow> Done (l, [])
      | (c, fd, ev, u) # _ \<Rightarrow> bind_run (effect c l fd ev u) (\<lambda>l'. Done (l', expected_call l e)))"
proof (cases "interest l (fst e)")
  case None
  have "length (fd_data_map l) = fd_data_map_capacity l" using assms by (simp add: loop_ok_def table_ok_def)
  moreover have "0 \<le> fst e \<Longrightarrow> fst e < int (fd_data_map_capacity l) \<Longrightarrow> fd_callback (fd_data_map l ! nat (fst e)) = NULL"
    using None assms unfolding loop_ok_def by blast
  ultimately show ?thesis
    using None by (cases e) (auto simp: handle_event_def expected_call_def registry_def)
next
  case (Some ev)
  have "length (fd_data_map l) = fd_data_map_capacity l" using assms by (simp add: loop_ok_def table_ok_def)
  moreover obtain c where "0 \<le> fst e" "fst e < int (fd_data_map_capacity l)"
      "fd_callback (fd_data_map l ! nat (fst e)) = Some c"
    using Some assms unfolding loop_ok_def by blast
  ultimately show ?thesis
    using Some by (cases e) (auto simp: handle_event_def expected_call_def registry_def Let_def)
qed

lemma expected_call_shrinks:
  "registry l' \<subseteq>\<^sub>m registry l \<Longrightarrow> subseq (expected_call l' e) (expected_call l e)"
  by (cases "registry l' (fst e)") (auto simp: expected_call_def map_le_def dom_def)

lemma expected_calls_shrink:
  "registry l' \<subseteq>\<^sub>m registry l \<Longrightarrow>
     subseq (concat (map (expected_call l') es)) (concat (map (expected_call l) es))"
  by (induction es) (auto intro: list_emb_append_mono expected_call_shrinks)

lemma handle_removing:
  assumes "only_removes effect" "loop_ok l"
  shows "\<exists>l'. handle_event effect e l = Done (l', expected_call l e) \<and> loop_ok l' \<and>
           registry l' \<subseteq>\<^sub>m registry l \<and> epoll_events_buf l' = epoll_events_buf l"
proof (cases "expected_call l e")
  case Nil
  then show ?thesis using assms(2) by (simp add: handle_event_expected)
next
  case (Cons a as)
  obtain c fd ev u where a: "a = (c, fd, ev, u)" by (cases a)
  obtain l' where "effect c l fd ev u = Done l'" "loop_ok l'" "registry l' \<subseteq>\<^sub>m registry l"
      "epoll_events_buf l' = epoll_events_buf l"
    using assms unfolding only_removes_def by blast
  then show ?thesis using Cons a assms(2) by (simp add: handle_event_expected)
qed

lemma poll_removing:
  assumes "only_removes effect"
  shows "loop_ok l \<Longrightarrow> i + n \<le> length (epoll_events_buf l) \<Longrightarrow>
    \<exists>l' calls. poll_events effect i n l = Done (l', calls) \<and> loop_ok l' \<and> registry l' \<subseteq>\<^sub>m registry l \<and>
      subseq calls (concat (map (expected_call l) (take n (drop i (epoll_events_buf l)))))"
proof (induction n arbitrary: i l)
  case (Suc n)
  let ?e = "epoll_events_buf l ! i"
  have i: "i < length (epoll_events_buf l)" using Suc.prems(2) by simp
  then have tail: "take (Suc n) (drop i (epoll_events_buf l)) = ?e # take n (drop (Suc i) (epoll_events_buf l))"
    by (simp add: Cons_nth_drop_Suc [symmetric])
  obtain l1 where l1: "handle_event effect ?e l = Done (l1, expected_call l ?e)" "loop_ok l1"
      "registry l1 \<subseteq>\<^sub>m registry l" "epoll_events_buf l1 = epoll_events_buf l"
    using handle_removing [OF assms Suc.prems(1)] by blast
  have len: "Suc i + n \<le> length (epoll_events_buf l1)" using Suc.prems(2) l1(4) by simp
  obtain l' calls where c: "poll_events effect (Suc i) n l1 = Done (l', calls)" "loop_ok l'"
      "registry l' \<subseteq>\<^sub>m registry l1"
      "subseq calls (concat (map (expected_call l1) (take n (drop (Suc i) (epoll_events_buf l1)))))"
    using Suc.IH [OF l1(2) len] by blast
  have "subseq calls (concat (map (expected_call l) (take n (drop (Suc i) (epoll_events_buf l)))))"
    using subseq_order.trans [OF c(4) [unfolded l1(4)] expected_calls_shrink [OF l1(3)]] .
  moreover have "registry l' \<subseteq>\<^sub>m registry l" using c(3) l1(3) by (rule map_le_trans)
  ultimately show ?case
    using i l1(1) c(1,2) unfolding tail by (simp add: list_emb_append_mono)
qed simp

lemma expected_call_single: "expected_call l e = a # as \<Longrightarrow> as = []"
  by (auto simp: expected_call_def split: option.splits prod.splits)

lemma poll_dispatches:
  assumes "keeps_loop effect"
  shows "loop_ok l \<Longrightarrow> i + n \<le> length (epoll_events_buf l) \<Longrightarrow>
    \<exists>l' calls. poll_events effect i n l = Done (l', calls) \<and> loop_ok l' \<and>
      dispatch_events effect (take n (drop i (epoll_events_buf l))) l = Done (l', calls)"
proof (induction n arbitrary: i l)
  case (Suc n)
  let ?e = "epoll_events_buf l ! i"
  have i: "i < length (epoll_events_buf l)" using Suc.prems(2) by simp
  then have tail: "take (Suc n) (drop i (epoll_events_buf l)) = ?e # take n (drop (Suc i) (epoll_events_buf l))"
    by (simp add: Cons_nth_drop_Suc [symmetric])
  show ?case
  proof (cases "expected_call l ?e")
    case Nil
    obtain l' calls where "poll_events effect (Suc i) n l = Done (l', calls)" "loop_ok l'"
        "dispatch_events effect (take n (drop (Suc i) (epoll_events_buf l))) l = Done (l', calls)"
      using Suc.IH [OF Suc.prems(1), of "Suc i"] Suc.prems(2) by auto
    then show ?thesis using i Nil Suc.prems(1) unfolding tail by (simp add: handle_event_expected)
  next
    case (Cons a as)
    obtain c fd ev u where a: "a = (c, fd, ev, u)" by (cases a)
    obtain l1 where l1: "effect c l fd ev u = Done l1" "loop_ok l1" "epoll_events_buf l1 = epoll_events_buf l"
      using assms Suc.prems(1) unfolding keeps_loop_def by blast
    obtain l' calls where "poll_events effect (Suc i) n l1 = Done (l', calls)" "loop_ok l'"
        "dispatch_events effect (take n (drop (Suc i) (epoll_events_buf l1))) l1 = Done (l', calls)"
      using Suc.IH [OF l1(2), of "Suc i"] Suc.prems(2) l1(3) by auto
    then show ?thesis
      using i Cons a l1 Suc.prems(1) expected_call_single [OF Cons] unfolding tail by (simp add: handle_event_expected)
  qed
qed simp

lemma poll_quiet:
  assumes "\<And>c l fd ev u. effect c l fd ev u = Done l"
  shows "loop_ok l \<Longrightarrow> i + n \<le> length (epoll_events_buf l) \<Longrightarrow>
    poll_events effect i n l = Done (l, concat (map (expected_call l) (take n (drop i (epoll_events_buf l)))))"
proof (induction n arbitrary: i)
  case (Suc n)
  let ?e = "epoll_events_buf l ! i"
  have i: "i < length (epoll_events_buf l)" using Suc.prems(2) by simp
  then have tail: "take (Suc n) (drop i (epoll_events_buf l)) = ?e # take n (drop (Suc i) (epoll_events_buf l))"
    by (simp add: Cons_nth_drop_Suc [symmetric])
  have "handle_event effect ?e l = Done (l, expected_call l ?e)"
    using Suc.prems(1) assms by (cases "expected_call l ?e") (auto simp: handle_event_expected)
  then show ?case using i Suc.IH [of "Suc i"] Suc.prems unfolding tail by simp
qed simp

lemma expected_call_registered: "a \<in> set (expected_call l e) \<Longrightarrow> registry l (fst (snd a)) \<noteq> None"
  by (cases "registry l (fst e)") (auto simp: expected_call_def)

lemma no_call_when_unregistered:
  assumes "only_removes effect" "loop_ok l" "i + n \<le> length (epoll_events_buf l)" "registry l fd = None"
    and "poll_events effect i n l = Done (l', calls)"
  shows "fd \<notin> (fst \<circ> snd) ` set calls"
proof -
  let ?es = "take n (drop i (epoll_events_buf l))"
  obtain l2 calls2 where "poll_events effect i n l = Done (l2, calls2)"
      "subseq calls2 (concat (map (expected_call l) ?es))"
    using poll_removing [OF assms(1-3)] by blast
  then have sub: "subseq calls (concat (map (expected_call l) ?es))" using assms(5) by simp
  have "a \<in> (\<Union>e\<in>set ?es. set (expected_call l e))" if "a \<in> set calls" for a
    using list_emb_set [OF sub that] by auto
  moreover have "fst (snd a) \<noteq> fd" if "a \<in> set (expected_call l e)" for a e
    using that assms(4) expected_call_registered [of a l e] by auto
  ultimately show ?thesis by fastforce
qed

lemma poll_after_removal:
  assumes "only_removes effect" and "\<And>c l f ev u l'. loop_ok l \<Longrightarrow> effect c l f ev u = Done l' \<Longrightarrow> registry l' fd = None"
  shows "loop_ok l \<Longrightarrow> i + n \<le> length (epoll_events_buf l) \<Longrightarrow> poll_events effect i n l = Done (l', calls) \<Longrightarrow>
    fd \<notin> (fst \<circ> snd) ` set (tl calls)"
proof (induction n arbitrary: i calls)
  case (Suc n)
  let ?e = "epoll_events_buf l ! i"
  obtain l1 cs rest where h: "handle_event effect ?e l = Done (l1, cs)"
      and r: "poll_events effect (Suc i) n l1 = Done (l', rest)" and calls: "calls = cs @ rest"
    using Suc.prems(3) by (auto simp: bind_run_Done split: if_splits)
  show ?case
  proof (cases "expected_call l ?e")
    case Nil
    then have "l1 = l" "cs = []" using h Suc.prems(1) by (auto simp: handle_event_expected)
    then show ?thesis using Suc.IH [of "Suc i" rest] Suc.prems r calls by simp
  next
    case (Cons a as)
    obtain c f ev u where a: "a = (c, f, ev, u)" by (cases a)
    then have eff: "effect c l f ev u = Done l1" and cs: "cs = a # as" and as: "as = []"
      using Cons h Suc.prems(1)
      by (auto simp: handle_event_expected bind_run_Done expected_call_def split: option.splits)
    have "loop_ok l1" "epoll_events_buf l1 = epoll_events_buf l"
      using assms(1) Suc.prems(1) eff unfolding only_removes_def by (metis run.inject)+
    then have "fd \<notin> (fst \<circ> snd) ` set rest"
      using no_call_when_unregistered [OF assms(1) _ _ assms(2) [OF Suc.prems(1) eff] r] Suc.prems(2) by simp
    then show ?thesis using calls cs as by simp
  qed
qed simp

section \<open>Properties\<close>

text \<open>A loop to which one descriptor has been added, and a callback that removes it.\<close>

definition sample_loop :: "(nat, nat) event_loop" where
  "sample_loop = (case xsan_event_loop_add_fd True None (Some (fresh_loop 5 8)) 7 XSAN_EVENT_TYPE_READ (Some 1) (Some 2) of
     Done (Some l, _) \<Rightarrow> l | _ \<Rightarrow> fresh_loop 5 8)"

definition remove_seven :: "(nat, nat) callback_effect" where
  "remove_seven c l fd ev u =
     (case xsan_event_loop_remove_fd None (Some l) 7 of
        Done (Some l', _) \<Rightarrow> Done l' | _ \<Rightarrow> Bad_access)"

lemma fresh_reach: "el_reach (fresh_loop 5 8)"
  by (rule el_reach.Created [of True 5 True True 8]) (simp add: create_cases)

lemma sample_loop_reach:
  "el_reach sample_loop"
  "registry sample_loop = [7 \<mapsto> event_data XSAN_EVENT_TYPE_READ (Some 1) (Some 2)]"
proof -
  obtain l :: "(nat, nat) event_loop" where l: "xsan_event_loop_add_fd True None (Some (fresh_loop 5 8)) 7 XSAN_EVENT_TYPE_READ (Some 1) (Some 2) =
        Done (Some l, XSAN_OK)"
      "registry l = [7 \<mapsto> event_data XSAN_EVENT_TYPE_READ (Some 1) (Some 2)]"
    using add_fd_spec [of "fresh_loop 5 8" 7 None True XSAN_EVENT_TYPE_READ "Some (1 :: nat)" "Some (2 :: nat)"]
    by (fastforce simp: fresh_loop_ok)
  then show "el_reach sample_loop" "registry sample_loop = [7 \<mapsto> event_data XSAN_EVENT_TYPE_READ (Some 1) (Some 2)]"
    using el_reach.Added [OF fresh_reach _ l(1)] by (simp_all add: sample_loop_def)
qed

lemma remove_seven_spec:
  assumes "loop_ok l"
  shows "\<exists>l'. remove_seven c l fd ev u = Done l' \<and> loop_ok l' \<and> registry l' = (registry l)(7 := None) \<and>
           epoll_events_buf l' = epoll_events_buf l"
proof -
  obtain l' err where "xsan_event_loop_remove_fd None (Some l) 7 = Done (Some l', err)" "loop_ok l'"
      "err = XSAN_OK \<longleftrightarrow> registry l 7 \<noteq> None"
      "registry l' = (if err = XSAN_OK then (registry l)(7 := None) else registry l)"
      "epoll_events_buf l' = epoll_events_buf l"
    using remove_fd_spec [OF assms, of None 7] by blast
  moreover have "registry l 7 = None \<Longrightarrow> (registry l)(7 := None) = registry l" by auto
  ultimately show ?thesis by (cases "registry l 7 = None") (auto simp: remove_seven_def)
qed

lemma remove_seven_only_removes: "only_removes remove_seven"
  unfolding only_removes_def
proof (intro allI impI)
  fix c :: nat and l :: "(nat, nat) event_loop" and fd ev u
  assume "loop_ok l"
  from remove_seven_spec [OF this, of c fd ev u]
  show "\<exists>l'. remove_seven c l fd ev u = Done l' \<and> loop_ok l' \<and> registry l' \<subseteq>\<^sub>m registry l \<and>
          epoll_events_buf l' = epoll_events_buf l"
    by (auto simp: map_le_def)
qed

text \<open>C15: In every loop that a program can get to, the table has a callback exactly for
  the descriptors that the kernel watches. Adding, modifying and removing a descriptor below \<open>2\<^sup>3\<^sup>0\<close> never
  access memory outside the table. They succeed exactly when the arguments are good, the kernel has no
  other error and the descriptor is new (for adding, where also the table has or gets room, with a limit of
  \<open>2\<^sup>2\<^sup>0\<close> descriptors) or known (for the other two). Success changes what is registered for this descriptor
  and for no other; after a failure everything is registered as before. A descriptor is removed before it is
  closed: what the kernel does with a closed one is not part of the model.\<close>

theorem event_registry:
  fixes l :: "('c, 'u) event_loop"
  assumes "el_reach l" "failure \<noteq> Some 0" "fd < 2 ^ 30"
  shows "(\<forall>f. interest l f \<noteq> None \<longleftrightarrow> 0 \<le> f \<and> f < int (length (fd_data_map l)) \<and> fd_callback (fd_data_map l ! nat f) \<noteq> NULL) \<and>
    (\<exists>l' err. xsan_event_loop_add_fd calloc_ok failure (Some l) fd events callback user = Done (Some l', err) \<and>
       (err = XSAN_OK \<longleftrightarrow> 0 \<le> fd \<and> fd < 2 ^ 20 \<and> callback \<noteq> NULL \<and> failure = None \<and> registry l fd = None \<and>
          (fd < int (fd_data_map_capacity l) \<or> calloc_ok)) \<and>
       registry l' = (if err = XSAN_OK then (registry l)(fd \<mapsto> event_data events callback user) else registry l)) \<and>
    (\<exists>l' err. xsan_event_loop_modify_fd calloc_ok failure (Some l) fd events callback user = Done (Some l', err) \<and>
       (err = XSAN_OK \<longleftrightarrow> callback \<noteq> NULL \<and> failure = None \<and> registry l fd \<noteq> None) \<and>
       registry l' = (if err = XSAN_OK then (registry l)(fd \<mapsto> event_data events callback user) else registry l)) \<and>
    (\<exists>l' err. xsan_event_loop_remove_fd failure (Some l) fd = Done (Some l', err) \<and>
       (err = XSAN_OK \<longleftrightarrow> failure = None \<and> registry l fd \<noteq> None) \<and>
       registry l' = (if err = XSAN_OK then (registry l)(fd := None) else registry l))"
proof (intro conjI)
  note ok = reach_loop_ok [OF assms(1)]
  show "\<forall>f. interest l f \<noteq> None \<longleftrightarrow> 0 \<le> f \<and> f < int (length (fd_data_map l)) \<and> fd_callback (fd_data_map l ! nat f) \<noteq> NULL"
    using ok unfolding loop_ok_def table_ok_def by simp
  show "\<exists>l' err. xsan_event_loop_add_fd calloc_ok failure (Some l) fd events callback user = Done (Some l', err) \<and>
       (err = XSAN_OK \<longleftrightarrow> 0 \<le> fd \<and> fd < 2 ^ 20 \<and> callback \<noteq> NULL \<and> failure = None \<and> registry l fd = None \<and>
          (fd < int (fd_data_map_capacity l) \<or> calloc_ok)) \<and>
       registry l' = (if err = XSAN_OK then (registry l)(fd \<mapsto> event_data events callback user) else registry l)"
    using add_fd_spec [OF ok assms(3,2)] by blast
  show "\<exists>l' err. xsan_event_loop_modify_fd calloc_ok failure (Some l) fd events callback user = Done (Some l', err) \<and>
       (err = XSAN_OK \<longleftrightarrow> callback \<noteq> NULL \<and> failure = None \<and> registry l fd \<noteq> None) \<and>
       registry l' = (if err = XSAN_OK then (registry l)(fd \<mapsto> event_data events callback user) else registry l)"
    using modify_fd_spec [OF ok assms(3,2)] by blast
  show "\<exists>l' err. xsan_event_loop_remove_fd failure (Some l) fd = Done (Some l', err) \<and>
       (err = XSAN_OK \<longleftrightarrow> failure = None \<and> registry l fd \<noteq> None) \<and>
       registry l' = (if err = XSAN_OK then (registry l)(fd := None) else registry l)"
    using remove_fd_spec [OF ok assms(2)] by blast
qed

lemma event_registry_witness:
  "\<exists>l' err. xsan_event_loop_add_fd True None (Some sample_loop) 9 XSAN_EVENT_TYPE_WRITE (Some 3) NULL = Done (Some l', err) \<and>
     err = XSAN_OK \<and>
     registry l' = [7 \<mapsto> event_data XSAN_EVENT_TYPE_READ (Some 1) (Some 2), 9 \<mapsto> event_data XSAN_EVENT_TYPE_WRITE (Some 3) NULL]"
  using event_registry [OF sample_loop_reach(1), of None 9 True XSAN_EVENT_TYPE_WRITE "Some 3" NULL]
  by (fastforce simp: sample_loop_reach(2))

text \<open>C16: Polling handles the reported events in their order. Whatever the callbacks add, change or remove
  meanwhile, each event leads to exactly the call that is registered for its descriptor when its turn comes, with the
  argument registered with it and the events translated back, or to none if nothing is registered, and the next
  event finds what the callback has left; an event that was asked for arrives as it was asked for. If callbacks
  only remove descriptors, no call is made that was not registered at the start, and none for a descriptor
  that a previous callback has removed. When they change nothing, every registered event leads to its call.\<close>

theorem poll_dispatch:
  assumes "el_reach l" "keeps_loop effect"
  shows "\<exists>l' calls. xsan_event_loop_poll effect (Wait_events evs) (Some l) = Done (int (length evs), Some l', calls) \<and>
     loop_ok l' \<and>
     dispatch_events effect evs (l\<lparr>epoll_events_buf := evs @ drop (length evs) (epoll_events_buf l)\<rparr>) = Done (l', calls) \<and>
     (only_removes effect \<longrightarrow> subseq calls (concat (map (expected_call l) evs))) \<and>
     ((\<forall>c l fd ev u. effect c l fd ev u = Done l) \<longrightarrow> calls = concat (map (expected_call l) evs)) \<and>
     (\<forall>fd. only_removes effect \<and> (\<forall>c l f ev u l'. loop_ok l \<longrightarrow> effect c l f ev u = Done l' \<longrightarrow> registry l' fd = None) \<longrightarrow>
        fd \<notin> (fst \<circ> snd) ` set (tl calls)) \<and>
     (\<forall>fd events c u. registry l fd = Some (event_data events (Some c) u) \<longrightarrow>
        expected_call l (fd, xsan_to_epoll_events events) = [(c, fd, events AND 15, u)])"
proof -
  let ?l = "l\<lparr>epoll_events_buf := evs @ drop (length evs) (epoll_events_buf l)\<rparr>"
  have ok: "loop_ok ?l" using reach_loop_ok [OF assms(1)] by simp
  have len: "0 + length evs \<le> length (epoll_events_buf ?l)" by simp
  have ex: "expected_call ?l = expected_call l" by (simp add: expected_call_def fun_eq_iff)
  have evs: "take (length evs) (drop 0 (epoll_events_buf ?l)) = evs" by simp
  obtain l' calls where p: "poll_events effect 0 (length evs) ?l = Done (l', calls)" "loop_ok l'"
      "dispatch_events effect evs ?l = Done (l', calls)"
    using poll_dispatches [OF assms(2) ok len] unfolding evs by blast
  have sub: "subseq calls (concat (map (expected_call l) evs))" if "only_removes effect"
    using poll_removing [OF that ok len] p(1) unfolding ex evs by auto
  have quiet: "calls = concat (map (expected_call l) evs)" if "\<forall>c l fd ev u. effect c l fd ev u = Done l"
    using poll_quiet [of effect, OF _ ok len] that p(1) unfolding ex evs by simp
  have removed: "fd \<notin> (fst \<circ> snd) ` set (tl calls)"
    if "only_removes effect" "\<forall>c l f ev u l'. loop_ok l \<longrightarrow> effect c l f ev u = Done l' \<longrightarrow> registry l' fd = None" for fd
    by (rule poll_after_removal [OF that(1) _ ok len p(1)]) (use that(2) in blast)
  have asked: "expected_call l (fd, xsan_to_epoll_events events) = [(c, fd, events AND 15, u)]"
    if "registry l fd = Some (event_data events (Some c) u)" for fd events c u
    using that by (simp add: expected_call_def event_data_def events_round_trip)
  have "xsan_event_loop_poll effect (Wait_events evs) (Some l) = Done (int (length evs), Some l', calls)"
    using p(1) by (simp add: xsan_event_loop_poll_def)
  moreover have "\<forall>fd. only_removes effect \<and>
        (\<forall>c l f ev u l'. loop_ok l \<longrightarrow> effect c l f ev u = Done l' \<longrightarrow> registry l' fd = None) \<longrightarrow>
      fd \<notin> (fst \<circ> snd) ` set (tl calls)"
    using removed by (intro allI impI) (elim conjE)
  moreover have "\<forall>fd events c u. registry l fd = Some (event_data events (Some c) u) \<longrightarrow>
      expected_call l (fd, xsan_to_epoll_events events) = [(c, fd, events AND 15, u)]"
    using asked by (intro allI impI)
  ultimately show ?thesis
    using p(2,3) sub quiet by (intro exI [of _ l'] exI [of _ calls] conjI impI)
qed

lemma poll_dispatch_witness:
  "\<exists>l'. xsan_event_loop_poll remove_seven (Wait_events [(7, EPOLLIN), (7, EPOLLIN), (8, EPOLLIN)]) (Some sample_loop) =
       Done (3, Some l', [(1, 7, 1, Some 2)])"
proof -
  let ?evs = "[(7, EPOLLIN), (7, EPOLLIN), (8, EPOLLIN)] :: (int \<times> u32) list"
  let ?l = "sample_loop\<lparr>epoll_events_buf := ?evs @ drop (length ?evs) (epoll_events_buf sample_loop)\<rparr>"
  have ok: "loop_ok ?l" using reach_loop_ok [OF sample_loop_reach(1)] by simp
  have ev: "expected_call ?l (7, EPOLLIN) = [(1, 7, 1, Some 2)]"
    by (simp add: expected_call_def sample_loop_reach(2) event_data_def epoll_to_xsan_events_def event_codes)
  obtain l1 where l1: "remove_seven 1 ?l 7 1 (Some 2) = Done l1" "registry l1 = (registry ?l)(7 := None)"
    using remove_seven_spec [OF ok] by blast
  then have "expected_call l1 (7, EPOLLIN) = []" "expected_call l1 (8, EPOLLIN) = []"
    by (simp_all add: expected_call_def sample_loop_reach(2))
  with ev l1(1) have "dispatch_events remove_seven ?evs ?l = Done (l1, [(1, 7, 1, Some 2)])" by simp
  moreover obtain l' calls where
      "xsan_event_loop_poll remove_seven (Wait_events ?evs) (Some sample_loop) = Done (int (length ?evs), Some l', calls)"
      "dispatch_events remove_seven ?evs ?l = Done (l', calls)"
    using poll_dispatch [OF sample_loop_reach(1) only_removes_keeps [OF remove_seven_only_removes], of ?evs]
    by (elim exE conjE) (rule that)
  ultimately show ?thesis by simp
qed

end
