(* ===== verification/Logging.thy ===== *)
theory Logging
  imports StringUtils Interfaces "HOL-Library.Sublist"
begin

text \<open>
  The log of src/utils/log.c: levels, the line of a message, and the rotation of the log files.

  The global configuration, the flag beside it, the files and what was written to the standard error stream
  are the record \<open>logger\<close>. An open file is the path it was opened with; nothing else changes the files of
  the log. The lock is taken at the start and released at every end of the operations that need it, and no
  operation calls another one with the lock taken. The
  outcome of opening a file, the time and the text that the format of a message expands to are arguments.

  The files hold the tail of the log: rotation shifts the files by one and drops the oldest. When the
  messages go beyond what the files hold, the files keep in total at least the size limit times the number of
  the rotated files.
\<close>

section \<open>Levels\<close>

definition XSAN_LOG_LEVEL_TRACE :: int where "XSAN_LOG_LEVEL_TRACE = 0"
definition XSAN_LOG_LEVEL_INFO :: int where "XSAN_LOG_LEVEL_INFO = 2"
definition XSAN_LOG_LEVEL_FATAL :: int where "XSAN_LOG_LEVEL_FATAL = 5"

lemmas log_levels = XSAN_LOG_LEVEL_TRACE_def XSAN_LOG_LEVEL_INFO_def XSAN_LOG_LEVEL_FATAL_def

definition log_level_strings :: "string list" where
  "log_level_strings = [''TRACE'', ''DEBUG'', ''INFO'', ''WARN'', ''ERROR'', ''FATAL'']"

text \<open>The escape sequences of the terminal.\<close>

definition escape :: "string \<Rightarrow> string" where
  "escape code = CHR 0x1B # CHR ''['' # code @ ''m''"

definition log_level_colors :: "string list" where
  "log_level_colors = map escape [''37'', ''36'', ''32'', ''33'', ''31'', ''35'']"

definition color_reset :: string where
  "color_reset = escape ''0''"

definition xsan_log_level_string :: "int \<Rightarrow> string" where
  "xsan_log_level_string lev =
     (if XSAN_LOG_LEVEL_TRACE \<le> lev \<and> lev \<le> XSAN_LOG_LEVEL_FATAL then log_level_strings ! nat lev
      else ''UNKNOWN'')"

fun level_index :: "string \<Rightarrow> int \<Rightarrow> string list \<Rightarrow> int" where
  "level_index str i [] = XSAN_LOG_LEVEL_INFO"
| "level_index str i (s # ss) = (if casecmp_loop str s = 0 then i else level_index str (i + 1) ss)"

definition xsan_log_level_from_string :: "string ptr \<Rightarrow> int" where
  "xsan_log_level_from_string str =
     (case str of NULL \<Rightarrow> XSAN_LOG_LEVEL_INFO | Some s \<Rightarrow> level_index s 0 log_level_strings)"

section \<open>State\<close>

record xsan_log_config =
  log_file :: string
  log_level :: int
  console_output :: bool
  file_output :: bool
  max_file_size :: u64
  max_file_count :: int
  file_handle :: "string ptr"

record logger = xsan_log_config +
  g_log_initialized :: bool
  log_files :: "string \<rightharpoonup> string"
  stderr_text :: string

definition xsan_log_default_config :: xsan_log_config where
  "xsan_log_default_config =
     \<lparr>log_file = [], log_level = XSAN_LOG_LEVEL_INFO, console_output = True, file_output = False,
      max_file_size = 100 * 1024 * 1024, max_file_count = 10, file_handle = NULL\<rparr>"

definition start_logger :: "(string \<rightharpoonup> string) \<Rightarrow> logger" where
  "start_logger fs =
     \<lparr>log_file = [], log_level = XSAN_LOG_LEVEL_INFO, console_output = True, file_output = False,
      max_file_size = 100 * 1024 * 1024, max_file_count = 10, file_handle = NULL,
      g_log_initialized = False, log_files = fs, stderr_text = []\<rparr>"

section \<open>Files\<close>

definition XSAN_MAX_PATH_LEN :: nat where "XSAN_MAX_PATH_LEN = 4096"

text \<open>Opening a file to append and to write, and renaming one, which fails if there is none.\<close>

definition open_append :: "string \<Rightarrow> (string \<rightharpoonup> string) \<Rightarrow> (string \<rightharpoonup> string)" where
  "open_append path fs = (case fs path of None \<Rightarrow> fs(path \<mapsto> []) | Some _ \<Rightarrow> fs)"

definition rename_file :: "string \<Rightarrow> string \<Rightarrow> (string \<rightharpoonup> string) \<Rightarrow> (string \<rightharpoonup> string)" where
  "rename_file old_path new_path fs =
     (case fs old_path of None \<Rightarrow> fs | Some c \<Rightarrow> (fs(old_path := None))(new_path \<mapsto> c))"

text \<open>The loop of \<^verbatim>\<open>rotate_log_file\<close> from the given index down to 1, in buffers of \<^verbatim>\<open>XSAN_MAX_PATH_LEN\<close> bytes.\<close>

fun rotate_files :: "string \<Rightarrow> nat \<Rightarrow> (string \<rightharpoonup> string) \<Rightarrow> (string \<rightharpoonup> string)" where
  "rotate_files base 0 fs = fs"
| "rotate_files base (Suc i) fs =
     (let old_path = take (XSAN_MAX_PATH_LEN - 1) (base @ ''.'' @ show_nat i);
          new_path = take (XSAN_MAX_PATH_LEN - 1) (base @ ''.'' @ show_nat (Suc i));
          old_path = (if Suc i = 1 then take (XSAN_MAX_PATH_LEN - 1) base else old_path)
      in rotate_files base i (rename_file old_path new_path fs))"

definition rotate_log_file :: "bool \<Rightarrow> logger \<Rightarrow> logger" where
  "rotate_log_file open_ok g =
     (let g = g\<lparr>file_handle := NULL\<rparr>;
          g = g\<lparr>log_files := rotate_files (log_file g) (nat (max_file_count g - 1)) (log_files g)\<rparr>
      in if open_ok then g\<lparr>log_files := (log_files g)(log_file g \<mapsto> []), file_handle := Some (log_file g)\<rparr>
         else g\<lparr>file_handle := NULL\<rparr>)"

definition check_log_rotation :: "bool \<Rightarrow> logger \<Rightarrow> logger" where
  "check_log_rotation open_ok g =
     (case file_handle g of
        NULL \<Rightarrow> g
      | Some _ \<Rightarrow>
          (case log_files g (log_file g) of
             None \<Rightarrow> g
           | Some c \<Rightarrow> if length c \<ge> unat (max_file_size g) then rotate_log_file open_ok g else g))"

section \<open>Operations\<close>

definition xsan_log_init :: "bool \<Rightarrow> xsan_log_config ptr \<Rightarrow> logger \<Rightarrow> logger \<times> xsan_error" where
  "xsan_log_init open_ok config g =
     (case config of
        NULL \<Rightarrow> (g, XSAN_ERROR_INVALID_PARAM)
      | Some cf \<Rightarrow>
          (let g = g\<lparr>log_level := log_level cf, console_output := console_output cf, file_output := file_output cf,
                     max_file_size := max_file_size cf, max_file_count := max_file_count cf\<rparr> in
           if file_output cf \<and> log_file cf \<noteq> [] then
             (let g = g\<lparr>log_file := take (XSAN_MAX_PATH_LEN - 1) (log_file cf)\<rparr> in
              if \<not> open_ok then (g\<lparr>file_handle := NULL\<rparr>, XSAN_ERROR_STORAGE_IO)
              else
                (g\<lparr>log_files := open_append (log_file g) (log_files g), file_handle := Some (log_file g),
                   g_log_initialized := True\<rparr>, XSAN_OK))
           else (g\<lparr>g_log_initialized := True\<rparr>, XSAN_OK)))"

definition xsan_log_shutdown :: "logger \<Rightarrow> logger" where
  "xsan_log_shutdown g = g\<lparr>file_handle := NULL, g_log_initialized := False\<rparr>"

definition xsan_log_set_level :: "int \<Rightarrow> logger \<Rightarrow> logger" where
  "xsan_log_set_level lev g =
     (if XSAN_LOG_LEVEL_TRACE \<le> lev \<and> lev \<le> XSAN_LOG_LEVEL_FATAL then g\<lparr>log_level := lev\<rparr> else g)"

definition xsan_log_get_level :: "logger \<Rightarrow> int" where
  "xsan_log_get_level g = log_level g"

definition xsan_log_is_enabled :: "int \<Rightarrow> logger \<Rightarrow> bool" where
  "xsan_log_is_enabled lev g \<longleftrightarrow> g_log_initialized g \<and> log_level g \<le> lev"

text \<open>The local time and the nanoseconds, and a number padded with zeros to a width.\<close>

record log_time =
  tm_year :: int
  tm_mon :: int
  tm_mday :: int
  tm_hour :: int
  tm_min :: int
  tm_sec :: int
  tv_nsec :: int

definition pad_int :: "nat \<Rightarrow> int \<Rightarrow> string" where
  "pad_int w v =
     (let sgn = (if v < 0 then ''-'' else []); d = show_nat (nat \<bar>v\<bar>)
      in sgn @ replicate (w - length sgn - length d) (CHR ''0'') @ d)"

definition get_timestamp :: "nat \<Rightarrow> log_time \<Rightarrow> string" where
  "get_timestamp len t =
     take (len - 1)
       (pad_int 4 (tm_year t + 1900) @ ''-'' @ pad_int 2 (tm_mon t + 1) @ ''-'' @ pad_int 2 (tm_mday t) @ '' '' @
        pad_int 2 (tm_hour t) @ '':'' @ pad_int 2 (tm_min t) @ '':'' @ pad_int 2 (tm_sec t) @ ''.'' @
        pad_int 3 (tv_nsec t div 1000000))"

text \<open>A message: its level, the source position, the expansion of its format, and the time.\<close>

record log_entry =
  entry_level :: int
  entry_file :: string
  entry_line :: int
  entry_func :: string
  entry_text :: string
  entry_time :: log_time

definition base_name :: "string \<Rightarrow> string" where
  "base_name path = rev (takeWhile (\<lambda>c. c \<noteq> CHR ''/'') (rev path))"

definition full_message :: "log_entry \<Rightarrow> string" where
  "full_message e =
     take 4095
       (''['' @ get_timestamp 32 (entry_time e) @ ''] ['' @ log_level_strings ! nat (entry_level e) @ ''] ['' @
        base_name (entry_file e) @ '':'' @ show_int (entry_line e) @ ''] ['' @ entry_func e @ ''] '' @
        take 2047 (entry_text e) @ [CHR 0x0A])"

definition write_console :: "bool \<Rightarrow> log_entry \<Rightarrow> logger \<Rightarrow> logger" where
  "write_console use_color e g =
     (if console_output g then
        g\<lparr>stderr_text := stderr_text g @
            (if use_color then log_level_colors ! nat (entry_level e) @ full_message e @ color_reset
             else full_message e)\<rparr>
      else g)"

definition write_file :: "bool \<Rightarrow> log_entry \<Rightarrow> logger \<Rightarrow> logger" where
  "write_file open_ok e g =
     (if file_output g \<and> file_handle g \<noteq> NULL then
        (let g = check_log_rotation open_ok g in
         case file_handle g of
           NULL \<Rightarrow> g
         | Some h \<Rightarrow> g\<lparr>log_files := (log_files g)(h := map_option (\<lambda>c. c @ full_message e) (log_files g h))\<rparr>)
      else g)"

definition xsan_log_message :: "bool \<Rightarrow> bool \<Rightarrow> log_entry \<Rightarrow> logger \<Rightarrow> logger run" where
  "xsan_log_message open_ok use_color e g =
     (if \<not> g_log_initialized g \<or> entry_level e < log_level g then Done g
      else if entry_level e < 0 \<or> length log_level_strings \<le> nat (entry_level e) then Bad_access
      else Done (write_file open_ok e (write_console use_color e g)))"

text \<open>A sequence of messages.\<close>

fun log_messages :: "bool \<Rightarrow> log_entry list \<Rightarrow> logger \<Rightarrow> logger run" where
  "log_messages use_color [] g = Done g"
| "log_messages use_color (e # es) g =
     bind_run (xsan_log_message True use_color e g) (log_messages use_color es)"

section \<open>Rotation\<close>

text \<open>The path of the \<open>i\<close>-th file, the newest having the path itself, when the paths fit the buffers.\<close>

definition log_path :: "string \<Rightarrow> nat \<Rightarrow> string" where
  "log_path base i = (if i = 0 then base else base @ ''.'' @ show_nat i)"

definition paths_fit :: "string \<Rightarrow> nat \<Rightarrow> bool" where
  "paths_fit base n \<longleftrightarrow> (\<forall>i\<le>n. length (log_path base i) < XSAN_MAX_PATH_LEN)"

lemma show_nat_inj: "show_nat i = show_nat j \<Longrightarrow> i = j"
  by (metis digits_value_show of_nat_eq_iff)

lemma log_path_inj [simp]: "log_path base i = log_path base j \<longleftrightarrow> i = j"
  by (auto simp: log_path_def dest: show_nat_inj)

lemma paths_fit_less: "paths_fit base n \<Longrightarrow> m \<le> n \<Longrightarrow> paths_fit base m"
  by (simp add: paths_fit_def)

lemma rotate_step:
  assumes "paths_fit base (Suc n)"
  shows "rotate_files base (Suc n) fs =
    rotate_files base n (rename_file (log_path base n) (log_path base (Suc n)) fs)"
proof -
  have fit: "length (log_path base i) < XSAN_MAX_PATH_LEN" if "i \<le> Suc n" for i using assms that by (simp add: paths_fit_def)
  have cut: "take (XSAN_MAX_PATH_LEN - 1) (log_path base i) = log_path base i" if "i \<le> Suc n" for i
    using fit [OF that] by simp
  show ?thesis
    using cut [of n] cut [of "Suc n"] by (cases "n = 0") (simp_all add: log_path_def Let_def)
qed

declare rotate_files.simps(2) [simp del]

lemma rename_cases:
  assumes "old \<noteq> new"
  shows "rename_file old new fs old = None"
    and "rename_file old new fs new = (if fs old = None then fs new else fs old)"
    and "q \<noteq> old \<Longrightarrow> q \<noteq> new \<Longrightarrow> rename_file old new fs q = fs q"
  using assms by (auto simp: rename_file_def split: option.splits)

lemma rotate_others:
  "paths_fit base n \<Longrightarrow> q \<notin> log_path base ` {0..n} \<Longrightarrow> rotate_files base n fs q = fs q"
proof (induction n arbitrary: fs)
  case (Suc n)
  then have "q \<notin> log_path base ` {0..n}" "q \<noteq> log_path base n" "q \<noteq> log_path base (Suc n)" by auto
  then show ?case
    using Suc.IH [OF paths_fit_less [OF Suc.prems(1)]] rename_cases(3) [of "log_path base n" "log_path base (Suc n)" q fs]
    by (simp add: rotate_step [OF Suc.prems(1)])
qed simp

text \<open>Rotation shifts the files by one. The last one is kept only when there is none to replace it.\<close>

lemma rotate_shifts:
  "paths_fit base n \<Longrightarrow> i \<le> n \<Longrightarrow> 0 < n \<Longrightarrow>
   rotate_files base n fs (log_path base i) =
    (if i = 0 then None
     else if i = n \<and> fs (log_path base (n - 1)) = None then fs (log_path base n)
     else fs (log_path base (i - 1)))"
proof (induction n arbitrary: fs i)
  case (Suc n)
  let ?fs = "rename_file (log_path base n) (log_path base (Suc n)) fs"
  have fit: "paths_fit base n" using paths_fit_less [OF Suc.prems(1)] by simp
  have ne: "log_path base n \<noteq> log_path base (Suc n)" by simp
  have eq: "rotate_files base (Suc n) fs (log_path base i) = rotate_files base n ?fs (log_path base i)"
    by (simp add: rotate_step [OF Suc.prems(1)])
  show ?case
  proof (cases "i = Suc n")
    case True
    then have "log_path base i \<notin> log_path base ` {0..n}" by auto
    then show ?thesis using True rotate_others [OF fit, of "log_path base i" ?fs] rename_cases(2) [OF ne, of fs] eq by simp
  next
    case False
    then have i: "i \<le> n" using Suc.prems(2) by simp
    show ?thesis
    proof (cases "n = 0")
      case True
      then show ?thesis using i eq rename_cases(1) [OF ne, of fs] by simp
    next
      case n: False
      have "?fs (log_path base (j - 1)) = fs (log_path base (j - 1))" if "j \<le> n" "0 < j" for j
        using that by (intro rename_cases(3) [OF ne]) auto
      from this [of i] this [of n] show ?thesis
        using n i False eq Suc.IH [OF fit i, of ?fs] rename_cases(1) [OF ne, of fs] by (cases "i = n") auto
    qed
  qed
qed simp

text \<open>The files of the log as a list, the newest first, of at most \<open>n\<close> files. Rotation puts an empty one in
  front of it and drops what is beyond the limit.\<close>

definition holds_log :: "string \<Rightarrow> nat \<Rightarrow> (string \<rightharpoonup> string) \<Rightarrow> string list \<Rightarrow> bool" where
  "holds_log base n fs cs \<longleftrightarrow> cs \<noteq> [] \<and> length cs \<le> n \<and>
     (\<forall>i<n. fs (log_path base i) = (if i < length cs then Some (cs ! i) else None))"

definition file_count :: "('a) xsan_log_config_scheme \<Rightarrow> nat" where
  "file_count g = Suc (nat (max_file_count g - 1))"

lemma rotate_holds:
  assumes "holds_log base (Suc m) fs cs" "paths_fit base m"
  shows "holds_log base (Suc m) ((rotate_files base m fs)(base \<mapsto> [])) (take (Suc m) ([] # cs))"
proof -
  have zero: "log_path base 0 = base" by (simp add: log_path_def)
  have at: "((rotate_files base m fs)(base \<mapsto> [])) (log_path base i) =
      (if i < length (take (Suc m) ([] # cs)) then Some (take (Suc m) ([] # cs) ! i) else None)" if im: "i < Suc m" for i
  proof (cases "i = 0")
    case True
    then show ?thesis by (simp add: zero)
  next
    case False
    then obtain j where j: "i = Suc j" "j < m" using im by (cases i) auto
    have ne: "log_path base i \<noteq> base" using False log_path_inj [of base i 0] by (simp add: zero)
    have H: "fs (log_path base k) = (if k < length cs then Some (cs ! k) else None)" if "k \<le> m" for k
      using assms(1) that by (simp add: holds_log_def)
    have "rotate_files base m fs (log_path base i) = fs (log_path base j)"
    proof (cases "i = m \<and> fs (log_path base j) = None")
      case True
      then have "fs (log_path base m) = None" using H [of j] H [of m] j by (simp split: if_splits)
      then show ?thesis using True rotate_shifts [OF assms(2), of i fs] j by auto
    next
      case False
      then show ?thesis using rotate_shifts [OF assms(2), of i fs] j by auto
    qed
    then show ?thesis using H [of j] j ne by (simp add: min_def)
  qed
  show ?thesis unfolding holds_log_def using at by auto
qed

text \<open>What writing a line does to the list of files.\<close>

definition log_step :: "nat \<Rightarrow> nat \<Rightarrow> string list \<Rightarrow> string \<Rightarrow> string list" where
  "log_step n limit cs m =
     (let cs = (if limit \<le> length (hd cs) then take n ([] # cs) else cs) in (hd cs @ m) # tl cs)"

definition log_open :: "logger \<Rightarrow> bool" where
  "log_open g \<longleftrightarrow> g_log_initialized g \<and> file_output g \<and> file_handle g = Some (log_file g) \<and>
     paths_fit (log_file g) (nat (max_file_count g - 1))"

definition same_settings :: "logger \<Rightarrow> logger \<Rightarrow> bool" where
  "same_settings g g' \<longleftrightarrow> log_file g' = log_file g \<and> log_level g' = log_level g \<and> file_output g' = file_output g \<and>
     max_file_size g' = max_file_size g \<and> max_file_count g' = max_file_count g \<and>
     g_log_initialized g' = g_log_initialized g \<and> file_handle g' = file_handle g"

lemma holds_log_append:
  assumes "holds_log base n fs cs"
  shows "holds_log base n (fs(base := map_option (\<lambda>c. c @ m) (fs base))) ((hd cs @ m) # tl cs)"
proof -
  have zero: "log_path base 0 = base" by (simp add: log_path_def)
  have at: "log_path base i = base \<longleftrightarrow> i = 0" for i using log_path_inj [of base i 0] by (simp add: zero)
  obtain c cs' where cs: "cs = c # cs'" using assms by (cases cs) (auto simp: holds_log_def)
  then have "fs base = Some c" using assms zero by (auto simp: holds_log_def dest: spec [of _ 0])
  then show ?thesis using assms at cs by (auto simp: holds_log_def nth_Cons' less_Suc_eq)
qed

lemma rotation_spec:
  assumes "log_open g" "holds_log (log_file g) (file_count g) (log_files g) cs"
  shows "let g' = check_log_rotation True g;
             cs' = (if unat (max_file_size g) \<le> length (hd cs) then take (file_count g) ([] # cs) else cs)
         in same_settings g g' \<and> holds_log (log_file g) (file_count g) (log_files g') cs' \<and>
            (\<forall>q. q \<notin> log_path (log_file g) ` {0..<file_count g} \<longrightarrow> log_files g' q = log_files g q)"
proof -
  have zero: "log_path (log_file g) 0 = log_file g" by (simp add: log_path_def)
  obtain c cs' where cs: "cs = c # cs'" using assms(2) by (cases cs) (auto simp: holds_log_def)
  then have base: "log_files g (log_file g) = Some c"
    using assms(2) zero by (auto simp: holds_log_def file_count_def dest: spec [of _ 0])
  let ?m = "nat (max_file_count g - 1)"
  have fit: "paths_fit (log_file g) ?m" using assms(1) by (simp add: log_open_def)
  have rot: "holds_log (log_file g) (file_count g)
      ((rotate_files (log_file g) ?m (log_files g))(log_file g \<mapsto> [])) (take (file_count g) ([] # cs))"
    using rotate_holds [OF _ fit, of "log_files g" cs] assms(2) by (simp add: file_count_def)
  have others: "((rotate_files (log_file g) ?m (log_files g))(log_file g \<mapsto> [])) q = log_files g q"
    if "q \<notin> log_path (log_file g) ` {0..<file_count g}" for q
  proof -
    have "q \<noteq> log_file g" using that zero by (force simp: file_count_def)
    moreover have "q \<notin> log_path (log_file g) ` {0..?m}" using that by (auto simp: file_count_def)
    ultimately show ?thesis using rotate_others [OF fit] by simp
  qed
  show ?thesis
    using assms cs base rot others
    by (auto simp: check_log_rotation_def log_open_def rotate_log_file_def Let_def same_settings_def)
qed

lemma write_file_spec:
  assumes "log_open g" "holds_log (log_file g) (file_count g) (log_files g) cs"
  shows "let g' = write_file True e g
         in same_settings g g' \<and>
            holds_log (log_file g) (file_count g) (log_files g')
              (log_step (file_count g) (unat (max_file_size g)) cs (full_message e)) \<and>
            (\<forall>q. q \<notin> log_path (log_file g) ` {0..<file_count g} \<longrightarrow> log_files g' q = log_files g q)"
proof -
  let ?g = "check_log_rotation True g"
  have zero: "log_path (log_file g) 0 = log_file g" by (simp add: log_path_def)
  have others: "\<forall>q. q \<notin> log_path (log_file g) ` {0..<file_count g} \<longrightarrow> log_files ?g q = log_files g q"
    and same: "same_settings g ?g"
    and h: "holds_log (log_file g) (file_count g) (log_files ?g)
      (if unat (max_file_size g) \<le> length (hd cs) then take (file_count g) ([] # cs) else cs)"
    using rotation_spec [OF assms] unfolding Let_def by blast+
  have "q \<noteq> log_file g" if "q \<notin> log_path (log_file g) ` {0..<file_count g}" for q
    using that zero by (force simp: file_count_def)
  then show ?thesis
    using assms(1) same others holds_log_append [OF h, of "full_message e"]
    by (auto simp: write_file_def Let_def log_open_def same_settings_def log_step_def)
qed

section \<open>The tail of the log\<close>

text \<open>The files after the given text was logged: none is much larger than the limit, rotated ones have reached it,
  and text is missing only at the start and when all files are in use.\<close>

definition log_tail :: "nat \<Rightarrow> nat \<Rightarrow> string \<Rightarrow> string list \<Rightarrow> bool" where
  "log_tail n limit logged cs \<longleftrightarrow> cs \<noteq> [] \<and> length cs \<le> n \<and>
     (\<forall>c\<in>set cs. length c \<le> limit + 4095) \<and> (\<forall>c\<in>set (tl cs). limit \<le> length c) \<and>
     (concat (rev cs) = logged \<or> length cs = n \<and> suffix (concat (rev cs)) logged)"

lemma log_tail_step:
  assumes "log_tail n limit logged cs" "length m \<le> 4095"
  shows "log_tail n limit (logged @ m) (log_step n limit cs m)"
proof -
  obtain c cs' where cs: "cs = c # cs'" using assms(1) by (cases cs) (auto simp: log_tail_def)
  then obtain k where n: "n = Suc k" using assms(1) by (cases n) (auto simp: log_tail_def)
  show ?thesis
  proof (cases "limit \<le> length c")
    case False
    have "suffix (concat (rev cs)) logged \<Longrightarrow> suffix (concat (rev cs) @ m) (logged @ m)" by simp
    then show ?thesis using False assms cs by (auto simp: log_tail_def log_step_def)
  next
    case True
    have step: "log_step n limit cs m = m # take k cs" using True cs n by (simp add: log_step_def)
    have sub: "set (take k cs) \<subseteq> set cs" by (rule set_take_subset)
    have old: "\<forall>c\<in>set cs. length c \<le> limit + 4095" "\<forall>c\<in>set cs. limit \<le> length c"
      using assms(1) True cs by (auto simp: log_tail_def)
    have len: "length (m # take k cs) \<le> n" using n by simp
    show ?thesis
    proof (cases "length cs \<le> k")
      case fits: True
      then show ?thesis
        using assms old step len by (auto simp: log_tail_def n)
    next
      case False
      then have lc: "length cs = n" using assms(1) n by (simp add: log_tail_def)
      have "concat (rev cs) = concat (rev (drop k cs)) @ concat (rev (take k cs))"
        by (metis append_take_drop_id rev_append concat_append)
      moreover have "suffix (concat (rev cs)) logged" using assms(1) by (auto simp: log_tail_def)
      ultimately have "suffix (concat (rev (take k cs))) logged" by (simp add: suffix_appendD)
      then have "suffix (concat (rev (take k cs)) @ m) (logged @ m)" by simp
      then show ?thesis
        using assms(2) old sub step len lc n by (auto simp: log_tail_def)
    qed
  qed
qed

lemma full_message_length: "length (full_message e) \<le> 4095"
  by (simp add: full_message_def)

definition enabled_entries :: "int \<Rightarrow> log_entry list \<Rightarrow> log_entry list" where
  "enabled_entries lev es = filter (\<lambda>e. lev \<le> entry_level e) es"

lemma same_settings_trans: "same_settings g g' \<Longrightarrow> same_settings g' g'' \<Longrightarrow> same_settings g g''"
  by (simp add: same_settings_def)

lemma message_spec:
  assumes "log_open g" "holds_log (log_file g) (file_count g) (log_files g) cs"
    and "log_level g \<le> entry_level e" "0 \<le> entry_level e" "entry_level e \<le> 5"
  shows "\<exists>g'. xsan_log_message True use_color e g = Done g' \<and> same_settings g g' \<and>
           holds_log (log_file g) (file_count g) (log_files g')
             (log_step (file_count g) (unat (max_file_size g)) cs (full_message e)) \<and>
           (\<forall>q. q \<notin> log_path (log_file g) ` {0..<file_count g} \<longrightarrow> log_files g' q = log_files g q)"
proof -
  let ?g = "write_console use_color e g"
  have c: "log_files ?g = log_files g" "log_file ?g = log_file g" "file_count ?g = file_count g"
      "max_file_size ?g = max_file_size g" "log_open ?g = log_open g" "same_settings g ?g"
    by (simp_all add: write_console_def file_count_def log_open_def same_settings_def)
  have "nat (entry_level e) < 6" using assms(5) by simp
  then have "xsan_log_message True use_color e g = Done (write_file True e ?g)"
    using assms by (simp add: xsan_log_message_def log_open_def log_level_strings_def)
  moreover have "same_settings g (write_file True e ?g)"
    "holds_log (log_file g) (file_count g) (log_files (write_file True e ?g))
       (log_step (file_count g) (unat (max_file_size g)) cs (full_message e))"
    "\<forall>q. q \<notin> log_path (log_file g) ` {0..<file_count g} \<longrightarrow> log_files (write_file True e ?g) q = log_files g q"
    using write_file_spec [of ?g cs e] assms(1,2) same_settings_trans [OF c(6)]
    unfolding c Let_def by blast+
  ultimately show ?thesis by blast
qed

lemma messages_spec:
  assumes "\<forall>e\<in>set es. 0 \<le> entry_level e \<and> entry_level e \<le> 5"
  shows "log_open g \<Longrightarrow> holds_log (log_file g) (file_count g) (log_files g) cs \<Longrightarrow>
    log_tail (file_count g) (unat (max_file_size g)) logged cs \<Longrightarrow>
    \<exists>g' cs'. log_messages use_color es g = Done g' \<and> same_settings g g' \<and>
      holds_log (log_file g) (file_count g) (log_files g') cs' \<and>
      log_tail (file_count g) (unat (max_file_size g))
        (logged @ concat (map full_message (enabled_entries (log_level g) es))) cs' \<and>
      (\<forall>q. q \<notin> log_path (log_file g) ` {0..<file_count g} \<longrightarrow> log_files g' q = log_files g q)"
  using assms
proof (induction es arbitrary: g cs logged)
  case Nil
  then show ?case by (auto simp: enabled_entries_def same_settings_def)
next
  case (Cons e es)
  show ?case
  proof (cases "log_level g \<le> entry_level e")
    case False
    then have "xsan_log_message True use_color e g = Done g" by (simp add: xsan_log_message_def)
    then show ?thesis using Cons.IH [OF Cons.prems(1-3)] Cons.prems(4) False by (simp add: enabled_entries_def)
  next
    case True
    obtain g1 where g1: "xsan_log_message True use_color e g = Done g1" "same_settings g g1"
        "holds_log (log_file g) (file_count g) (log_files g1)
           (log_step (file_count g) (unat (max_file_size g)) cs (full_message e))"
        "\<forall>q. q \<notin> log_path (log_file g) ` {0..<file_count g} \<longrightarrow> log_files g1 q = log_files g q"
      using message_spec [OF Cons.prems(1,2) True, of use_color] Cons.prems(4) by (auto simp del: split_paired_All)
    have s: "log_file g1 = log_file g" "file_count g1 = file_count g" "max_file_size g1 = max_file_size g"
        "log_level g1 = log_level g" "log_open g1"
      using g1(2) Cons.prems(1) by (simp_all add: same_settings_def file_count_def log_open_def)
    obtain g' cs' where g': "log_messages use_color es g1 = Done g'" "same_settings g1 g'"
        "holds_log (log_file g) (file_count g) (log_files g') cs'"
        "log_tail (file_count g) (unat (max_file_size g))
           ((logged @ full_message e) @ concat (map full_message (enabled_entries (log_level g) es))) cs'"
        "\<forall>q. q \<notin> log_path (log_file g) ` {0..<file_count g} \<longrightarrow> log_files g' q = log_files g1 q"
      using Cons.IH [OF s(5), unfolded s, OF g1(3) log_tail_step [OF Cons.prems(3) full_message_length]] Cons.prems(4)
      by auto
    show ?thesis
      using g1(1,4) g'(1,3,4,5) same_settings_trans [OF g1(2) g'(2)] True
      by (intro exI [of _ g'] exI [of _ cs']) (simp add: enabled_entries_def)
  qed
qed

lemma log_tail_length:
  assumes "log_tail n limit logged cs"
  shows "suffix (concat (rev cs)) logged"
    and "concat (rev cs) = logged \<or> (n - 1) * limit \<le> length (concat (rev cs))"
proof -
  show "suffix (concat (rev cs)) logged" using assms by (auto simp: log_tail_def)
  have sum: "\<forall>c\<in>set ds. limit \<le> length c \<Longrightarrow> length ds * limit \<le> length (concat (rev ds))" for ds :: "string list"
    by (induction ds) auto
  obtain c cs' where cs: "cs = c # cs'" using assms by (cases cs) (auto simp: log_tail_def)
  then show "concat (rev cs) = logged \<or> (n - 1) * limit \<le> length (concat (rev cs))"
    using assms sum [of cs'] by (auto simp: log_tail_def)
qed

lemma init_holds:
  assumes "file_output cf" "log_file cf \<noteq> []" "paths_fit (log_file cf) (nat (max_file_count cf - 1))"
    and "\<forall>i<file_count cf. log_files g (log_path (log_file cf) i) = None"
  shows "\<exists>g'. xsan_log_init True (Some cf) g = (g', XSAN_OK) \<and> log_open g' \<and>
    log_file g' = log_file cf \<and> file_count g' = file_count cf \<and> max_file_size g' = max_file_size cf \<and> log_level g' = log_level cf \<and>
    holds_log (log_file cf) (file_count cf) (log_files g') [[]] \<and>
    (\<forall>q. q \<noteq> log_file cf \<longrightarrow> log_files g' q = log_files g q)"
proof -
  have zero: "log_path (log_file cf) 0 = log_file cf" by (simp add: log_path_def)
  then have cut: "take (XSAN_MAX_PATH_LEN - Suc 0) (log_file cf) = log_file cf"
    using assms(3) by (auto simp: paths_fit_def dest: spec [of _ 0])
  have none: "log_files g (log_file cf) = None" using assms(4) zero by (auto simp: file_count_def dest: spec [of _ 0])
  have at: "log_path (log_file cf) i = log_file cf \<longleftrightarrow> i = 0" for i
    using log_path_inj [of "log_file cf" i 0] by (simp add: zero)
  show ?thesis
    using assms none by (simp add: xsan_log_init_def Let_def cut log_open_def file_count_def open_append_def
        holds_log_def at zero)
qed

section \<open>Properties\<close>

lemma lower_code_tolower: "lower_code (tolower c) = lower_code c"
  by (simp add: lower_code_def tolower_def)

lemma first_code_tolower: "first_code (map tolower s) = first_code s"
  by (cases s) (simp_all add: first_code_def lower_code_tolower)

lemma casecmp_tolower: "casecmp_loop (map tolower s) t = casecmp_loop s t"
proof (induction s arbitrary: t)
  case (Cons c s)
  then show ?case
    using first_code_tolower [of "c # s"] by (cases t) (simp_all add: lower_code_tolower)
qed simp

text \<open>The name of a level is read back as the level, in either case.\<close>

lemma level_round_trip:
  assumes "0 \<le> lev" "lev \<le> 5"
  shows "xsan_log_level_from_string (Some (xsan_log_level_string lev)) = lev"
    and "xsan_log_level_from_string (Some (map tolower (xsan_log_level_string lev))) = lev"
proof -
  have all: "map (\<lambda>lev. xsan_log_level_from_string (Some (xsan_log_level_string lev))) [0, 1, 2, 3, 4, 5] = [0, 1, 2, 3, 4, 5]"
    by code_simp
  have "lev \<in> {0, 1, 2, 3, 4, 5}" using assms by auto
  then show round: "xsan_log_level_from_string (Some (xsan_log_level_string lev)) = lev" using all by auto
  have "level_index (map tolower s) i ss = level_index s i ss" for s i ss
    by (induction ss arbitrary: i) (simp_all add: casecmp_tolower)
  then show "xsan_log_level_from_string (Some (map tolower (xsan_log_level_string lev))) = lev"
    using round by (simp add: xsan_log_level_from_string_def)
qed

text \<open>C17: After the log was opened on a path for which there are no files yet, and if files can be opened, any sequence of
  messages leaves the files in a state that holds a tail of what was logged: read from the oldest file to
  the newest, they are a suffix of the lines of the enabled messages in their order. Either nothing was
  dropped, or what is kept is in total at least the size limit times the number of files but one. No file is longer than the
  limit by more than one line of 4095 characters, there are at most as many files as configured, and no
  other file is changed.\<close>

theorem log_keeps_tail:
  assumes "file_output cf" "log_file cf \<noteq> []" "paths_fit (log_file cf) (nat (max_file_count cf - 1))"
    and "\<forall>i<file_count cf. log_files g0 (log_path (log_file cf) i) = None"
    and "\<forall>e\<in>set es. 0 \<le> entry_level e \<and> entry_level e \<le> 5"
  shows "\<exists>g g' cs. xsan_log_init True (Some cf) g0 = (g, XSAN_OK) \<and>
    log_messages use_color es g = Done g' \<and>
    holds_log (log_file cf) (file_count cf) (log_files g') cs \<and>
    (\<forall>q. q \<notin> log_path (log_file cf) ` {0..<file_count cf} \<longrightarrow> log_files g' q = log_files g0 q) \<and>
    (\<forall>c\<in>set cs. length c \<le> unat (max_file_size cf) + 4095) \<and>
    (let logged = concat (map full_message (enabled_entries (log_level cf) es))
     in suffix (concat (rev cs)) logged \<and>
        (concat (rev cs) = logged \<or> (file_count cf - 1) * unat (max_file_size cf) \<le> length (concat (rev cs))))"
proof -
  obtain g where g: "xsan_log_init True (Some cf) g0 = (g, XSAN_OK)" "log_open g"
      "log_file g = log_file cf" "file_count g = file_count cf" "max_file_size g = max_file_size cf"
      "log_level g = log_level cf" "holds_log (log_file cf) (file_count cf) (log_files g) [[]]"
      "\<forall>q. q \<noteq> log_file cf \<longrightarrow> log_files g q = log_files g0 q"
    using init_holds [OF assms(1-4)] by blast
  have start: "log_tail (file_count cf) (unat (max_file_size cf)) [] [[]]" by (simp add: log_tail_def file_count_def)
  obtain g' cs where g': "log_messages use_color es g = Done g'"
      "holds_log (log_file cf) (file_count cf) (log_files g') cs"
      "log_tail (file_count cf) (unat (max_file_size cf)) (concat (map full_message (enabled_entries (log_level cf) es))) cs"
      "\<forall>q. q \<notin> log_path (log_file cf) ` {0..<file_count cf} \<longrightarrow> log_files g' q = log_files g q"
    using messages_spec [OF assms(5) g(2), unfolded g(3-6), OF g(7) start, of use_color] by auto
  have base: "log_file cf \<in> log_path (log_file cf) ` {0..<file_count cf}"
    by (rule image_eqI [of _ _ 0]) (simp_all add: log_path_def file_count_def)
  then have "\<forall>q. q \<notin> log_path (log_file cf) ` {0..<file_count cf} \<longrightarrow> log_files g' q = log_files g0 q"
    using g(8) g'(4) by metis
  moreover have "\<forall>c\<in>set cs. length c \<le> unat (max_file_size cf) + 4095" using g'(3) by (simp add: log_tail_def)
  ultimately show ?thesis
    using g(1) g'(1,2) log_tail_length [OF g'(3)] unfolding Let_def by blast
qed

definition sample_log :: xsan_log_config where
  "sample_log = xsan_log_default_config\<lparr>log_file := ''xsan.log'', file_output := True, max_file_size := 60,
     max_file_count := 2\<rparr>"

definition sample_entry :: "string \<Rightarrow> log_entry" where
  "sample_entry s =
     \<lparr>entry_level = XSAN_LOG_LEVEL_INFO, entry_file = ''src/main/xsan_node.c'', entry_line = 7, entry_func = ''main'',
      entry_text = s, entry_time = \<lparr>tm_year = 125, tm_mon = 0, tm_mday = 2, tm_hour = 3, tm_min = 4, tm_sec = 5,
        tv_nsec = 6000000\<rparr>\<rparr>"

lemma log_keeps_tail_witness:
  "\<exists>g g' cs. xsan_log_init True (Some sample_log) (start_logger Map.empty) = (g, XSAN_OK) \<and>
     log_messages False [sample_entry ''started'', sample_entry ''stopped''] g = Done g' \<and>
     holds_log ''xsan.log'' 2 (log_files g') cs \<and>
     suffix (concat (rev cs)) (full_message (sample_entry ''started'') @ full_message (sample_entry ''stopped''))"
proof -
  have count: "file_count sample_log = 2" "log_file sample_log = ''xsan.log''" "file_output sample_log"
      "max_file_count sample_log = 2" "log_level sample_log = 2"
    by (simp_all add: file_count_def sample_log_def xsan_log_default_config_def log_levels)
  have one: "show_nat 1 = ''1''" by code_simp
  have fit: "paths_fit (log_file sample_log) (nat (max_file_count sample_log - 1))"
    using one by (auto simp: paths_fit_def count log_path_def le_Suc_eq XSAN_MAX_PATH_LEN_def)
  have level: "entry_level (sample_entry s) = 2" for s by (simp add: sample_entry_def log_levels)
  show ?thesis
    using log_keeps_tail [of sample_log "start_logger Map.empty" "[sample_entry ''started'', sample_entry ''stopped'']" False,
        OF count(3) _ fit]
    by (simp add: count start_logger_def level enabled_entries_def Let_def) blast
qed

end
