(* ===== verification/Spec2Isabelle.thy ===== *)
theory Spec2Isabelle
  imports RingBuffer HashTable NodeComm ReplicaHandler MemoryPool EventLoop Logging
begin

text \<open>
  A verification library for XSAN, a distributed storage service in C. Paths are those of the repository.

  \<^bold>\<open>The program.\<close> A node of XSAN keeps volumes. The volume manager creates a volume on a group of disks, keeps a
  record of the volume and of its extents in a RocksDB database, and places replicas on other nodes that the
  cluster module knows of. A write to a volume is carried out on the local replica through the I/O layer and
  the block devices of SPDK, and sent to the other replicas as messages over the node communication, which frames
  them in the byte stream of a socket; the other node's handlers carry out the same write locally and answer.
  Below are general modules: error codes, lists, hash tables, ring buffers, strings, memory, the configuration,
  the event loop and the log.

  \<^bold>\<open>Conventions.\<close> A C structure is a record with the names of its fields, an integer of \<open>w\<close> bits a \<open>w word\<close>, a
  pointer that may be null an option (\<open>NULL\<close> is \<open>None\<close>), an error code a value of \<open>xsan_error\<close>. A function
  returns its result together with the state it has changed; whether an allocation succeeds is an argument. A
  result of type \<open>run\<close> (\<open>Interfaces\<close>) is \<open>Done\<close> with a value, \<open>Deadlock\<close> when a mutex is locked that the caller
  holds, or \<open>Bad_access\<close> when memory is read or written that is not there or was freed. Resources that are
  taken and given back are lists of \<open>Take\<close> and \<open>Give\<close>, which \<open>held\<close> adds up. Every definition is named after the
  function it models; helpers are parts of a function of the source. Libraries, and functions that the sources
  call but do not define, are parameters: RocksDB (\<open>rocksdb_ok\<close>), json-c (\<open>jsonc_ok\<close>), the UUIDs (\<open>uuid_ok\<close>), block
  devices (\<open>device_ok\<close>, \<open>dma_ok\<close>) and sockets of SPDK, the allocator of C, the kernel side of \<open>epoll\<close>. What is
  assumed of each is the predicate in parentheses or a hypothesis of the theorem, and each has an instance
  for which it holds.

  \<^bold>\<open>Theories, sources and results.\<close>
  \<^item> \<open>XsanPrelude\<close>: types of integers, pointers, general lemmas.
  \<^item> \<open>Errors\<close> (include/xsan\_error.h, src/common/error.c): codes, categories, messages, conversion from errno.
  \<^item> \<open>Interfaces\<close>: the locales. \<open>simulation\<close>: an implementation that follows an abstract machine step by step
    does so for every sequence of operations; interpreted by the ring buffer and the hash table.
    \<open>keyed_table\<close>: insert, remove and lookup; interpreted by the hash table and the configuration. \<open>codec\<close>: what is
    encoded is decoded; interpreted by the message header and by the escapes of strings.
  \<^item> \<open>RingBuffer\<close> (src/common/ring\_buffer.c): a bounded queue. \<open>HashTable\<close> (src/common/hashtable.c): a finite map,
    whatever the hash function; destructors run exactly for what is dropped. \<open>DList\<close> (src/common/list.c): on
    an explicit heap, every operation keeps a well-formed list.
  \<^item> \<open>StringUtils\<close> (src/utils/string\_utils.c): replacement, escaping, splitting, comparison, numbers.
  \<^item> \<open>ByteOrder\<close>, \<open>Protocol\<close> (src/network/protocol.c): the header is the same on the wire from every host and is
    read back; exactly well-formed headers are accepted; a checksum detects the change of a byte.
  \<^item> \<open>NodeComm\<close> (src/network/xsan\_node\_comm.c): whatever the pieces in which bytes arrive, the messages are
    dispatched in order, up to the first one that is freed when its handler returns: there the loop reads
    freed memory. What is sent without an error is what is received. A payload above 8437760 bytes, half of what the
    header admits, is never received.
  \<^item> \<open>MetadataStore\<close> (src/metadata/xsan\_metadata\_store.c): a client can follow the contents from the results of
    its calls; \<open>open_close_balanced\<close>: nothing is left behind. \<open>VolumeMeta\<close> (src/include/xsan\_storage.h, JSON functions
    of src/storage/volume\_manager.c): records are read back as they were written.
  \<^item> \<open>Config\<close>, \<open>NodeConfig\<close> (src/utils/config.c): values are read at the type they were stored with, a saved
    configuration is loaded again, seed nodes are parsed, validated settings are within their bounds.
    \<open>Cluster\<close> (src/cluster/xsan\_cluster.c): known nodes and local identity; no call ever adds a node.
  \<^item> \<open>VolumeManager\<close> (src/storage/volume\_manager.c): state, creation, deletion, overall state, loading. \<open>VolumeProps\<close>:
    a successful creation stores what was asked for; a failed one leaves list, database and space as they
    were, but for keys where RocksDB itself fails; deletion removes the volume and says what remains if RocksDB
    fails; a changed state is written; loading deadlocks as soon as a stored volume can be parsed.
    \<open>VolumeMapping\<close>: different blocks are mapped to physical blocks that do not overlap.
  \<^item> \<open>Bdev\<close> (src/bdev/xsan\_bdev.c): synchronous transfers end when the device completes and read what was
    written. \<open>IoRequest\<close> (src/io/xsan\_io.c): a request moves exactly the bytes asked for, gives back what it
    takes, and once it has reached SPDK is reported and freed exactly once.
  \<^item> \<open>Replication\<close> (src/replication/): contexts, and where their two definitions differ. \<open>VolumeIo\<close>: a local
    transfer inside an extent goes to the mapped blocks. \<open>WritePath\<close>: replicated writes as an inductive
    reachability of worlds with operations in flight; every replica is counted exactly once, every caller called
    at most once, and the callbacks that end in an invalid access are characterised exactly. \<open>ReplicaHandler\<close>: the
    replica decodes the request to the same write.
  \<^item> \<open>Memory\<close>, \<open>MemoryPool\<close> (src/utils/memory.c): the debug list and the statistics describe the blocks handed out; a
    pool never hands out a block twice, and loses blocks.
  \<^item> \<open>EventLoop\<close> (src/network/event\_loop.c): the table agrees with the kernel; a poll makes exactly the calls that
    are registered when the turn of an event comes. \<open>Logging\<close> (src/utils/log.c): the files hold a tail of the log.

  \<^bold>\<open>Bounds and fuel.\<close> Loops are structural recursion over what they walk, except for those that may not end: the
  poll for a completion (\<open>poll_loop\<close>), loading (\<open>load_loop\<close>) and the walks over linked blocks (\<open>leaks_loop\<close>, \<open>find_block\<close>,
  \<open>destroy_loop\<close>) are partial functions, and the properties state that they return. The fuel of clearing a list
  (\<open>clear_nodes\<close>) and of walking it (\<open>foreach\<close>) is a bound on the number of nodes; it is enough for every
  well-formed list. \<open>8437760\<close> is the largest capacity that doubling the receive buffer reaches.

  \<^bold>\<open>Not modelled.\<close> The disk manager (src/storage/disk\_manager.c) breaks off in the middle of a statement; its
  operations are parameters. Replicated reads: the coordinator frees its contexts twice. The label that
  \<^verbatim>\<open>xsan_volume_create\<close> jumps to when its metadata cannot be allocated does not exist (parameter
  \<open>missing_cleanup\<close>), nor do \<^verbatim>\<open>_xsan_check_replicated_write_completion\<close>, \<^verbatim>\<open>xsan_volume_get_by_id\<close>,
  \<^verbatim>\<open>xsan_node_comm_get_active_connection\<close> and the callback of the replica's local transfer (parameters or
  outputs). src/core/spdk\_manager.c, src/nvmf, src/vhost and src/network/socket.c only wrap libraries and
  system calls; src/main is input and output; src/common/version.c returns constants; include/xsan\_policy.h and
  include/xsan\_virtualization.h declare what is defined nowhere. Printing, the text of log messages, floating point
  conversions and threads other than through mutexes are outside the model, and so is what the kernel does with
  watched descriptors that are closed.
\<close>

end
